theory Spec2Isabelle
  imports Main "HOL-Library.Sublist" "HOL-Library.Monad_Syntax" "HOL-Library.AList"
begin

unbundle bit_operations_syntax

section \<open>JavaScript strings\<close>

text \<open>
  Strings are character lists; the model covers ASCII text, where the length of a
  string is its number of characters. An optional string stands for a value that may be
  \<^verbatim>\<open>undefined\<close> or \<^verbatim>\<open>null\<close>; such a value is falsy, and so is the empty string.
\<close>

definition truthy :: "string option \<Rightarrow> bool" where
  "truthy v = (case v of None \<Rightarrow> False | Some t \<Rightarrow> t \<noteq> [])"

text \<open>The rendering of an argument by the \<^verbatim>\<open>%s\<close> placeholder of \<^verbatim>\<open>util.format\<close>.\<close>

definition fmt :: "string option \<Rightarrow> string" where
  "fmt v = (case v of None \<Rightarrow> ''undefined'' | Some t \<Rightarrow> t)"

definition upperChars :: string where
  "upperChars = ''ABCDEFGHIJKLMNOPQRSTUVWXYZ''"

definition lowerChars :: string where
  "lowerChars = ''abcdefghijklmnopqrstuvwxyz''"

definition digitChars :: string where
  "digitChars = ''0123456789''"

definition isUpper :: "char \<Rightarrow> bool" where
  "isUpper c = (c \<in> set upperChars)"

definition isLower :: "char \<Rightarrow> bool" where
  "isLower c = (c \<in> set lowerChars)"

definition isDigit :: "char \<Rightarrow> bool" where
  "isDigit c = (c \<in> set digitChars)"

definition toUpper :: "char \<Rightarrow> char" where
  "toUpper c = (case map_of (zip lowerChars upperChars) c of Some u \<Rightarrow> u | None \<Rightarrow> c)"

definition toLower :: "char \<Rightarrow> char" where
  "toLower c = (case map_of (zip upperChars lowerChars) c of Some l \<Rightarrow> l | None \<Rightarrow> c)"

text \<open>\<^verbatim>\<open>s.indexOf(p)\<close>: the first position where \<open>p\<close> occurs, \<open>None\<close> for \<^verbatim>\<open>-1\<close>.\<close>

fun str_indexOf :: "string \<Rightarrow> string \<Rightarrow> nat option" where
  "str_indexOf [] p = (if p = [] then Some 0 else None)"
| "str_indexOf (c # cs) p =
     (if prefix p (c # cs) then Some 0 else map_option Suc (str_indexOf cs p))"

text \<open>\<^verbatim>\<open>s.split(sep)\<close> for a separator of one character.\<close>

fun str_split :: "char \<Rightarrow> string \<Rightarrow> string list" where
  "str_split sep [] = [[]]"
| "str_split sep (c # cs) =
     (if c = sep then [] # str_split sep cs
      else (case str_split sep cs of
              [] \<Rightarrow> [[c]]
            | w # ws \<Rightarrow> (c # w) # ws))"

text \<open>\<^verbatim>\<open>parts.join(sep)\<close>.\<close>

fun str_join :: "string \<Rightarrow> string list \<Rightarrow> string" where
  "str_join sep [] = []"
| "str_join sep [w] = w"
| "str_join sep (w # v # ws) = w @ sep @ str_join sep (v # ws)"

text \<open>\<^verbatim>\<open>s.replace(p, r)\<close> for a string pattern: only the first occurrence is replaced.\<close>

fun str_replace :: "string \<Rightarrow> string \<Rightarrow> string \<Rightarrow> string" where
  "str_replace [] p r = (if p = [] then r else [])"
| "str_replace (c # cs) p r =
     (if prefix p (c # cs) then r @ drop (length p) (c # cs)
      else c # str_replace cs p r)"

definition isSpace :: "char \<Rightarrow> bool" where
  "isSpace c = (c \<in> set [CHR '' '', CHR 0x09, CHR 0x0A, CHR 0x0B, CHR 0x0C, CHR 0x0D])"

definition str_trim :: "string \<Rightarrow> string" where
  "str_trim t = rev (dropWhile isSpace (rev (dropWhile isSpace t)))"

text \<open>Decimal rendering of a number, as string concatenation with a number gives it.\<close>

fun digitsOf :: "nat \<Rightarrow> string" where
  "digitsOf n =
     (if n < 10 then [digitChars ! n] else digitsOf (n div 10) @ [digitChars ! (n mod 10)])"

declare digitsOf.simps [simp del]

subsection \<open>The pascalCase function of the change-case package\<close>

text \<open>
  The processor imports \<^verbatim>\<open>pascalCase\<close> from the external package \<^verbatim>\<open>change-case\<close>, which
  is not part of the repository. It is modelled here for ASCII input as the package
  computes it: a space is put between a lower-case letter or digit and a following
  upper-case letter, and between two upper-case letters when a lower-case letter follows
  them; every run of characters other than letters and digits separates two words (and
  is dropped at both ends); all letters are lowered; a word after the first is joined
  with an underscore when it starts with a digit and otherwise with its first letter
  capitalised; the first letter of the result is capitalised.
\<close>

fun camelBoundaries :: "string \<Rightarrow> string" where
  "camelBoundaries (a # b # cs) =
     (if (isLower a \<or> isDigit a) \<and> isUpper b then a # CHR '' '' # camelBoundaries (b # cs)
      else if isUpper a \<and> isUpper b \<and> (case cs of [] \<Rightarrow> False | c # _ \<Rightarrow> isLower c)
        then a # CHR '' '' # camelBoundaries (b # cs)
      else a # camelBoundaries (b # cs))"
| "camelBoundaries cs = cs"

definition isWordChar :: "char \<Rightarrow> bool" where
  "isWordChar c = (isUpper c \<or> isLower c \<or> isDigit c)"

fun wordsOf :: "string \<Rightarrow> string \<Rightarrow> string list" where
  "wordsOf acc [] = (if acc = [] then [] else [rev acc])"
| "wordsOf acc (c # cs) =
     (if isWordChar c then wordsOf (c # acc) cs
      else if acc = [] then wordsOf [] cs
      else rev acc # wordsOf [] cs)"

definition noCase :: "string \<Rightarrow> string list" where
  "noCase t = map (map toLower) (wordsOf [] (camelBoundaries t))"

definition upperCaseFirst :: "string \<Rightarrow> string" where
  "upperCaseFirst t = (case t of [] \<Rightarrow> [] | c # cs \<Rightarrow> toUpper c # cs)"

definition camelJoin :: "string \<Rightarrow> string" where
  "camelJoin w = (case w of [] \<Rightarrow> [] | c # cs \<Rightarrow> if isDigit c then CHR ''_'' # w else toUpper c # cs)"

definition camelCase :: "string \<Rightarrow> string" where
  "camelCase t = (case noCase t of [] \<Rightarrow> [] | w # ws \<Rightarrow> w @ concat (map camelJoin ws))"

definition pascalCase :: "string \<Rightarrow> string" where
  "pascalCase t = upperCaseFirst (camelCase t)"

section \<open>Schema documents\<close>

text \<open>
  The parsed content of a document, with the fields the processor reads. A field that a
  document may leave out is optional. \<open>vs_include\<close> is \<^verbatim>\<open>compose.include\<close> and
  \<open>sd_differential\<close> is \<^verbatim>\<open>differential.element\<close>, absent when the enclosing object is;
  \<open>b_reference\<close> is \<^verbatim>\<open>valueSetReference.reference\<close>.
\<close>

record Extension =
  ext_url :: string
  ext_valueString :: "string option"

record Concept =
  c_code :: string
  c_display :: "string option"
  c_definition :: "string option"
  c_extension :: "Extension list option"

record ValueSetComposeIncludeFilter =
  flt_property :: string
  flt_op :: string
  flt_value :: string

record ValueSetComposeInclude =
  inc_system :: "string option"
  inc_concept :: "Concept list option"
  inc_filter :: "ValueSetComposeIncludeFilter list option"
  inc_valueSet :: "string list option"

record ValueSet =
  vs_name :: "string option"
  vs_description :: "string option"
  vs_copyright :: "string option"
  vs_include :: "ValueSetComposeInclude list option"

record CodeSystem =
  cs_name :: "string option"
  cs_description :: "string option"
  cs_copyright :: "string option"
  cs_url :: "string option"
  cs_caseSensitive :: "bool option"
  cs_concept :: "Concept list option"

record ElementDefinitionType =
  et_code :: string
  et_profile :: "string option"

record ElementDefinitionBinding =
  b_strength :: "string option"
  b_reference :: "string option"

record ElementDefinition =
  e_path :: string
  e_short :: "string option"
  e_definition :: "string option"
  e_min :: "nat option"
  e_max :: "string option"
  e_type :: "ElementDefinitionType list option"
  e_contentReference :: "string option"
  e_binding :: "ElementDefinitionBinding option"

record StructureDefinition =
  sd_id :: "string option"
  sd_name :: "string option"
  sd_kind :: "string option"
  sd_derivation :: "string option"
  sd_copyright :: "string option"
  sd_baseDefinition :: "string option"
  sd_differential :: "ElementDefinition list option"

datatype DomainResource =
    ValueSetR ValueSet
  | StructureDefinitionR StructureDefinition
  | CodeSystemR CodeSystem
  | OtherR string

fun resourceTypeOf :: "DomainResource \<Rightarrow> string" where
  "resourceTypeOf (ValueSetR v) = ''ValueSet''"
| "resourceTypeOf (StructureDefinitionR d) = ''StructureDefinition''"
| "resourceTypeOf (CodeSystemR c) = ''CodeSystem''"
| "resourceTypeOf (OtherR rt) = rt"

text \<open>The fields \<^verbatim>\<open>name\<close> and \<^verbatim>\<open>copyright\<close>, read through a cast to a value set.\<close>

fun contentName :: "DomainResource \<Rightarrow> string option" where
  "contentName (ValueSetR v) = vs_name v"
| "contentName (StructureDefinitionR d) = sd_name d"
| "contentName (CodeSystemR c) = cs_name c"
| "contentName (OtherR rt) = None"

fun contentCopyright :: "DomainResource \<Rightarrow> string option" where
  "contentCopyright (ValueSetR v) = vs_copyright v"
| "contentCopyright (StructureDefinitionR d) = sd_copyright d"
| "contentCopyright (CodeSystemR c) = cs_copyright c"
| "contentCopyright (OtherR rt) = None"

text \<open>
  A document of the map. The three visit flags are absent in a document the loader made.
  The flags \<open>queued\<close> and \<open>processed\<close> read as false when absent. The flag \<open>referenced\<close> is
  read through the prototype chain when the document has none of its own (see the state
  of a run), so for this flag absent (\<open>None\<close>) is kept apart from false. \<open>ftype\<close> is the
  address of the document's type node once it has one.
\<close>

record SpecificationFile =
  fid :: string
  filename :: string
  queued :: bool
  processed :: bool
  referenced :: "bool option"
  symbol :: "string option"
  content :: "DomainResource option"
  ftype :: "nat option"

section \<open>Type nodes\<close>

datatype TypeKind =
    KTypeReference | KObjectType | KInterfaceType | KEnumType
  | KArrayType | KUnionType | KPrimitive | KAliasType

fun kindNum :: "TypeKind \<Rightarrow> nat" where
  "kindNum KTypeReference = 1"
| "kindNum KObjectType = 2"
| "kindNum KInterfaceType = 4"
| "kindNum KEnumType = 8"
| "kindNum KArrayType = 16"
| "kindNum KUnionType = 32"
| "kindNum KPrimitive = 64"
| "kindNum KAliasType = 128"

definition ObjectTypes :: nat where
  "ObjectTypes = 6"

datatype TypeCategory =
    CatNone | CatPrimitive | CatDataType | CatResource | CatSubType | CatValueSet | CatCodeSystem

fun categoryNum :: "TypeCategory \<Rightarrow> nat" where
  "categoryNum CatNone = 0"
| "categoryNum CatPrimitive = 1"
| "categoryNum CatDataType = 2"
| "categoryNum CatResource = 3"
| "categoryNum CatSubType = 4"
| "categoryNum CatValueSet = 5"
| "categoryNum CatCodeSystem = 6"

text \<open>
  Type references, arrays and unions are made where they are used and are never shared,
  so they are values. A reference has a name and a binding; the element type of an
  array may be \<^verbatim>\<open>undefined\<close>.
\<close>

datatype TypeExpr =
    TypeReference "string option" "string option"
  | ArrayType "TypeExpr option"
  | UnionType "TypeExpr list"

fun exprKind :: "TypeExpr \<Rightarrow> TypeKind" where
  "exprKind (TypeReference n b) = KTypeReference"
| "exprKind (ArrayType e) = KArrayType"
| "exprKind (UnionType ts) = KUnionType"

fun refName :: "TypeExpr \<Rightarrow> string option" where
  "refName (TypeReference n b) = n"
| "refName (ArrayType e) = None"
| "refName (UnionType ts) = None"

record Property =
  p_name :: string
  p_description :: "string option"
  p_type :: TypeExpr
  p_optional :: bool

text \<open>
  Interface, enumeration and primitive nodes are objects that are shared and changed
  after they were made: they live in a store and are known by their address. A node
  has the fields of every kind, the ones its kind does not have being absent, as the
  processor's casts read them. \<open>t_members\<close> is the address of the member array.
\<close>

record Type =
  t_kind :: TypeKind
  t_category :: TypeCategory
  t_name :: "string option"
  t_description :: "string option"
  t_baseType :: "string option"
  t_properties :: "Property list option"
  t_members :: "nat option"
  t_intrinsicType :: "string option"

text \<open>
  An enumeration member. The source declares a \<^verbatim>\<open>parent\<close> field as well; no function
  assigns it, so it is \<^verbatim>\<open>undefined\<close> in every member and has no field here.
\<close>

record EnumMember =
  m_name :: "string option"
  m_description :: "string option"
  m_value :: string
  m_display :: "string option"
  m_system :: "string option"
  m_caseSensitive :: "bool option"

section \<open>The state of a run\<close>

text \<open>
  The document map in its enumeration order (the properties of its own; a document is
  known by its key), the name index \<^verbatim>\<open>typesByName\<close>, the two lists of the result, the
  current document (of which only the filename is ever read, so its filename stands for
  it), and the stores of type nodes, of members and of member arrays.

  The document map and the name index are plain objects. A lookup by a name that is no
  property of their own finds what every object inherits from \<^verbatim>\<open>Object.prototype\<close> under this
  name, if there is such a name: a function (for \<^verbatim>\<open>constructor\<close> the function \<^verbatim>\<open>Object\<close>), and
  for \<^verbatim>\<open>__proto__\<close> the prototype object itself. Such a value is truthy. Read as a document
  it has no content, no type and no flag, except that \<^verbatim>\<open>referenceFile\<close> sets the flag
  \<^verbatim>\<open>referenced\<close> on it as on a document; \<open>flagged\<close> lists the names of the inherited values on
  which it has done so. A flag on the prototype object is inherited by every object that
  has no such flag of its own, the documents and the inherited functions among them; and
  from then on \<^verbatim>\<open>referenced\<close> is itself a name under which the two maps find an inherited
  value, the flag \<^verbatim>\<open>true\<close>. These values outlive a run, so a run starts with the list that
  earlier runs have left.

  The field \<open>entered\<close> is no variable of the processor. It lists the keys of the documents,
  in order, for which the body of \<^verbatim>\<open>processFile\<close> (what follows its guard) has been entered.
\<close>

record st =
  files :: "(string \<times> SpecificationFile) list"
  typesByName :: "(string \<times> nat) list"
  types :: "nat list"
  errors :: "string list"
  currentFile :: "string option"
  theap :: "Type list"
  mheap :: "EnumMember list"
  aheap :: "nat list list"
  flagged :: "string list"
  entered :: "string list"

definition prototypeNames :: "string list" where
  "prototypeNames =
     [''constructor'', ''__defineGetter__'', ''__defineSetter__'', ''hasOwnProperty'',
      ''__lookupGetter__'', ''__lookupSetter__'', ''isPrototypeOf'', ''propertyIsEnumerable'',
      ''toString'', ''valueOf'', ''__proto__'', ''toLocaleString'']"

definition polluted :: "st \<Rightarrow> bool" where
  "polluted s = (''__proto__'' \<in> set (flagged s))"

definition inheritedNames :: "st \<Rightarrow> string list" where
  "inheritedNames s = prototypeNames @ (if polluted s then [''referenced''] else [])"

text \<open>
  The \<^verbatim>\<open>name\<close> of an inherited value: a function has one, the prototype object and the
  flag have none.
\<close>

definition builtinName :: "string \<Rightarrow> string option" where
  "builtinName k =
     (if k = ''__proto__'' \<or> k = ''referenced'' then None
      else if k = ''constructor'' then Some ''Object''
      else Some k)"

text \<open>\<^verbatim>\<open>files[k]\<close>: a document of the map, an inherited value, or \<^verbatim>\<open>undefined\<close>.\<close>

datatype Entry = Document SpecificationFile | Inherited

definition lookupFile :: "st \<Rightarrow> string \<Rightarrow> Entry option" where
  "lookupFile s k =
     (case map_of (files s) k of
        Some f \<Rightarrow> Some (Document f)
      | None \<Rightarrow> if k \<in> set (inheritedNames s) then Some Inherited else None)"

definition updFile :: "string \<Rightarrow> (SpecificationFile \<Rightarrow> SpecificationFile) \<Rightarrow> st \<Rightarrow> st" where
  "updFile k f s = s\<lparr>files := AList.map_entry k f (files s)\<rparr>"

text \<open>
  \<^verbatim>\<open>file.referenced\<close> and \<^verbatim>\<open>file.referenced = true\<close> for what \<^verbatim>\<open>files[k]\<close> has found: a
  document or an inherited value.
\<close>

definition isReferenced :: "st \<Rightarrow> string \<Rightarrow> bool" where
  "isReferenced s k =
     (case map_of (files s) k of
        Some f \<Rightarrow> (case referenced f of Some b \<Rightarrow> b | None \<Rightarrow> polluted s)
      | None \<Rightarrow> k \<in> set (flagged s) \<or> polluted s)"

definition setReferenced :: "string \<Rightarrow> st \<Rightarrow> st" where
  "setReferenced k s =
     (case map_of (files s) k of
        Some f \<Rightarrow> updFile k (\<lambda>f. f\<lparr>referenced := Some True\<rparr>) s
      | None \<Rightarrow> s\<lparr>flagged := flagged s @ [k]\<rparr>)"

text \<open>
  What a type resolves to: a node of the store, a type expression, or a value that the
  name index inherits (it has no kind, no category, no base type and no properties).
  \<^verbatim>\<open>typesByName[nm]\<close> is a node or an inherited value, or \<^verbatim>\<open>undefined\<close>.
\<close>

datatype TypeVal = Named nat | Anon TypeExpr | Builtin string

definition lookupType :: "st \<Rightarrow> string \<Rightarrow> TypeVal option" where
  "lookupType s nm =
     (case map_of (typesByName s) nm of
        Some a \<Rightarrow> Some (Named a)
      | None \<Rightarrow> if nm \<in> set (inheritedNames s) then Some (Builtin nm) else None)"

definition typeAt :: "st \<Rightarrow> nat \<Rightarrow> Type option" where
  "typeAt s a = (if a < length (theap s) then Some (theap s ! a) else None)"

definition updType :: "nat \<Rightarrow> (Type \<Rightarrow> Type) \<Rightarrow> st \<Rightarrow> st" where
  "updType a f s = (if a < length (theap s) then s\<lparr>theap := (theap s)[a := f (theap s ! a)]\<rparr> else s)"

definition newType :: "Type \<Rightarrow> st \<Rightarrow> nat \<times> st" where
  "newType t s = (length (theap s), s\<lparr>theap := theap s @ [t]\<rparr>)"

definition memberAt :: "st \<Rightarrow> nat \<Rightarrow> EnumMember option" where
  "memberAt s a = (if a < length (mheap s) then Some (mheap s ! a) else None)"

definition updMember :: "nat \<Rightarrow> (EnumMember \<Rightarrow> EnumMember) \<Rightarrow> st \<Rightarrow> st" where
  "updMember a f s = (if a < length (mheap s) then s\<lparr>mheap := (mheap s)[a := f (mheap s ! a)]\<rparr> else s)"

definition newMember :: "EnumMember \<Rightarrow> st \<Rightarrow> nat \<times> st" where
  "newMember m s = (length (mheap s), s\<lparr>mheap := mheap s @ [m]\<rparr>)"

definition arrayAt :: "st \<Rightarrow> nat \<Rightarrow> nat list" where
  "arrayAt s a = (if a < length (aheap s) then aheap s ! a else [])"

definition pushArray :: "nat \<Rightarrow> nat \<Rightarrow> st \<Rightarrow> st" where
  "pushArray a x s = (if a < length (aheap s) then s\<lparr>aheap := (aheap s)[a := aheap s ! a @ [x]]\<rparr> else s)"

definition newArray :: "nat list \<Rightarrow> st \<Rightarrow> nat \<times> st" where
  "newArray xs s = (length (aheap s), s\<lparr>aheap := aheap s @ [xs]\<rparr>)"

section \<open>Names\<close>

definition maxNameLength :: nat where
  "maxNameLength = 56"

definition isNumberCharacter :: "nat \<Rightarrow> bool" where
  "isNumberCharacter charCode = (48 \<le> charCode \<and> charCode \<le> 57)"

text \<open>\<^verbatim>\<open>charCodeAt(0)\<close> of the empty string is \<^verbatim>\<open>NaN\<close>, which is in no range.\<close>

definition startsWithNumber :: "string \<Rightarrow> bool" where
  "startsWithNumber t = (case t of [] \<Rightarrow> False | c # _ \<Rightarrow> isNumberCharacter (of_char c))"

definition formatName :: "string \<Rightarrow> string" where
  "formatName name =
     (let name1 = pascalCase name
      in if startsWithNumber name1 then ''_'' @ name1 else name1)"

definition getMappedName :: "string option \<Rightarrow> string \<Rightarrow> string option" where
  "getMappedName system code =
     (if code = ''='' then Some ''Equals''
      else if code = ''<'' then Some ''LessThan''
      else if code = ''<='' then Some ''LessThanOrEqual''
      else if code = ''>'' then Some ''GreaterThan''
      else if code = ''>='' then Some ''GreaterThanOrEqual''
      else None)"

definition getExtension :: "Concept \<Rightarrow> string \<Rightarrow> Extension option" where
  "getExtension element url =
     (case c_extension element of
        None \<Rightarrow> None
      | Some exts \<Rightarrow> find (\<lambda>item. ext_url item = url) exts)"

definition getExtensionValueString :: "Concept \<Rightarrow> string \<Rightarrow> string option" where
  "getExtensionValueString element url =
     (case getExtension element url of
        None \<Rightarrow> None
      | Some extension \<Rightarrow> ext_valueString extension)"

definition getEnumMemberDescription :: "Concept \<Rightarrow> string option" where
  "getEnumMemberDescription concept =
     (if truthy (c_definition concept) then c_definition concept
      else
        (let definitionExtension =
               getExtensionValueString concept ''http://hl7.org/fhir/StructureDefinition/valueset-definition''
         in if truthy definitionExtension then definitionExtension
            else (case c_display concept of
                    None \<Rightarrow> None
                  | Some d \<Rightarrow> if d \<noteq> [] \<and> str_indexOf d '' '' \<noteq> None then Some d else None)))"

definition getAlternateName :: "EnumMember \<Rightarrow> string option" where
  "getAlternateName member =
     (let name =
            (if m_value member \<noteq> [] \<and> \<not> startsWithNumber (m_value member) then Some (m_value member)
             else (case m_description member of
                     None \<Rightarrow> None
                   | Some d \<Rightarrow> if d \<noteq> [] \<and> length d < maxNameLength then Some d else None))
      in case name of
           None \<Rightarrow> None
         | Some nm \<Rightarrow> if nm \<noteq> [] then Some (formatName nm) else None)"

definition getNameFromSystemUrl :: "string \<Rightarrow> string" where
  "getNameFromSystemUrl url = formatName (last (str_split CHR ''/'' url))"

definition getEnumName :: "SpecificationFile \<Rightarrow> DomainResource \<Rightarrow> string" where
  "getEnumName file c =
     (let name0 = contentName c;
          name1 = (case name0 of
                     None \<Rightarrow> symbol file
                   | Some nm \<Rightarrow> if nm = [] \<or> str_indexOf nm '' '' \<noteq> None then symbol file else Some nm)
      in case name1 of
           None \<Rightarrow> getNameFromSystemUrl (fid file)
         | Some nm \<Rightarrow> if nm = [] then getNameFromSystemUrl (fid file) else formatName nm)"

section \<open>The resolver driver: errors and the registry\<close>

definition addError :: "string \<Rightarrow> st \<Rightarrow> st" where
  "addError msg s =
     (let msg1 = (case currentFile s of None \<Rightarrow> msg | Some fname \<Rightarrow> fname @ '': '' @ msg)
      in s\<lparr>errors := errors s @ [msg1]\<rparr>)"

definition isResourceDefinition :: "SpecificationFile \<Rightarrow> bool" where
  "isResourceDefinition file =
     (case content file of
        Some (StructureDefinitionR d) \<Rightarrow> sd_kind d = Some ''resource''
      | _ \<Rightarrow> False)"

definition isConstrainedType :: "SpecificationFile \<Rightarrow> bool" where
  "isConstrainedType file =
     (case content file of
        Some (StructureDefinitionR d) \<Rightarrow> sd_derivation d = Some ''constraint''
      | _ \<Rightarrow> False)"

definition addTypeToResults :: "nat \<Rightarrow> st \<Rightarrow> st" where
  "addTypeToResults a s =
     (let s1 =
            (case Option.bind (typeAt s a) t_name of
               None \<Rightarrow> s
             | Some nm \<Rightarrow>
                 if nm = [] then s
                 else (case lookupType s nm of
                         Some other \<Rightarrow> addError (''Duplicate type name '' @ [CHR 0x27] @ nm @ [CHR 0x27] @ ''.'') s
                       | None \<Rightarrow> s\<lparr>typesByName := typesByName s @ [(nm, a)]\<rparr>))
      in s1\<lparr>types := types s1 @ [a]\<rparr>)"

text \<open>\<^verbatim>\<open>file.type\<close> for what \<^verbatim>\<open>files[k]\<close> has found; an inherited value has none.\<close>

definition fileType :: "st \<Rightarrow> string \<Rightarrow> nat option" where
  "fileType s k = Option.bind (map_of (files s) k) ftype"

section \<open>The value-set and code-system composer\<close>

definition getEnumMemberName :: "string option \<Rightarrow> Concept \<Rightarrow> st \<Rightarrow> string option \<times> st" where
  "getEnumMemberName system concept s =
     (let name =
            (case getMappedName system (c_code concept) of
               Some mapped \<Rightarrow> Some mapped
             | None \<Rightarrow>
                 (let display = map_option str_trim (c_display concept)
                  in if truthy display \<and> length (fmt display) < maxNameLength
                     then map_option (\<lambda>nm. str_replace nm ''*'' ''Star'') (c_display concept)
                     else
                       (let code = c_code concept
                        in if code \<noteq> [] \<and> \<not> startsWithNumber code then Some code
                           else
                             (let description = map_option str_trim (getEnumMemberDescription concept)
                              in if truthy description \<and> length (fmt description) < maxNameLength
                                 then description
                                 else Some code))))
      in if \<not> truthy name
         then (None, addError ''Unable to determine name for value set concept.'' s)
         else (Some (formatName (fmt name)), s))"

fun processConceptsLoop :: "Concept list \<Rightarrow> bool option \<Rightarrow> string option \<Rightarrow> nat \<Rightarrow> st \<Rightarrow> st" where
  "processConceptsLoop [] caseSensitive system members s = s"
| "processConceptsLoop (concept # rest) caseSensitive system members s =
     (let (name, s1) = getEnumMemberName system concept s;
          display = map_option str_trim (c_display concept);
          member = \<lparr>m_name = name,
                    m_description = getEnumMemberDescription concept,
                    m_value = c_code concept,
                    m_display = (if truthy display then display else None),
                    m_system = system,
                    m_caseSensitive = caseSensitive\<rparr>;
          (ma, s2) = newMember member s1
      in processConceptsLoop rest caseSensitive system members (pushArray members ma s2))"

definition processConcepts :: "Concept list option \<Rightarrow> bool option \<Rightarrow> string option \<Rightarrow> st \<Rightarrow> nat \<times> st" where
  "processConcepts concepts caseSensitive system s =
     (let (members, s1) = newArray [] s
      in case concepts of
           None \<Rightarrow> (members, s1)
         | Some cs \<Rightarrow> (members, processConceptsLoop cs caseSensitive system members s1))"

definition processValueSetComposeInclude :: "ValueSetComposeInclude \<Rightarrow> st \<Rightarrow> nat \<times> st" where
  "processValueSetComposeInclude include =
     processConcepts (inc_concept include) (Some True) (inc_system include)"

definition processCodeSystem :: "string \<Rightarrow> SpecificationFile \<Rightarrow> CodeSystem \<Rightarrow> st \<Rightarrow> st" where
  "processCodeSystem k file c s =
     (let name = getEnumName file (CodeSystemR c);
          (members, s1) = processConcepts (cs_concept c) (cs_caseSensitive c) (cs_url c) s;
          (ta, s2) = newType \<lparr>t_kind = KEnumType, t_category = CatCodeSystem, t_name = Some name,
                              t_description = cs_description c, t_baseType = None,
                              t_properties = None, t_members = Some members,
                              t_intrinsicType = None\<rparr> s1
      in updFile k (\<lambda>f. f\<lparr>ftype := Some ta\<rparr>) s2)"

definition getValueSetFile :: "st \<Rightarrow> string \<Rightarrow> string option" where
  "getValueSetFile s url =
     (let url1 = (if url = ''http://build.fhir.org/valueset-request-intent.html''
                  then ''http://hl7.org/fhir/ValueSet/request-intent'' else url)
      in case lookupFile s url1 of
           Some file \<Rightarrow> Some url1
         | None \<Rightarrow>
             (let parts = str_split CHR ''/'' url1;
                  parts1 = take (length parts - 1) parts @ [''vs''] @ drop (length parts - 1) parts;
                  url2 = str_join ''/'' parts1
              in case lookupFile s url2 of Some file \<Rightarrow> Some url2 | None \<Rightarrow> None))"

definition memberName :: "st \<Rightarrow> nat \<Rightarrow> string option" where
  "memberName s a = Option.bind (memberAt s a) m_name"

definition getDuplicate :: "st \<Rightarrow> nat \<Rightarrow> nat \<Rightarrow> nat option" where
  "getDuplicate s memberToAdd members =
     find (\<lambda>currentMember. memberName s currentMember = memberName s memberToAdd) (arrayAt s members)"

definition areEnumMembersEqual :: "EnumMember \<Rightarrow> EnumMember \<Rightarrow> bool" where
  "areEnumMembersEqual member1 member2 =
     (m_name member1 = m_name member2
      \<and> m_value member1 = m_value member2
      \<and> m_description member1 = m_description member2
      \<and> m_display member1 = m_display member2
      \<and> m_system member1 = m_system member2
      \<and> m_caseSensitive member1 = m_caseSensitive member2)"

text \<open>
  The closing loop of \<^verbatim>\<open>adjustMemberName\<close>. It need not end (a member that is itself in
  the list always finds a duplicate), so it runs on fuel and \<open>None\<close> is a run that did
  not return. String concatenation renders a \<^verbatim>\<open>null\<close> name as \<^verbatim>\<open>null\<close>.
\<close>

fun suffixLoop :: "nat \<Rightarrow> string \<Rightarrow> nat \<Rightarrow> nat \<Rightarrow> nat \<Rightarrow> st \<Rightarrow> (bool \<times> st) option" where
  "suffixLoop 0 originalName num memberToAdd members s = None"
| "suffixLoop (Suc fuel) originalName num memberToAdd members s =
     (let s1 = updMember memberToAdd (\<lambda>m. m\<lparr>m_name := Some (originalName @ ''_'' @ digitsOf num)\<rparr>) s
      in if getDuplicate s1 memberToAdd members \<noteq> None
         then suffixLoop fuel originalName (num + 1) memberToAdd members s1
         else Some (True, s1))"

definition adjustMemberName :: "nat \<Rightarrow> nat \<Rightarrow> nat \<Rightarrow> st \<Rightarrow> (bool \<times> st) option" where
  "adjustMemberName fuel memberToAdd members s =
     (case getDuplicate s memberToAdd members of
        None \<Rightarrow> Some (True, s)
      | Some duplicateMember \<Rightarrow>
          (case (memberAt s duplicateMember, memberAt s memberToAdd) of
             (Some dm, Some am) \<Rightarrow>
               if areEnumMembersEqual dm am then Some (False, s)
               else
                 (let originalName = (case m_name am of None \<Rightarrow> ''null'' | Some nm \<Rightarrow> nm);
                      alternate = getAlternateName am
                  in if truthy alternate
                     then
                       (let s1 = updMember memberToAdd (\<lambda>m. m\<lparr>m_name := alternate\<rparr>) s
                        in if getDuplicate s1 memberToAdd members = None then Some (True, s1)
                           else
                             (let alternate2 = Option.bind (memberAt s1 duplicateMember) getAlternateName
                              in if truthy alternate2
                                 then
                                   (let s2 = updMember duplicateMember (\<lambda>m. m\<lparr>m_name := alternate2\<rparr>) s1
                                    in if getDuplicate s2 memberToAdd members = None then Some (True, s2)
                                       else suffixLoop fuel originalName 1 memberToAdd members s2)
                                 else suffixLoop fuel originalName 1 memberToAdd members s1))
                     else suffixLoop fuel originalName 1 memberToAdd members s)
           | _ \<Rightarrow> None))"

fun combineLoop :: "nat \<Rightarrow> nat \<Rightarrow> nat list \<Rightarrow> st \<Rightarrow> st option" where
  "combineLoop fuel typeMembers [] s = Some s"
| "combineLoop fuel typeMembers (member # rest) s =
     do {
       (ok, s1) \<leftarrow> adjustMemberName fuel member typeMembers s;
       combineLoop fuel typeMembers rest (if ok then pushArray typeMembers member s1 else s1)
     }"

text \<open>\<^verbatim>\<open>forEach\<close> visits the elements the array has when the call starts.\<close>

definition combine :: "nat \<Rightarrow> nat \<Rightarrow> nat option \<Rightarrow> st \<Rightarrow> st option" where
  "combine fuel typeMembers members s =
     (case members of
        None \<Rightarrow> Some s
      | Some ma \<Rightarrow> combineLoop fuel typeMembers (arrayAt s ma) s)"

definition enumMemberIsA :: "st \<Rightarrow> nat \<Rightarrow> string \<Rightarrow> bool" where
  "enumMemberIsA s member code =
     (case memberAt s member of None \<Rightarrow> False | Some m \<Rightarrow> m_value m = code)"

text \<open>
  The functions below reach \<^verbatim>\<open>referenceFile\<close> and \<^verbatim>\<open>processFile\<close> again. They take the
  two as parameters \<open>rf\<close> and \<open>pf\<close> (a document is passed by its key); the driver ties the
  knot on fuel. A result \<open>None\<close> is a run that does not return: it throws (a
  \<^verbatim>\<open>TypeError\<close> on a field of \<^verbatim>\<open>undefined\<close>, a \<^verbatim>\<open>ReferenceError\<close>) or it has no fuel left.
\<close>

definition substituteCodesFromOriginalSystem ::
  "(string \<Rightarrow> st \<Rightarrow> st option) \<Rightarrow> string \<Rightarrow> nat \<Rightarrow> st \<Rightarrow> (nat option \<times> st) option" where
  "substituteCodesFromOriginalSystem pf url members s =
     (case getValueSetFile s url of
        None \<Rightarrow> Some (Some members, s)
      | Some file \<Rightarrow>
          do {
            s1 \<leftarrow> pf file s;
            (case fileType s1 file of
               None \<Rightarrow> Some (Some members, s1)
             | Some ta \<Rightarrow>
                 (let typeMembers = Option.bind (typeAt s1 ta) t_members
                  in if arrayAt s1 members = [] then Some (typeMembers, s1)
                     else (case typeMembers of
                             None \<Rightarrow> None
                           | Some tm \<Rightarrow>
                               (let (filtered, s2) =
                                      newArray
                                        (filter (\<lambda>member.
                                           list_ex (\<lambda>currentMember.
                                               map_option m_value (memberAt s1 currentMember)
                                                 = map_option m_value (memberAt s1 member))
                                             (arrayAt s1 members))
                                           (arrayAt s1 tm)) s1
                                in Some (Some filtered, s2)))))
          })"

fun filterPushLoop :: "string \<Rightarrow> nat option \<Rightarrow> nat list \<Rightarrow> st \<Rightarrow> st option" where
  "filterPushLoop code members [] s = Some s"
| "filterPushLoop code members (member # rest) s =
     (if enumMemberIsA s member code
      then (case members of
              None \<Rightarrow> None
            | Some ma \<Rightarrow> filterPushLoop code members rest (pushArray ma member s))
      else filterPushLoop code members rest s)"

definition processFilter ::
  "(string \<Rightarrow> st \<Rightarrow> st option) \<Rightarrow> string \<Rightarrow> ValueSetComposeIncludeFilter \<Rightarrow> nat option \<Rightarrow> st \<Rightarrow> st option" where
  "processFilter pf url flt members s =
     (case getValueSetFile s url of
        None \<Rightarrow> Some s
      | Some file \<Rightarrow>
          if flt_op flt \<noteq> ''is-a''
          then Some (addError (''Do not know how to process filter operation '' @ [CHR 0x27] @ flt_op flt @ [CHR 0x27] @ ''.'') s)
          else if flt_property flt \<noteq> ''concept''
          then Some (addError (''Do not know how to process filter property '' @ [CHR 0x27] @ flt_property flt @ [CHR 0x27] @ ''.'') s)
          else
            do {
              s1 \<leftarrow> pf file s;
              (case fileType s1 file of
                 None \<Rightarrow> Some s1
               | Some ta \<Rightarrow>
                   (case Option.bind (typeAt s1 ta) t_members of
                      None \<Rightarrow> None
                    | Some tm \<Rightarrow> filterPushLoop (flt_value flt) members (arrayAt s1 tm) s1))
            })"

fun filtersLoop ::
  "(string \<Rightarrow> st \<Rightarrow> st option) \<Rightarrow> string \<Rightarrow> ValueSetComposeIncludeFilter list \<Rightarrow> nat option \<Rightarrow> st \<Rightarrow> st option" where
  "filtersLoop pf url [] members s = Some s"
| "filtersLoop pf url (flt # rest) members s =
     do {
       s1 \<leftarrow> processFilter pf url flt members s;
       filtersLoop pf url rest members s1
     }"

definition processImport :: "(string \<Rightarrow> st \<Rightarrow> st option) \<Rightarrow> string \<Rightarrow> st \<Rightarrow> (nat option \<times> st) option" where
  "processImport pf url s =
     (case getValueSetFile s url of
        None \<Rightarrow>
          (let s1 = addError (''Unable to process import statement for '' @ [CHR 0x27] @ url @ [CHR 0x27]
                              @ '' because value set with id '' @ [CHR 0x27] @ url @ [CHR 0x27]
                              @ '' could not be found.'') s;
               (empty, s2) = newArray [] s1
           in Some (Some empty, s2))
      | Some file \<Rightarrow>
          do {
            s1 \<leftarrow> pf file s;
            (case fileType s1 file of
               Some ta \<Rightarrow> Some (Option.bind (typeAt s1 ta) t_members, s1)
             | None \<Rightarrow> (let (empty, s2) = newArray [] s1 in Some (Some empty, s2)))
          })"

fun importsLoop :: "nat \<Rightarrow> (string \<Rightarrow> st \<Rightarrow> st option) \<Rightarrow> nat \<Rightarrow> string list \<Rightarrow> st \<Rightarrow> st option" where
  "importsLoop fuel pf typeMembers [] s = Some s"
| "importsLoop fuel pf typeMembers (url # rest) s =
     do {
       (members, s1) \<leftarrow> processImport pf url s;
       s2 \<leftarrow> combine fuel typeMembers members s1;
       importsLoop fuel pf typeMembers rest s2
     }"

definition processInclude ::
  "nat \<Rightarrow> (string \<Rightarrow> st \<Rightarrow> st option) \<Rightarrow> nat \<Rightarrow> ValueSetComposeInclude \<Rightarrow> st \<Rightarrow> (nat option \<times> st) option" where
  "processInclude fuel pf typeMembers include s =
     (if truthy (inc_system include)
      then
        (let (inline, s1) = processValueSetComposeInclude include s
         in do {
              (members, s2) \<leftarrow> substituteCodesFromOriginalSystem pf (fmt (inc_system include)) inline s1;
              s3 \<leftarrow> (case inc_filter include of
                       None \<Rightarrow> Some s2
                     | Some flts \<Rightarrow> filtersLoop pf (fmt (inc_system include)) flts members s2);
              Some (members, s3)
            })
      else
        do {
          s1 \<leftarrow> (case inc_valueSet include of
                   None \<Rightarrow> Some s
                 | Some imports \<Rightarrow> importsLoop fuel pf typeMembers imports s);
          (let (empty, s2) = newArray [] s1 in Some (Some empty, s2))
        })"

fun includesLoop ::
  "nat \<Rightarrow> (string \<Rightarrow> st \<Rightarrow> st option) \<Rightarrow> nat \<Rightarrow> ValueSetComposeInclude list \<Rightarrow> st \<Rightarrow> st option" where
  "includesLoop fuel pf typeMembers [] s = Some s"
| "includesLoop fuel pf typeMembers (item # rest) s =
     do {
       (members, s1) \<leftarrow> processInclude fuel pf typeMembers item s;
       s2 \<leftarrow> combine fuel typeMembers members s1;
       includesLoop fuel pf typeMembers rest s2
     }"

definition processValueSet ::
  "nat \<Rightarrow> (string \<Rightarrow> st \<Rightarrow> st option) \<Rightarrow> string \<Rightarrow> SpecificationFile \<Rightarrow> ValueSet \<Rightarrow> st \<Rightarrow> st option" where
  "processValueSet fuel pf k file v s =
     (let (members, s1) = newArray [] s;
          (ta, s2) = newType \<lparr>t_kind = KEnumType, t_category = CatValueSet,
                              t_name = Some (getEnumName file (ValueSetR v)),
                              t_description = vs_description v, t_baseType = None,
                              t_properties = None, t_members = Some members,
                              t_intrinsicType = None\<rparr> s1;
          s3 = updFile k (\<lambda>f. f\<lparr>ftype := Some ta\<rparr>) s2
      in case vs_include v of
           None \<Rightarrow> Some s3
         | Some includes \<Rightarrow> includesLoop fuel pf members includes s3)"

section \<open>Node constructors\<close>

definition createArrayType :: "TypeExpr option \<Rightarrow> TypeExpr" where
  "createArrayType elementType = ArrayType elementType"

definition createTypeReference :: "string option \<Rightarrow> TypeExpr" where
  "createTypeReference name = TypeReference name None"

definition createUnionType :: "TypeExpr list \<Rightarrow> TypeExpr" where
  "createUnionType ts = UnionType ts"

definition createInterfaceType :: "string \<Rightarrow> TypeCategory \<Rightarrow> Type" where
  "createInterfaceType name category =
     \<lparr>t_kind = KInterfaceType, t_category = category, t_name = Some name, t_description = None,
      t_baseType = None, t_properties = Some [], t_members = None, t_intrinsicType = None\<rparr>"

definition createPrimitiveType :: "string option \<Rightarrow> string option \<Rightarrow> Type" where
  "createPrimitiveType name intrinsicType =
     \<lparr>t_kind = KPrimitive, t_category = CatPrimitive, t_name = name, t_description = None,
      t_baseType = None, t_properties = None, t_members = None, t_intrinsicType = intrinsicType\<rparr>"

section \<open>The structure walker\<close>

definition getIntrinsicType :: "string option \<Rightarrow> string option" where
  "getIntrinsicType primitiveType =
     (if primitiveType \<in> set (map Some [''instant'', ''time'', ''date'', ''dateTime'', ''base64Binary'',
                                         ''string'', ''uri'', ''code'', ''id'', ''oid'', ''markdown''])
      then Some ''string''
      else if primitiveType \<in> set (map Some [''decimal'', ''integer'', ''unsignedInt'', ''positiveInt''])
      then Some ''number''
      else if primitiveType = Some ''boolean'' then Some ''boolean''
      else None)"

definition isPrimitive :: "StructureDefinition \<Rightarrow> bool" where
  "isPrimitive d =
     (case sd_differential d of
        None \<Rightarrow> False
      | Some elements \<Rightarrow>
          list_ex (\<lambda>element.
              case e_short element of
                None \<Rightarrow> False
              | Some sh \<Rightarrow> sh \<noteq> [] \<and> str_indexOf sh ''Primitive'' \<noteq> None)
            elements)"

text \<open>
  \<^verbatim>\<open>processPrimitive\<close> declares \<^verbatim>\<open>intrinsicType\<close> twice in its body, with \<^verbatim>\<open>let\<close> and then with
  \<^verbatim>\<open>const\<close>. That is an error before any statement runs (a \<^verbatim>\<open>SyntaxError\<close> of the script, a
  redeclaration error of the compiler): the function has no run that returns. The other
  functions are modelled as they are written, and the error is met where this function is
  called.
\<close>

definition processPrimitive :: "string \<Rightarrow> StructureDefinition \<Rightarrow> st \<Rightarrow> st option" where
  "processPrimitive k d s = None"

definition getResourceNameFromProfile :: "string \<Rightarrow> st \<Rightarrow> string option \<times> st" where
  "getResourceNameFromProfile profile s =
     (let base = ''http://hl7.org/fhir/StructureDefinition/''
      in if str_indexOf profile base = None
         then (None, addError (''Unrecognized profile uri: '' @ [CHR 0x27] @ profile @ [CHR 0x27] @ ''.'') s)
         else (Some (drop (length base) profile), s))"

definition getTypeByName ::
  "(string \<Rightarrow> st \<Rightarrow> st option) \<Rightarrow> string option \<Rightarrow> st \<Rightarrow> (TypeVal option \<times> st) option" where
  "getTypeByName rf name s =
     (case name of
        None \<Rightarrow> Some (None, s)
      | Some nm \<Rightarrow>
          if nm = [] then Some (None, s)
          else (case lookupType s nm of
                  Some ret \<Rightarrow> Some (Some ret, s)
                | None \<Rightarrow>
                    (case lookupFile s nm of
                       None \<Rightarrow> Some (None, s)
                     | Some referencedFile \<Rightarrow>
                         do {
                           s1 \<leftarrow> rf nm s;
                           Some (map_option Named (fileType s1 nm), s1)
                         })))"

text \<open>The loop of \<^verbatim>\<open>hasBaseInterface\<close> follows base types as long as there is one; on fuel.\<close>

fun hasBaseInterface ::
  "nat \<Rightarrow> (string \<Rightarrow> st \<Rightarrow> st option) \<Rightarrow> TypeVal option \<Rightarrow> string \<Rightarrow> st \<Rightarrow> (bool \<times> st) option" where
  "hasBaseInterface 0 rf baseType name s = None"
| "hasBaseInterface (Suc fuel) rf baseType name s =
     (case baseType of
        None \<Rightarrow> Some (False, s)
      | Some (Named a) \<Rightarrow>
          (case typeAt s a of
             None \<Rightarrow> None
           | Some t \<Rightarrow>
               if t_name t = Some name then Some (True, s)
               else
                 do {
                   (next, s1) \<leftarrow> getTypeByName rf (t_baseType t) s;
                   hasBaseInterface fuel rf next name s1
                 })
      | Some (Builtin k) \<Rightarrow>
          if builtinName k = Some name then Some (True, s)
          else
            do {
              (next, s1) \<leftarrow> getTypeByName rf None s;
              hasBaseInterface fuel rf next name s1
            }
      | Some (Anon e) \<Rightarrow> None)"

definition valKind :: "st \<Rightarrow> TypeVal \<Rightarrow> TypeKind option" where
  "valKind s tv =
     (case tv of
        Named a \<Rightarrow> map_option t_kind (typeAt s a)
      | Anon e \<Rightarrow> Some (exprKind e)
      | Builtin k \<Rightarrow> None)"

definition valName :: "st \<Rightarrow> TypeVal \<Rightarrow> string option" where
  "valName s tv =
     (case tv of
        Named a \<Rightarrow> Option.bind (typeAt s a) t_name
      | Anon e \<Rightarrow> refName e
      | Builtin k \<Rightarrow> builtinName k)"

definition isObjectKind :: "TypeKind option \<Rightarrow> bool" where
  "isObjectKind k = (case k of None \<Rightarrow> False | Some kd \<Rightarrow> (kindNum kd AND ObjectTypes) \<noteq> 0)"

fun stripArrays :: "TypeExpr \<Rightarrow> TypeExpr option" where
  "stripArrays (ArrayType None) = None"
| "stripArrays (ArrayType (Some e)) = stripArrays e"
| "stripArrays (TypeReference n b) = Some (TypeReference n b)"
| "stripArrays (UnionType ts) = Some (UnionType ts)"

definition getReferencedType ::
  "(string \<Rightarrow> st \<Rightarrow> st option) \<Rightarrow> TypeExpr option \<Rightarrow> TypeCategory option \<Rightarrow> st \<Rightarrow> (TypeVal option \<times> st) option" where
  "getReferencedType rf currentType category s =
     (case currentType of
        None \<Rightarrow> Some (None, s)
      | Some e \<Rightarrow>
          (case stripArrays e of
             None \<Rightarrow> None
           | Some (TypeReference referencedName b) \<Rightarrow>
               do {
                 (found, s1) \<leftarrow> getTypeByName rf referencedName s;
                 (case found of
                    None \<Rightarrow>
                      Some (None, addError (''Could not find type with name '' @ [CHR 0x27] @ fmt referencedName
                                            @ [CHR 0x27] @ ''.'') s1)
                  | Some (Named a) \<Rightarrow>
                      (case (category, typeAt s1 a) of
                         (Some cat, Some t) \<Rightarrow>
                           if categoryNum cat \<noteq> 0 \<and> (categoryNum (t_category t) AND categoryNum cat) = 0
                           then Some (None, s1)
                           else Some (Some (Named a), s1)
                       | (Some cat, None) \<Rightarrow> None
                       | (None, _) \<Rightarrow> Some (Some (Named a), s1))
                  | Some (Builtin k) \<Rightarrow>
                      (case category of
                         Some cat \<Rightarrow>
                           if categoryNum cat \<noteq> 0 then Some (None, s1) else Some (Some (Builtin k), s1)
                       | None \<Rightarrow> Some (Some (Builtin k), s1))
                  | Some (Anon e0) \<Rightarrow> None)
               }
           | Some e1 \<Rightarrow> Some (Some (Anon e1), s)))"

definition getPropertyName :: "string \<Rightarrow> string option" where
  "getPropertyName path = (if path \<noteq> [] then Some (last (str_split CHR ''.'' path)) else None)"

definition getProperty :: "Type \<Rightarrow> string \<Rightarrow> Property option" where
  "getProperty t name = find (\<lambda>prop. p_name prop = name) (case t_properties t of None \<Rightarrow> [] | Some ps \<Rightarrow> ps)"

text \<open>
  The path has had its first segment removed and is not empty where the function is
  called; for an empty path \<^verbatim>\<open>path.shift()\<close> would be \<^verbatim>\<open>undefined\<close>, which names no
  property.
\<close>

fun getContainingTypeForPath ::
  "(string \<Rightarrow> st \<Rightarrow> st option) \<Rightarrow> nat \<Rightarrow> string list \<Rightarrow> st \<Rightarrow> (nat option \<times> st) option" where
  "getContainingTypeForPath rf parentType [] s =
     (case typeAt s parentType of
        None \<Rightarrow> None
      | Some pt \<Rightarrow>
          (case t_properties pt of
             None \<Rightarrow> None
           | Some props \<Rightarrow>
               Some (None, addError (''Could not find property '' @ [CHR 0x27] @ ''undefined'' @ [CHR 0x27]
                                     @ '' on type '' @ [CHR 0x27] @ fmt (t_name pt) @ [CHR 0x27] @ ''.'') s)))"
| "getContainingTypeForPath rf parentType [last_part] s = Some (Some parentType, s)"
| "getContainingTypeForPath rf parentType (propertyName # next_part # rest) s =
     (case typeAt s parentType of
        None \<Rightarrow> None
      | Some pt \<Rightarrow>
          (case t_properties pt of
             None \<Rightarrow> None
           | Some props \<Rightarrow>
               (case find (\<lambda>prop. p_name prop = propertyName) props of
                  None \<Rightarrow>
                    Some (None, addError (''Could not find property '' @ [CHR 0x27] @ propertyName @ [CHR 0x27]
                                          @ '' on type '' @ [CHR 0x27] @ fmt (t_name pt) @ [CHR 0x27] @ ''.'') s)
                | Some property \<Rightarrow>
                    do {
                      (currentType, s1) \<leftarrow> getReferencedType rf (Some (p_type property)) None s;
                      (case currentType of
                         None \<Rightarrow> Some (None, s1)
                       | Some tv \<Rightarrow>
                           if \<not> isObjectKind (valKind s1 tv)
                           then Some (None, addError (''Expected property '' @ [CHR 0x27] @ propertyName
                                                      @ [CHR 0x27] @ '' to reference an object type.'') s1)
                           else (case tv of
                                   Named a \<Rightarrow> getContainingTypeForPath rf a (next_part # rest) s1
                                 | _ \<Rightarrow> None))
                    })))"

definition getContainingTypeForElement ::
  "nat \<Rightarrow> (string \<Rightarrow> st \<Rightarrow> st option) \<Rightarrow> nat \<Rightarrow> ElementDefinition \<Rightarrow> st \<Rightarrow> (nat option \<times> st) option" where
  "getContainingTypeForElement fuel rf resourceType element s =
     (let path = e_path element
      in if path = [] then Some (None, s)
         else
           (let parts = str_split CHR ''.'' path;
                resourceName = hd parts
            in if resourceName = [] then Some (None, s)
               else
                 do {
                   (found, s1) \<leftarrow> hasBaseInterface fuel rf (Some (Named resourceType)) resourceName s;
                   if \<not> found
                   then Some (None, addError (''Expected '' @ [CHR 0x27] @ resourceName @ [CHR 0x27] @ '' to be a ''
                                              @ [CHR 0x27] @ fmt (Option.bind (typeAt s1 resourceType) t_name)
                                              @ [CHR 0x27] @ ''.'') s1)
                   else getContainingTypeForPath rf resourceType (tl parts) s1
                 }))"

text \<open>
  \<^verbatim>\<open>findTypeOfFirstProperty\<close> searches the property tree of a node. Its \<^verbatim>\<open>for\<close> loop
  reads the property list anew at every index, and resolving a property can make the
  list longer, so both the function and its loop run on fuel. The array \<^verbatim>\<open>checked\<close> is
  shared by all calls: it is returned with the result.
\<close>

fun findTypeOfFirstProperty ::
  "nat \<Rightarrow> (string \<Rightarrow> st \<Rightarrow> st option) \<Rightarrow> nat \<Rightarrow> string option \<Rightarrow> nat list \<Rightarrow> st
     \<Rightarrow> ((TypeExpr option \<times> nat list) \<times> st) option"
and findTypeLoop ::
  "nat \<Rightarrow> (string \<Rightarrow> st \<Rightarrow> st option) \<Rightarrow> nat \<Rightarrow> string option \<Rightarrow> nat \<Rightarrow> nat list \<Rightarrow> st
     \<Rightarrow> ((TypeExpr option \<times> nat list) \<times> st) option" where
  "findTypeOfFirstProperty 0 rf ty name checked s = None"
| "findTypeOfFirstProperty (Suc fuel) rf ty name checked s =
     (case Option.bind (typeAt s ty) t_properties of
        None \<Rightarrow> Some ((None, checked), s)
      | Some props \<Rightarrow>
          if ty \<in> set checked then Some ((None, checked), s)
          else findTypeLoop fuel rf ty name 0 (checked @ [ty]) s)"
| "findTypeLoop 0 rf ty name i checked s = None"
| "findTypeLoop (Suc fuel) rf ty name i checked s =
     (case Option.bind (typeAt s ty) t_properties of
        None \<Rightarrow> None
      | Some props \<Rightarrow>
          if i < length props
          then
            (let property = props ! i
             in if Some (p_name property) = name then Some ((Some (p_type property), checked), s)
                else
                  do {
                    (propertyType, s1) \<leftarrow> getReferencedType rf (Some (p_type property)) (Some CatSubType) s;
                    (case propertyType of
                       Some (Named a) \<Rightarrow>
                         if isObjectKind (valKind s1 (Named a))
                         then
                           do {
                             ((match, checked1), s2) \<leftarrow> findTypeOfFirstProperty fuel rf a name checked s1;
                             if match \<noteq> None then Some ((match, checked1), s2)
                             else findTypeLoop fuel rf ty name (i + 1) checked1 s2
                           }
                         else findTypeLoop fuel rf ty name (i + 1) checked s1
                     | _ \<Rightarrow> findTypeLoop fuel rf ty name (i + 1) checked s1)
                  })
          else Some ((None, checked), s))"

definition createSubType :: "ElementDefinition \<Rightarrow> string \<Rightarrow> st \<Rightarrow> TypeExpr \<times> st" where
  "createSubType element baseType s =
     (let subTypeName = pascalCase (e_path element);
          subType = (createInterfaceType subTypeName CatSubType)
                      \<lparr>t_description := e_short element, t_baseType := Some baseType\<rparr>;
          (a, s1) = newType subType s
      in (createTypeReference (Some subTypeName), addTypeToResults a s1))"

definition getFileForType ::
  "(string \<Rightarrow> st \<Rightarrow> st option) \<Rightarrow> string \<Rightarrow> st \<Rightarrow> (string option \<times> st) option" where
  "getFileForType rf name s =
     (case lookupFile s name of
        None \<Rightarrow> Some (None, addError (''Unknown type '' @ [CHR 0x27] @ name @ [CHR 0x27] @ ''.'') s)
      | Some elementTypeFile \<Rightarrow>
          do {
            s1 \<leftarrow> rf name s;
            Some (Some name, s1)
          })"

definition openTypeElement :: "ElementDefinitionType list" where
  "openTypeElement =
     map (\<lambda>c. \<lparr>et_code = c, et_profile = None\<rparr>)
       [''integer'', ''decimal'', ''dateTime'', ''date'', ''instant'', ''time'', ''string'', ''uri'',
        ''boolean'', ''code'', ''base64Binary'', ''Coding'', ''CodeableConcept'', ''Attachment'',
        ''Identifier'', ''Quantity'', ''Range'', ''Period'', ''Ratio'', ''HumanName'', ''Address'',
        ''ContactPoint'', ''Timing'', ''Signature'', ''Reference'']"

definition profileBinding ::
  "(string \<Rightarrow> st \<Rightarrow> st option) \<Rightarrow> ElementDefinitionType \<Rightarrow> st \<Rightarrow> (string option \<times> st) option" where
  "profileBinding rf typeElement s =
     (case et_profile typeElement of
        None \<Rightarrow> Some (None, s)
      | Some profile \<Rightarrow>
          if profile = [] then Some (None, s)
          else
            (let (resourceName, s1) = getResourceNameFromProfile profile s
             in if truthy resourceName
                then
                  (if resourceName \<noteq> Some ''any''
                   then (case lookupFile s1 (fmt resourceName) of
                           None \<Rightarrow>
                             Some (resourceName,
                                   addError (''Unknown profile '' @ [CHR 0x27] @ fmt resourceName @ [CHR 0x27] @ ''.'') s1)
                         | Some resourceFile \<Rightarrow>
                             do {
                               s2 \<leftarrow> rf (fmt resourceName) s1;
                               Some (resourceName, s2)
                             })
                   else Some (resourceName, s1))
                else Some (None, s1)))"

text \<open>
  The loop of \<^verbatim>\<open>getTypeReferences\<close> is a \<^verbatim>\<open>for ... of\<close> over the array that the variable
  \<^verbatim>\<open>typeElements\<close> holds when the loop starts. At a wildcard the variable is assigned a
  new, longer array; the loop goes on over the array it started with. The first list
  below is what is left of that array, the second is the variable.
\<close>

fun typeReferencesLoop ::
  "(string \<Rightarrow> st \<Rightarrow> st option) \<Rightarrow> ElementDefinitionType list \<Rightarrow> ElementDefinitionType list
     \<Rightarrow> TypeExpr list \<Rightarrow> st \<Rightarrow> (TypeExpr list option \<times> st) option" where
  "typeReferencesLoop rf [] typeElements result s = Some (Some result, s)"
| "typeReferencesLoop rf (typeElement # rest) typeElements result s =
     (let typeName = et_code typeElement
      in if typeName = [] then Some (None, addError ''Missing type name.'' s)
         else if typeName = ''*''
         then typeReferencesLoop rf rest (typeElements @ openTypeElement) result s
         else
           do {
             (typeName1, s1) \<leftarrow>
               (if typeName = ''xhtml'' then Some (Some ''string'', s)
                else
                  do {
                    (file, s0) \<leftarrow> getFileForType rf typeName s;
                    Some (if file = None then None else Some typeName, s0)
                  });
             (case typeName1 of
                None \<Rightarrow> Some (None, s1)
              | Some tn \<Rightarrow>
                  do {
                    (binding, s2) \<leftarrow> profileBinding rf typeElement s1;
                    typeReferencesLoop rf rest typeElements (result @ [TypeReference (Some tn) binding]) s2
                  })
           })"

definition getTypeReferences ::
  "(string \<Rightarrow> st \<Rightarrow> st option) \<Rightarrow> ElementDefinitionType list option \<Rightarrow> st \<Rightarrow> (TypeExpr list option \<times> st) option" where
  "getTypeReferences rf tys s =
     (case tys of
        None \<Rightarrow> Some (None, s)
      | Some ts \<Rightarrow> typeReferencesLoop rf ts ts [] s)"

definition isExampleBinding :: "ElementDefinitionBinding \<Rightarrow> bool" where
  "isExampleBinding binding = (b_strength binding = Some ''example'')"

definition isApparentExampleValueSet :: "DomainResource \<Rightarrow> bool" where
  "isApparentExampleValueSet c = (contentCopyright c = Some ''This is an example set'')"

definition getBindingReference ::
  "(string \<Rightarrow> st \<Rightarrow> st option) \<Rightarrow> ElementDefinition \<Rightarrow> ElementDefinitionBinding \<Rightarrow> st \<Rightarrow> (string option \<times> st) option" where
  "getBindingReference rf element binding s =
     (if truthy (b_reference binding)
      then
        (case getValueSetFile s (fmt (b_reference binding)) of
           None \<Rightarrow>
             Some (None, addError (''Unknown binding reference '' @ [CHR 0x27] @ fmt (b_reference binding)
                                   @ [CHR 0x27] @ ''.'') s)
         | Some k \<Rightarrow>
             (case Option.bind (map_of (files s) k) (\<lambda>f. map_option (Pair f) (content f)) of
                None \<Rightarrow> None
              | Some (bindingTypeFile, c) \<Rightarrow>
                  if \<not> isApparentExampleValueSet c
                  then
                    (let s1 = (if \<not> truthy (symbol bindingTypeFile)
                               then updFile k (\<lambda>f. f\<lparr>symbol := Some (pascalCase (e_path element))\<rparr>) s
                               else s)
                     in do {
                          s2 \<leftarrow> rf k s1;
                          (case fileType s2 k of
                             None \<Rightarrow> None
                           | Some ta \<Rightarrow> Some (Option.bind (typeAt s2 ta) t_name, s2))
                        })
                  else Some (None, s)))
      else Some (None, s))"

definition setBinding :: "string option \<Rightarrow> TypeExpr \<Rightarrow> TypeExpr" where
  "setBinding b e = (case e of TypeReference n old \<Rightarrow> TypeReference n b | other \<Rightarrow> other)"

text \<open>
  \<^verbatim>\<open>getPropertyTypeForElement\<close> has two branches, each of which either returns \<^verbatim>\<open>null\<close> at
  once (the outer \<open>None\<close> below) or leaves an element type, which may be \<^verbatim>\<open>undefined\<close>,
  for the closing test on the cardinality.
\<close>

definition contentReferenceType ::
  "nat \<Rightarrow> (string \<Rightarrow> st \<Rightarrow> st option) \<Rightarrow> nat \<Rightarrow> string \<Rightarrow> st \<Rightarrow> (TypeExpr option option \<times> st) option" where
  "contentReferenceType fuel rf rootType contentReference s =
     (if hd contentReference \<noteq> CHR ''#''
      then Some (None, addError (''Expected content reference '' @ [CHR 0x27] @ contentReference @ [CHR 0x27]
                                 @ '' to start with #.'') s)
      else
        do {
          ((found, checked), s1) \<leftarrow>
            findTypeOfFirstProperty fuel rf rootType (getPropertyName contentReference) [] s;
          (resolved, s2) \<leftarrow> getReferencedType rf found None s1;
          (case resolved of
             None \<Rightarrow>
               Some (None, addError (''Could not resolve content reference '' @ [CHR 0x27] @ contentReference
                                     @ [CHR 0x27] @ ''.'') s2)
           | Some tv \<Rightarrow>
               (let s3 = (if valKind s2 tv \<noteq> Some KInterfaceType
                          then addError ''Expected content reference to resolve to an interface type.'' s2
                          else s2)
                in Some (Some (Some (createTypeReference (valName s3 tv))), s3)))
        })"

definition declaredType ::
  "(string \<Rightarrow> st \<Rightarrow> st option) \<Rightarrow> ElementDefinition \<Rightarrow> st \<Rightarrow> (TypeExpr option option \<times> st) option" where
  "declaredType rf element s =
     do {
       (typeReferences, s1) \<leftarrow> getTypeReferences rf (e_type element) s;
       (elementType, s2) \<leftarrow>
         Some (case typeReferences of
                 None \<Rightarrow> (None, addError (''Expected type for '' @ e_path element @ ''.'') s1)
               | Some [] \<Rightarrow> (None, addError (''Expected type for '' @ e_path element @ ''.'') s1)
               | Some [typeReference] \<Rightarrow>
                   if refName typeReference = Some ''Element''
                   then (let (r, s0) = createSubType element ''Element'' s1 in (Some r, s0))
                   else if refName typeReference = Some ''BackboneElement''
                   then (let (r, s0) = createSubType element ''BackboneElement'' s1 in (Some r, s0))
                   else (Some typeReference, s1)
               | Some trs \<Rightarrow> (Some (createUnionType trs), s1));
       (case e_binding element of
          None \<Rightarrow> Some (Some elementType, s2)
        | Some binding \<Rightarrow>
            if isExampleBinding binding then Some (Some elementType, s2)
            else
              do {
                (bindingReference, s3) \<leftarrow> getBindingReference rf element binding s2;
                if truthy bindingReference
                then (case elementType of
                        None \<Rightarrow> None
                      | Some et \<Rightarrow>
                          if exprKind et \<noteq> KTypeReference
                          then Some (Some elementType, addError ''Expected type reference'' s3)
                          else Some (Some (Some (setBinding bindingReference et)), s3))
                else Some (Some elementType, s3)
              })
     }"

definition getPropertyTypeForElement ::
  "nat \<Rightarrow> (string \<Rightarrow> st \<Rightarrow> st option) \<Rightarrow> nat \<Rightarrow> ElementDefinition \<Rightarrow> st \<Rightarrow> (TypeExpr option \<times> st) option" where
  "getPropertyTypeForElement fuel rf rootType element s =
     do {
       (r, s1) \<leftarrow>
         (if truthy (e_contentReference element)
          then contentReferenceType fuel rf rootType (fmt (e_contentReference element)) s
          else declaredType rf element s);
       (case r of
          None \<Rightarrow> Some (None, s1)
        | Some elementType \<Rightarrow>
            if e_max element \<noteq> Some ''1'' then Some (Some (createArrayType elementType), s1)
            else Some (elementType, s1))
     }"

definition combinePropertyNameWithType :: "string \<Rightarrow> string option \<Rightarrow> string" where
  "combinePropertyNameWithType propertyName typeName =
     str_replace propertyName ''[x]'' (pascalCase (case typeName of None \<Rightarrow> [] | Some tn \<Rightarrow> tn))"

text \<open>
  \<^verbatim>\<open>addProperty\<close> is declared in the body of \<^verbatim>\<open>processTypeDefinition\<close>, after the loop over
  the elements. To build the property and to push it, it reads \<^verbatim>\<open>element\<close> and
  \<^verbatim>\<open>containingType\<close>. Both are constants of the loop's block, which is not in scope where the
  function is declared, and no scope around it has these names: every call throws a
  \<^verbatim>\<open>ReferenceError\<close> when it builds the property. It would return the property, which the
  loop below would know by its index in the list of the containing type.
\<close>

definition addProperty :: "string \<Rightarrow> TypeExpr \<Rightarrow> bool option \<Rightarrow> st \<Rightarrow> (nat \<times> st) option" where
  "addProperty name propertyType optional s = None"

definition setPropertyType :: "nat \<Rightarrow> nat \<Rightarrow> (TypeExpr \<Rightarrow> TypeExpr) \<Rightarrow> st \<Rightarrow> st" where
  "setPropertyType containingType i f s =
     updType containingType
       (\<lambda>t. t\<lparr>t_properties := map_option (\<lambda>props. props[i := (props ! i)\<lparr>p_type := f (p_type (props ! i))\<rparr>])
                                 (t_properties t)\<rparr>) s"

text \<open>
  The loop over the type options of a polymorphic element (\<^verbatim>\<open>[x]\<close>), with its two
  variables \<^verbatim>\<open>lastProperty\<close> and \<^verbatim>\<open>lastTypeReferenceName\<close>.
\<close>

fun polymorphicLoop ::
  "nat \<Rightarrow> ElementDefinition \<Rightarrow> string \<Rightarrow> TypeExpr list \<Rightarrow> nat option \<Rightarrow> string option \<Rightarrow> st \<Rightarrow> st option" where
  "polymorphicLoop containingType element propertyName [] lastProperty lastTypeReferenceName s = Some s"
| "polymorphicLoop containingType element propertyName (typeReference # rest) lastProperty lastTypeReferenceName s =
     (if lastTypeReferenceName = refName typeReference
      then
        (case lastProperty of
           None \<Rightarrow> None
         | Some i \<Rightarrow>
             polymorphicLoop containingType element propertyName rest lastProperty lastTypeReferenceName
               (setPropertyType containingType i
                  (\<lambda>t. case t of
                         UnionType ts \<Rightarrow> UnionType (ts @ [typeReference])
                       | other \<Rightarrow> createUnionType [other, typeReference]) s))
      else
        do {
          (i, s1) \<leftarrow> addProperty (combinePropertyNameWithType propertyName (refName typeReference))
                       typeReference (Some True) s;
          polymorphicLoop containingType element propertyName rest (Some i) (refName typeReference) s1
        })"

text \<open>
  One round of the loop over the differential elements. The flag says whether the loop
  goes on (\<open>True\<close>) or \<^verbatim>\<open>processTypeDefinition\<close> returns at once. The message for a missing
  property name reads a variable \<^verbatim>\<open>i\<close> that is declared nowhere, so that branch throws.
\<close>

definition processElement ::
  "nat \<Rightarrow> (string \<Rightarrow> st \<Rightarrow> st option) \<Rightarrow> nat \<Rightarrow> ElementDefinition \<Rightarrow> st \<Rightarrow> (bool \<times> st) option" where
  "processElement fuel rf ty element s =
     (if str_indexOf (e_path element) ''.'' = None
      then Some (True, updType ty (\<lambda>t. t\<lparr>t_description := e_short element\<rparr>) s)
      else
        (case getPropertyName (e_path element) of
           None \<Rightarrow> None
         | Some propertyName \<Rightarrow>
             if propertyName = [] then None
             else
               do {
                 (containing, s1) \<leftarrow> getContainingTypeForElement fuel rf ty element s;
                 (case containing of
                    None \<Rightarrow>
                      Some (False, addError (''Error getting containing type for property '' @ [CHR 0x27]
                                             @ propertyName @ [CHR 0x27] @ '': '') s1)
                  | Some containingType \<Rightarrow>
                      if length propertyName > 3
                           \<and> str_indexOf propertyName ''[x]'' = Some (length propertyName - 3)
                      then
                        do {
                          (typeReferences, s2) \<leftarrow> getTypeReferences rf (e_type element) s1;
                          (case typeReferences of
                             None \<Rightarrow>
                               Some (False, addError (''No types specified for '' @ [CHR 0x27] @ propertyName
                                                      @ [CHR 0x27] @ ''.'') s2)
                           | Some trs \<Rightarrow>
                               do {
                                 s3 \<leftarrow> polymorphicLoop containingType element propertyName trs None (Some []) s2;
                                 Some (True, s3)
                               })
                        }
                      else if e_max element \<noteq> Some ''0''
                      then
                        do {
                          (propertyType, s2) \<leftarrow> getPropertyTypeForElement fuel rf ty element s1;
                          (case propertyType of
                             None \<Rightarrow>
                               Some (False, addError (''Error getting type for property '' @ [CHR 0x27] @ propertyName
                                                      @ [CHR 0x27] @ ''.'') s2)
                           | Some pt \<Rightarrow>
                               do {
                                 (i, s3) \<leftarrow> addProperty propertyName pt None s2;
                                 Some (True, s3)
                               })
                        }
                      else Some (True, s1))
               }))"

fun elementsLoop ::
  "nat \<Rightarrow> (string \<Rightarrow> st \<Rightarrow> st option) \<Rightarrow> nat \<Rightarrow> ElementDefinition list \<Rightarrow> st \<Rightarrow> (bool \<times> st) option" where
  "elementsLoop fuel rf ty [] s = Some (True, s)"
| "elementsLoop fuel rf ty (element # rest) s =
     do {
       (continue, s1) \<leftarrow> processElement fuel rf ty element s;
       if continue then elementsLoop fuel rf ty rest s1 else Some (False, s1)
     }"

definition unshiftProperty :: "nat \<Rightarrow> Property \<Rightarrow> st \<Rightarrow> st" where
  "unshiftProperty ty property s =
     updType ty (\<lambda>t. t\<lparr>t_properties := map_option (\<lambda>props. property # props) (t_properties t)\<rparr>) s"

definition backfill :: "nat \<Rightarrow> st \<Rightarrow> st" where
  "backfill ty s =
     (let s1 = (case typeAt s ty of
                  None \<Rightarrow> s
                | Some t \<Rightarrow>
                    if t_name t = Some ''Resource'' \<and> getProperty t ''resourceType'' = None
                    then unshiftProperty ty
                           \<lparr>p_name = ''resourceType'', p_description = Some ''The type of the resource.'',
                            p_type = createTypeReference (Some ''code''), p_optional = True\<rparr> s
                    else s)
      in case typeAt s1 ty of
           None \<Rightarrow> s1
         | Some t \<Rightarrow>
             if t_name t = Some ''Element'' \<and> getProperty t ''fhir_comments'' = None
             then unshiftProperty ty
                    \<lparr>p_name = ''fhir_comments'', p_description = Some ''Content that would be comments in an XML.'',
                     p_type = createArrayType (Some (createTypeReference (Some ''string''))), p_optional = True\<rparr> s1
             else s1)"

definition processTypeDefinition ::
  "nat \<Rightarrow> (string \<Rightarrow> st \<Rightarrow> st option) \<Rightarrow> string \<Rightarrow> SpecificationFile \<Rightarrow> StructureDefinition \<Rightarrow> st \<Rightarrow> st option" where
  "processTypeDefinition fuel rf k file d s =
     (if \<not> truthy (sd_id d) then Some s
      else
        (let (ty, s1) = newType (createInterfaceType (fmt (sd_id d))
                                   (if isResourceDefinition file then CatResource else CatDataType)) s;
             s2 = updFile k (\<lambda>f. f\<lparr>ftype := Some ty\<rparr>) s1
         in do {
              (continue, s5) \<leftarrow>
                (case sd_baseDefinition d of
                   None \<Rightarrow> Some (True, s2)
                 | Some baseDefinition \<Rightarrow>
                     (let (baseType, s3) = getResourceNameFromProfile baseDefinition s2;
                          s4 = updType ty (\<lambda>t. t\<lparr>t_baseType := baseType\<rparr>) s3
                      in if truthy baseType
                         then (case lookupFile s4 (fmt baseType) of
                                 None \<Rightarrow>
                                   Some (False, addError (''Unknown base type '' @ [CHR 0x27] @ fmt baseType
                                                          @ [CHR 0x27] @ ''.'') s4)
                               | Some baseTypeFile \<Rightarrow>
                                   do {
                                     s0 \<leftarrow> rf (fmt baseType) s4;
                                     Some (True, s0)
                                   })
                         else Some (True, s4)));
              if \<not> continue then Some s5
              else
                (case sd_differential d of
                   None \<Rightarrow> None
                 | Some elements \<Rightarrow>
                     do {
                       (completed, s6) \<leftarrow> elementsLoop fuel rf ty elements s5;
                       Some (if completed then backfill ty s6 else s6)
                     })
            }))"

definition processType ::
  "nat \<Rightarrow> (string \<Rightarrow> st \<Rightarrow> st option) \<Rightarrow> string \<Rightarrow> SpecificationFile \<Rightarrow> StructureDefinition \<Rightarrow> st \<Rightarrow> st option" where
  "processType fuel rf k file d s =
     (if isPrimitive d then processPrimitive k d s else processTypeDefinition fuel rf k file d s)"

definition processResource ::
  "nat \<Rightarrow> (string \<Rightarrow> st \<Rightarrow> st option) \<Rightarrow> string \<Rightarrow> SpecificationFile \<Rightarrow> StructureDefinition \<Rightarrow> st \<Rightarrow> st option" where
  "processResource fuel rf k file d s = processTypeDefinition fuel rf k file d s"

definition processStructureDefinition ::
  "nat \<Rightarrow> (string \<Rightarrow> st \<Rightarrow> st option) \<Rightarrow> string \<Rightarrow> SpecificationFile \<Rightarrow> StructureDefinition \<Rightarrow> st \<Rightarrow> st option" where
  "processStructureDefinition fuel rf k file d s =
     (if sd_kind d = Some ''resource'' then processResource fuel rf k file d s
      else if sd_kind d \<in> set (map Some [''constraint'', ''datatype'', ''type'', ''complex-type'', ''primitive-type''])
      then processType fuel rf k file d s
      else Some (addError (''Unknown content kind '' @ [CHR 0x27] @ fmt (sd_kind d) @ [CHR 0x27] @ ''.'') s))"

section \<open>The resolver driver\<close>

definition referenceFile_body :: "(string \<Rightarrow> st \<Rightarrow> st option) \<Rightarrow> string \<Rightarrow> st \<Rightarrow> st option" where
  "referenceFile_body pf k s =
     (case lookupFile s k of
        None \<Rightarrow> None
      | Some file \<Rightarrow>
          if \<not> isReferenced s k
          then
            do {
              s1 \<leftarrow> pf k (setReferenced k s);
              (case fileType s1 k of
                 None \<Rightarrow> Some s1
               | Some ty \<Rightarrow> Some (addTypeToResults ty s1))
            }
          else Some s)"

definition processFile_body ::
  "nat \<Rightarrow> (string \<Rightarrow> st \<Rightarrow> st option) \<Rightarrow> (string \<Rightarrow> st \<Rightarrow> st option) \<Rightarrow> string \<Rightarrow> st \<Rightarrow> st option" where
  "processFile_body fuel rf pf k s =
     (case lookupFile s k of
        None \<Rightarrow> None
      | Some Inherited \<Rightarrow> Some s
      | Some (Document file) \<Rightarrow>
          if processed file \<or> queued file \<or> content file = None then Some s
          else
            (let s1 = (updFile k (\<lambda>f. f\<lparr>queued := True\<rparr>) s)\<lparr>entered := entered s @ [k]\<rparr>;
                 oldFile = currentFile s1;
                 s2 = s1\<lparr>currentFile := Some (filename file)\<rparr>
             in do {
                  s3 \<leftarrow>
                    (case content file of
                       None \<Rightarrow> None
                     | Some (ValueSetR v) \<Rightarrow> processValueSet fuel pf k file v s2
                     | Some (StructureDefinitionR d) \<Rightarrow> processStructureDefinition fuel rf k file d s2
                     | Some (CodeSystemR c) \<Rightarrow> Some (processCodeSystem k file c s2)
                     | Some (OtherR rt) \<Rightarrow>
                         Some (addError (''Unknown resource type '' @ [CHR 0x27] @ rt @ [CHR 0x27] @ ''.'') s2));
                  Some ((updFile k (\<lambda>f. f\<lparr>processed := True\<rparr>) s3)\<lparr>currentFile := oldFile\<rparr>)
                }))"

text \<open>
  \<^verbatim>\<open>referenceFile\<close> and \<^verbatim>\<open>processFile\<close> call each other through the walker and the
  composer. \<open>visit\<close> is both of them on fuel: a call has one unit less than its caller,
  and a call with none left does not return.
\<close>

primrec visit :: "nat \<Rightarrow> bool \<Rightarrow> string \<Rightarrow> st \<Rightarrow> st option" where
  "visit 0 = (\<lambda>isReference k s. None)"
| "visit (Suc fuel) =
     (\<lambda>isReference k s.
        if isReference then referenceFile_body (visit fuel False) k s
        else processFile_body fuel (visit fuel True) (visit fuel False) k s)"

definition referenceFile :: "nat \<Rightarrow> string \<Rightarrow> st \<Rightarrow> st option" where
  "referenceFile fuel = visit fuel True"

definition processFile :: "nat \<Rightarrow> string \<Rightarrow> st \<Rightarrow> st option" where
  "processFile fuel = visit fuel False"

text \<open>
  The state at the start of a run, in a realm where the inherited values of \<open>realm\<close> carry
  the flag, and in one where none does.
\<close>

definition initialStateIn :: "string list \<Rightarrow> (string \<times> SpecificationFile) list \<Rightarrow> st" where
  "initialStateIn realm fs =
     \<lparr>files = fs, typesByName = [], types = [], errors = [], currentFile = None,
      theap = [], mheap = [], aheap = [], flagged = realm, entered = []\<rparr>"

definition initialState :: "(string \<times> SpecificationFile) list \<Rightarrow> st" where
  "initialState fs = initialStateIn [] fs"

text \<open>The seed sweep goes over the properties of the map's own: they are documents.\<close>

fun seedLoop :: "nat \<Rightarrow> string list \<Rightarrow> st \<Rightarrow> st option" where
  "seedLoop fuel [] s = Some s"
| "seedLoop fuel (k # rest) s =
     (case map_of (files s) k of
        None \<Rightarrow> None
      | Some file \<Rightarrow>
          if isResourceDefinition file
          then (if isConstrainedType file then seedLoop fuel rest s
                else
                  do {
                    s1 \<leftarrow> referenceFile fuel k s;
                    seedLoop fuel rest s1
                  })
          else seedLoop fuel rest s)"

text \<open>
  \<^verbatim>\<open>processFiles\<close> returns the final state: its fields \<open>types\<close> and \<open>errors\<close> are the
  result, the type list holding the addresses of the nodes; its field \<open>files\<close> is the
  document map as the run leaves it, since the visit flags, the symbol and the type of
  a document are fields of the caller's documents. The sweep asks the map for its method
  \<^verbatim>\<open>hasOwnProperty\<close> at every key: a map that has a document under this key throws at the
  first one.
\<close>

definition processFilesIn :: "string list \<Rightarrow> nat \<Rightarrow> (string \<times> SpecificationFile) list \<Rightarrow> st option" where
  "processFilesIn realm fuel fs =
     (if map_of fs ''hasOwnProperty'' \<noteq> None then None
      else seedLoop fuel (map fst fs) (initialStateIn realm fs))"

definition processFiles :: "nat \<Rightarrow> (string \<times> SpecificationFile) list \<Rightarrow> st option" where
  "processFiles fuel fs = processFilesIn [] fuel fs"

definition typeNodes :: "st \<Rightarrow> Type option list" where
  "typeNodes s = map (typeAt s) (types s)"
section \<open>Relating the states of a run\<close>

text \<open>
  The visit state of a document: unvisited, queued, processed.
\<close>

definition visitRank :: "SpecificationFile \<Rightarrow> nat" where
  "visitRank f = (if processed f then 2 else if queued f then 1 else 0)"

text \<open>
  \<open>fileLe f f'\<close>: \<open>f'\<close> is the document \<open>f\<close> later in a run. Its identifier, its filename
  and its content are the same and no visit flag has been taken back: the flag
  \<^verbatim>\<open>referenced\<close> is as it was or it is \<^verbatim>\<open>true\<close>.
\<close>

definition fileLe :: "SpecificationFile \<Rightarrow> SpecificationFile \<Rightarrow> bool" where
  "fileLe f f' =
     (fid f' = fid f \<and> filename f' = filename f \<and> content f' = content f
      \<and> (queued f \<longrightarrow> queued f') \<and> (processed f \<longrightarrow> processed f')
      \<and> (referenced f' = referenced f \<or> referenced f' = Some True))"

text \<open>
  \<open>registryOk s\<close>: every name of the index names a node of the store that has this name.
\<close>

definition registryOk :: "st \<Rightarrow> bool" where
  "registryOk s =
     (\<forall>nm a. map_of (typesByName s) nm = Some a \<longrightarrow> a < length (theap s) \<and> t_name (theap s ! a) = Some nm)"

text \<open>
  \<open>entryOk s\<close>: no key is twice in the list of the documents for which the body of
  \<^verbatim>\<open>processFile\<close> has been entered, and each of these documents is queued.
\<close>

definition entryOk :: "st \<Rightarrow> bool" where
  "entryOk s =
     (distinct (entered s) \<and> (\<forall>k\<in>set (entered s). \<exists>f. map_of (files s) k = Some f \<and> queued f))"

text \<open>
  \<open>ext s s'\<close>: \<open>s'\<close> is a state later in the run than \<open>s\<close>. The map has the same keys in
  the same order and every document is as \<open>fileLe\<close> says; a name of the index still
  names the same node, the index has no name twice if it had none, and it is as
  \<open>registryOk\<close> says if it was; the error list, the output list, the list of the flagged
  inherited values and the list of the entered documents have only grown at their ends,
  and the last is as \<open>entryOk\<close> says if it was; the store of type nodes has only
  grown, and no node has changed its kind, its category or its name.
\<close>

definition ext :: "st \<Rightarrow> st \<Rightarrow> bool" where
  "ext s s' =
     (map fst (files s') = map fst (files s)
      \<and> (\<forall>k f. map_of (files s) k = Some f \<longrightarrow> (\<exists>f'. map_of (files s') k = Some f' \<and> fileLe f f'))
      \<and> prefix (flagged s) (flagged s')
      \<and> prefix (entered s) (entered s')
      \<and> (entryOk s \<longrightarrow> entryOk s')
      \<and> (\<forall>nm a. map_of (typesByName s) nm = Some a \<longrightarrow> map_of (typesByName s') nm = Some a)
      \<and> (distinct (map fst (typesByName s)) \<longrightarrow> distinct (map fst (typesByName s')))
      \<and> (registryOk s \<longrightarrow> registryOk s')
      \<and> prefix (errors s) (errors s')
      \<and> prefix (types s) (types s')
      \<and> length (theap s) \<le> length (theap s')
      \<and> (\<forall>a < length (theap s).
            t_name (theap s' ! a) = t_name (theap s ! a)
            \<and> t_kind (theap s' ! a) = t_kind (theap s ! a)
            \<and> t_category (theap s' ! a) = t_category (theap s ! a)))"

text \<open>
  \<open>seedsDone ks s\<close>: every key of \<open>ks\<close> has a document, and the documents that the seed
  sweep passes to \<^verbatim>\<open>referenceFile\<close> are flagged as referenced.
\<close>

definition seedsDone :: "string list \<Rightarrow> st \<Rightarrow> bool" where
  "seedsDone ks s =
     list_all (\<lambda>k. case map_of (files s) k of
                     None \<Rightarrow> False
                   | Some f \<Rightarrow> isResourceDefinition f \<and> \<not> isConstrainedType f \<longrightarrow> isReferenced s k) ks"

section \<open>The numbering of member names\<close>

text \<open>
  A member's name set to a given one; an original name with a number appended; the names of
  the members of a list; and the first number, from 1 on, for which the numbered name is not
  among given names (among \<open>n\<close> names one of the first \<open>n + 1\<close> numbers is free).
\<close>

definition setName :: "nat \<Rightarrow> string option \<Rightarrow> st \<Rightarrow> st" where
  "setName a n s = updMember a (\<lambda>m. m\<lparr>m_name := n\<rparr>) s"

definition suffixed :: "string \<Rightarrow> nat \<Rightarrow> string" where
  "suffixed originalName k = originalName @ ''_'' @ digitsOf k"

definition listNames :: "st \<Rightarrow> nat \<Rightarrow> string option list" where
  "listNames s members = map (memberName s) (arrayAt s members)"

definition firstFree :: "string option list \<Rightarrow> string \<Rightarrow> nat" where
  "firstFree names originalName =
     (case find (\<lambda>k. Some (suffixed originalName k) \<notin> set names) [1 ..< length names + 2] of
        None \<Rightarrow> 0
      | Some k \<Rightarrow> k)"

section \<open>Example document maps\<close>

text \<open>A document as the loader makes it: keyed by its identifier, with no flag set.\<close>

definition document :: "string \<Rightarrow> string \<Rightarrow> DomainResource \<Rightarrow> string \<times> SpecificationFile" where
  "document k fname c =
     (k, \<lparr>fid = k, filename = fname, queued = False, processed = False, referenced = None,
          symbol = None, content = Some c, ftype = None\<rparr>)"

definition structureDefinition ::
  "string \<Rightarrow> string \<Rightarrow> string option \<Rightarrow> ElementDefinition list \<Rightarrow> DomainResource" where
  "structureDefinition i kind base elements =
     StructureDefinitionR
       \<lparr>sd_id = Some i, sd_name = None, sd_kind = Some kind, sd_derivation = None,
        sd_copyright = None, sd_baseDefinition = base, sd_differential = Some elements\<rparr>"

definition element :: "string \<Rightarrow> ElementDefinitionType list option \<Rightarrow> string option \<Rightarrow> ElementDefinition" where
  "element path tys mx =
     \<lparr>e_path = path, e_short = None, e_definition = None, e_min = None, e_max = mx, e_type = tys,
      e_contentReference = None, e_binding = None\<rparr>"

definition typeOption :: "string \<Rightarrow> ElementDefinitionType" where
  "typeOption c = \<lparr>et_code = c, et_profile = None\<rparr>"

definition codedConcept :: "string \<Rightarrow> string \<Rightarrow> Concept" where
  "codedConcept code display =
     \<lparr>c_code = code, c_display = Some display, c_definition = None, c_extension = None\<rparr>"

definition includeConcepts :: "string \<Rightarrow> Concept list \<Rightarrow> ValueSetComposeInclude" where
  "includeConcepts system concepts =
     \<lparr>inc_system = Some system, inc_concept = Some concepts, inc_filter = None, inc_valueSet = None\<rparr>"

text \<open>A resource whose base type has no document, followed by an unrelated resource.\<close>

definition missingBaseDocs :: "(string \<times> SpecificationFile) list" where
  "missingBaseDocs =
     [document ''A'' ''a.profile.json''
        (structureDefinition ''A'' ''resource'' (Some ''http://hl7.org/fhir/StructureDefinition/B'') []),
      document ''C'' ''c.profile.json''
        (structureDefinition ''C'' ''resource'' None [element ''C'' None None])]"

text \<open>A resource whose base type is named as a property that every object inherits.\<close>

definition inheritedBaseDocs :: "(string \<times> SpecificationFile) list" where
  "inheritedBaseDocs =
     [document ''A'' ''a.profile.json''
        (structureDefinition ''A'' ''resource'' (Some ''http://hl7.org/fhir/StructureDefinition/constructor'') [])]"

text \<open>Two resources, each the base type of the other.\<close>

definition cyclicDocs :: "(string \<times> SpecificationFile) list" where
  "cyclicDocs =
     [document ''A'' ''a.profile.json''
        (structureDefinition ''A'' ''resource'' (Some ''http://hl7.org/fhir/StructureDefinition/B'')
           [element ''A'' None None]),
      document ''B'' ''b.profile.json''
        (structureDefinition ''B'' ''resource'' (Some ''http://hl7.org/fhir/StructureDefinition/A'')
           [element ''B'' None None])]"

text \<open>Two resources, filed under two keys, that have the same identifier.\<close>

definition sameIdDocs :: "(string \<times> SpecificationFile) list" where
  "sameIdDocs =
     [document ''Patient'' ''patient.profile.json''
        (structureDefinition ''Patient'' ''resource'' None [element ''Patient'' None None]),
      document ''Patient2'' ''patient2.profile.json''
        (structureDefinition ''Patient'' ''resource'' None [element ''Patient'' None None])]"

text \<open>\<^verbatim>\<open>Observation.value[x]\<close> with the given type options, and the types they name.\<close>

definition polymorphicDocs :: "string \<Rightarrow> ElementDefinitionType list \<Rightarrow> (string \<times> SpecificationFile) list" where
  "polymorphicDocs path options =
     [document ''Observation'' ''observation.profile.json''
        (structureDefinition ''Observation'' ''resource'' None
           [element ''Observation'' None None, element path (Some options) (Some ''1'')]),
      document ''Quantity'' ''quantity.profile.json''
        (structureDefinition ''Quantity'' ''complex-type'' None [element ''Quantity'' None None]),
      document ''string'' ''string.profile.json''
        (structureDefinition ''string'' ''primitive-type'' None
           [(element ''string'' None None)\<lparr>e_short := Some ''Primitive Type string''\<rparr>])]"

text \<open>A value set of two includes, each with one concept of code \<^verbatim>\<open>active\<close>.\<close>

definition statusValueSet :: "string \<Rightarrow> string \<Rightarrow> (string \<times> SpecificationFile) list" where
  "statusValueSet display1 display2 =
     [document ''http://example.org/ValueSet/status'' ''valueset-status.json''
        (ValueSetR
           \<lparr>vs_name = Some ''Status'', vs_description = None, vs_copyright = None,
            vs_include = Some [includeConcepts ''http://example.org/A'' [codedConcept ''active'' display1],
                               includeConcepts ''http://example.org/B'' [codedConcept ''active'' display2]]\<rparr>)]"

text \<open>A value set filed under an address that has the segment \<^verbatim>\<open>vs\<close> before its name.\<close>

definition filedUnderVs :: "(string \<times> SpecificationFile) list" where
  "filedUnderVs =
     [document ''http://hl7.org/fhir/ValueSet/vs/status'' ''valueset-status.json''
        (ValueSetR \<lparr>vs_name = Some ''Status'', vs_description = None, vs_copyright = None,
                    vs_include = None\<rparr>)]"

text \<open>
  A member named after its display, and a state with two such members of one name and code
  from different systems, the first of them in the only list.
\<close>

definition enumMember :: "string \<Rightarrow> string \<Rightarrow> string \<Rightarrow> EnumMember" where
  "enumMember name code system =
     \<lparr>m_name = Some name, m_description = None, m_value = code, m_display = Some name,
      m_system = Some system, m_caseSensitive = None\<rparr>"

definition collisionState :: st where
  "collisionState =
     (initialState [])\<lparr>mheap := [enumMember ''Active'' ''active'' ''http://example.org/A'',
                                  enumMember ''Active'' ''active'' ''http://example.org/B''],
                        aheap := [[0]]\<rparr>"

text \<open>The names of the members of a document's enumeration, in their order.\<close>

definition memberNames :: "st \<Rightarrow> string \<Rightarrow> string option list" where
  "memberNames s k =
     (case Option.bind (Option.bind (fileType s k) (typeAt s)) t_members of
        None \<Rightarrow> []
      | Some ma \<Rightarrow> map (memberName s) (arrayAt s ma))"

text \<open>
  The result of a run, and a second run on the map that the first run was given: the
  second run finds the documents, and the inherited values, as the first has left them.
\<close>

definition results :: "st \<Rightarrow> Type option list \<times> string list" where
  "results s = (typeNodes s, errors s)"

definition secondRun :: "nat \<Rightarrow> (string \<times> SpecificationFile) list \<Rightarrow> st option" where
  "secondRun fuel fs =
     Option.bind (processFiles fuel fs) (\<lambda>s. processFilesIn (flagged s) fuel (files s))"

text \<open>States of the example runs.\<close>

definition missingBaseRun :: st where
  "missingBaseRun = the (processFiles 5 missingBaseDocs)"

definition cyclicProcessed :: st where
  "cyclicProcessed = the (processFile 5 ''A'' (initialState cyclicDocs))"

definition cyclicReferenced :: st where
  "cyclicReferenced = the (referenceFile 5 ''A'' cyclicProcessed)"

definition sameIdBefore :: st where
  "sameIdBefore = the (seedLoop 5 [''Patient''] (initialState sameIdDocs))"

definition sameIdProcessed :: st where
  "sameIdProcessed = the (processFile 4 ''Patient2'' (setReferenced ''Patient2'' sameIdBefore))"

definition sameIdRun :: st where
  "sameIdRun = the (processFiles 5 sameIdDocs)"

text \<open>
  The state in which the node of \<^verbatim>\<open>Observation\<close> has been created and its elements are about
  to be read.
\<close>

definition observationState :: st where
  "observationState =
     snd (newType (createInterfaceType ''Observation'' CatResource)
            (initialState (polymorphicDocs ''Observation.value[x]'' [typeOption ''*''])))"

section \<open>What every step of a run preserves\<close>

lemma fileLe_refl [simp]: "fileLe f f" by (simp add: fileLe_def)
lemma fileLe_trans: "fileLe f g \<Longrightarrow> fileLe g h \<Longrightarrow> fileLe f h" by (auto simp: fileLe_def)

lemma ext_refl [simp, intro!]: "ext s s" by (simp add: ext_def)

lemma ext_trans:
  assumes "ext s t" "ext t u"
  shows "ext s u"
proof -
  have node: "\<forall>a < length (theap s).
            t_name (theap u ! a) = t_name (theap s ! a)
            \<and> t_kind (theap u ! a) = t_kind (theap s ! a)
            \<and> t_category (theap u ! a) = t_category (theap s ! a)"
    using assms unfolding ext_def by (metis (no_types, lifting) less_le_trans)
  have doc: "\<forall>k f. map_of (files s) k = Some f \<longrightarrow> (\<exists>f'. map_of (files u) k = Some f' \<and> fileLe f f')"
    using assms unfolding ext_def by (meson fileLe_trans)
  have pre: "prefix (flagged s) (flagged u)" "prefix (entered s) (entered u)"
            "prefix (errors s) (errors u)" "prefix (types s) (types u)"
    using assms unfolding ext_def by (meson prefix_order.order_trans)+
  show ?thesis
    using assms node doc pre unfolding ext_def by auto
qed

lemma map_fst_map_entry [simp]: "map fst (AList.map_entry k f al) = map fst al"
  by (induction al) auto

lemma files_updFile:
  "map_of (files (updFile k g s)) k' = (if k' = k then map_option g (map_of (files s) k) else map_of (files s) k')"
  by (auto simp: updFile_def map_of_map_entry split: option.splits)

lemma entryOk_updFile:
  "(\<And>f. queued f \<longrightarrow> queued (g f)) \<Longrightarrow> entryOk s \<Longrightarrow> entryOk (updFile k g s)"
  unfolding entryOk_def by (auto simp: files_updFile) (auto simp: updFile_def)

lemma ext_updFile: "(\<And>f. fileLe f (g f)) \<Longrightarrow> ext s (updFile k g s)"
  unfolding ext_def
  by (intro conjI)
     (auto simp: files_updFile registryOk_def fileLe_def intro!: entryOk_updFile, auto simp: updFile_def)

lemma ext_same_files:
  "files s' = files s \<Longrightarrow> typesByName s' = typesByName s \<Longrightarrow> theap s' = theap s
   \<Longrightarrow> entered s' = entered s \<Longrightarrow> prefix (flagged s) (flagged s')
   \<Longrightarrow> prefix (errors s) (errors s') \<Longrightarrow> prefix (types s) (types s') \<Longrightarrow> ext s s'"
  by (simp add: ext_def registryOk_def entryOk_def)

lemma ext_heap_only:
  "files s' = files s \<Longrightarrow> typesByName s' = typesByName s \<Longrightarrow> theap s' = theap s
   \<Longrightarrow> entered s' = entered s \<Longrightarrow> flagged s' = flagged s
   \<Longrightarrow> prefix (errors s) (errors s') \<Longrightarrow> prefix (types s) (types s') \<Longrightarrow> ext s s'"
  by (simp add: ext_same_files)

lemma ext_addError_step: "ext s (addError msg s)"
  by (rule ext_heap_only) (simp_all add: addError_def Let_def)

lemma ext_newType_step: "ext s (snd (newType t s))"
  by (auto simp: ext_def newType_def nth_append registryOk_def less_Suc_eq entryOk_def)

lemma ext_updType_step:
  "(\<And>t. t_name (g t) = t_name t \<and> t_kind (g t) = t_kind t \<and> t_category (g t) = t_category t)
   \<Longrightarrow> ext s (updType a g s)"
  by (auto simp: ext_def updType_def nth_list_update registryOk_def entryOk_def)

lemma ext_enter:
  assumes "map_of (files s) k = Some f" "\<not> queued f"
  shows "ext s ((updFile k (\<lambda>f. f\<lparr>queued := True\<rparr>) s)\<lparr>entered := entered s @ [k]\<rparr>)"
proof -
  let ?s1 = "(updFile k (\<lambda>f. f\<lparr>queued := True\<rparr>) s)\<lparr>entered := entered s @ [k]\<rparr>"
  have e: "ext s (updFile k (\<lambda>f. f\<lparr>queued := True\<rparr>) s)"
    by (rule ext_updFile) (simp add: fileLe_def)
  have ok: "entryOk s \<longrightarrow> entryOk ?s1"
  proof
    assume a: "entryOk s"
    then have "k \<notin> set (entered s)"
      using assms by (auto simp: entryOk_def)
    moreover have "map_of (files ?s1) k = Some (f\<lparr>queued := True\<rparr>)"
      using assms(1) files_updFile[of k _ s k] by (simp add: updFile_def)
    moreover have "\<forall>k'\<in>set (entered s). \<exists>f'. map_of (files ?s1) k' = Some f' \<and> queued f'"
    proof
      fix k' assume "k' \<in> set (entered s)"
      then obtain f0 where "map_of (files s) k' = Some f0" "queued f0"
        using a by (auto simp: entryOk_def)
      then show "\<exists>f'. map_of (files ?s1) k' = Some f' \<and> queued f'"
        using files_updFile[of k "\<lambda>f. f\<lparr>queued := True\<rparr>" s k'] by (auto simp: updFile_def)
    qed
    ultimately show "entryOk ?s1"
      using a by (auto simp: entryOk_def)
  qed
  show ?thesis
    using e ok unfolding ext_def by (simp add: updFile_def registryOk_def)
qed

named_theorems ext_intros
named_theorems ext_elims

lemma extI_addError [ext_intros]: "ext s0 s \<Longrightarrow> ext s0 (addError msg s)"
  by (erule ext_trans) (rule ext_addError_step)
lemma extI_updFile_referenced [ext_intros]:
  "ext s0 s \<Longrightarrow> ext s0 (updFile k (\<lambda>f. f\<lparr>referenced := Some True\<rparr>) s)"
  by (erule ext_trans) (rule ext_updFile, simp add: fileLe_def)
lemma extI_flagged [ext_intros]: "ext s0 s \<Longrightarrow> ext s0 (s\<lparr>flagged := flagged s @ ks\<rparr>)"
  by (erule ext_trans) (rule ext_same_files; simp)
lemma extI_setReferenced [ext_intros]: "ext s0 s \<Longrightarrow> ext s0 (setReferenced k s)"
  by (auto simp: setReferenced_def split: option.splits intro!: extI_updFile_referenced extI_flagged)
lemma extI_updFile_queued [ext_intros]: "ext s0 s \<Longrightarrow> ext s0 (updFile k (\<lambda>f. f\<lparr>queued := True\<rparr>) s)"
  by (erule ext_trans) (rule ext_updFile, simp add: fileLe_def)
lemma extI_updFile_processed [ext_intros]: "ext s0 s \<Longrightarrow> ext s0 (updFile k (\<lambda>f. f\<lparr>processed := True\<rparr>) s)"
  by (erule ext_trans) (rule ext_updFile, simp add: fileLe_def)
lemma extI_updFile_ftype [ext_intros]: "ext s0 s \<Longrightarrow> ext s0 (updFile k (\<lambda>f. f\<lparr>ftype := x\<rparr>) s)"
  by (erule ext_trans) (rule ext_updFile, simp add: fileLe_def)
lemma extI_updFile_symbol [ext_intros]: "ext s0 s \<Longrightarrow> ext s0 (updFile k (\<lambda>f. f\<lparr>symbol := x\<rparr>) s)"
  by (erule ext_trans) (rule ext_updFile, simp add: fileLe_def)
lemma extI_currentFile [ext_intros]: "ext s0 s \<Longrightarrow> ext s0 (s\<lparr>currentFile := x\<rparr>)"
  by (erule ext_trans) (rule ext_heap_only; simp)
lemma extI_updMember [ext_intros]: "ext s0 s \<Longrightarrow> ext s0 (updMember a g s)"
  by (erule ext_trans) (rule ext_heap_only; simp add: updMember_def)
lemma extI_pushArray [ext_intros]: "ext s0 s \<Longrightarrow> ext s0 (pushArray a x s)"
  by (erule ext_trans) (rule ext_heap_only; simp add: pushArray_def)
lemma extI_newArray [ext_elims]: "newArray xs s = (a, s') \<Longrightarrow> ext s0 s \<Longrightarrow> ext s0 s'"
  by (erule ext_trans) (rule ext_heap_only; auto simp add: newArray_def)
lemma extI_newMember [ext_elims]: "newMember m s = (a, s') \<Longrightarrow> ext s0 s \<Longrightarrow> ext s0 s'"
  by (erule ext_trans) (rule ext_heap_only; auto simp add: newMember_def)
lemma extI_newType [ext_elims]: "newType t s = (a, s') \<Longrightarrow> ext s0 s \<Longrightarrow> ext s0 s'"
  using ext_newType_step[of s t] by (auto elim: ext_trans)
lemma extI_updType_description [ext_intros]: "ext s0 s \<Longrightarrow> ext s0 (updType a (\<lambda>t. t\<lparr>t_description := x\<rparr>) s)"
  by (erule ext_trans) (rule ext_updType_step, simp)
lemma extI_updType_baseType [ext_intros]: "ext s0 s \<Longrightarrow> ext s0 (updType a (\<lambda>t. t\<lparr>t_baseType := x\<rparr>) s)"
  by (erule ext_trans) (rule ext_updType_step, simp)
lemma extI_updType_properties [ext_intros]: "ext s0 s \<Longrightarrow> ext s0 (updType a (\<lambda>t. t\<lparr>t_properties := x t\<rparr>) s)"
  by (erule ext_trans) (rule ext_updType_step, simp)

lemma map_of_append_new: "map_of xs k = None \<Longrightarrow> map_of (xs @ [(k, v)]) k' = (if k' = k then Some v else map_of xs k')"
  by (induction xs) auto

lemma lookupType_None: "lookupType s nm = None \<Longrightarrow> map_of (typesByName s) nm = None"
  by (auto simp: lookupType_def split: option.splits if_splits)

lemma ext_addTypeToResults_step: "ext s (addTypeToResults a s)"
  by (auto simp: addTypeToResults_def Let_def ext_def addError_def map_of_append_new
        registryOk_def typeAt_def entryOk_def
      split: option.splits if_splits bind_splits dest!: lookupType_None)

lemma extI_addTypeToResults [ext_intros]: "ext s0 s \<Longrightarrow> ext s0 (addTypeToResults a s)"
  by (erule ext_trans) (rule ext_addTypeToResults_step)

lemma getEnumMemberName_ext [ext_elims]: "getEnumMemberName sys c s = (r, s') \<Longrightarrow> ext s0 s \<Longrightarrow> ext s0 s'"
  by (auto simp: getEnumMemberName_def Let_def split: if_splits intro!: ext_intros)

lemma processConceptsLoop_ext [ext_intros]: "ext s0 s \<Longrightarrow> ext s0 (processConceptsLoop cs b sys arr s)"
proof (induction cs arbitrary: s)
  case Nil then show ?case by simp
next
  case (Cons c cs)
  from Cons.prems show ?case
    by (auto simp: Let_def split: prod.splits intro!: Cons.IH ext_intros elim!: ext_elims)
qed

lemma processConcepts_ext [ext_elims]: "processConcepts cs b sys s = (r, s') \<Longrightarrow> ext s0 s \<Longrightarrow> ext s0 s'"
  by (auto simp: processConcepts_def Let_def split: prod.splits option.splits intro!: ext_intros elim!: ext_elims)

lemma processCodeSystem_ext [ext_intros]: "ext s0 s \<Longrightarrow> ext s0 (processCodeSystem k f c s)"
  by (auto simp: processCodeSystem_def Let_def split: prod.splits option.splits intro!: ext_intros elim!: ext_elims)

lemma suffixLoop_ext [ext_elims]: "suffixLoop fuel orig num a arr s = Some (r, s') \<Longrightarrow> ext s0 s \<Longrightarrow> ext s0 s'"
proof (induction fuel arbitrary: num s)
  case 0 then show ?case by simp
next
  case (Suc fuel)
  from Suc.prems show ?case
    by (auto simp: Let_def split: if_splits intro!: ext_intros elim!: Suc.IH ext_elims)
qed

lemma adjustMemberName_ext [ext_elims]: "adjustMemberName fuel a arr s = Some (r, s') \<Longrightarrow> ext s0 s \<Longrightarrow> ext s0 s'"
  by (auto simp: adjustMemberName_def Let_def split: if_splits option.splits intro!: ext_intros elim!: ext_elims)

lemma combineLoop_ext [ext_elims]: "combineLoop fuel arr ms s = Some s' \<Longrightarrow> ext s0 s \<Longrightarrow> ext s0 s'"
proof (induction ms arbitrary: s)
  case Nil then show ?case by simp
next
  case (Cons m ms)
  from Cons.prems show ?case
    by (auto simp: Let_def split: if_splits bind_splits intro!: ext_intros elim!: Cons.IH ext_elims)
qed

lemma combine_ext [ext_elims]: "combine fuel arr ms s = Some s' \<Longrightarrow> ext s0 s \<Longrightarrow> ext s0 s'"
  by (auto simp: combine_def split: option.splits intro!: ext_intros elim!: ext_elims)

lemma substituteCodes_ext [ext_elims]:
  assumes "substituteCodesFromOriginalSystem pf url ms s = Some (r, s')"
    and cb: "\<And>k s s'. pf k s = Some s' \<Longrightarrow> ext s0 s \<Longrightarrow> ext s0 s'"
    and "ext s0 s"
  shows "ext s0 s'"
  using assms(1,3)
  by (auto simp: substituteCodesFromOriginalSystem_def Let_def
           split: option.splits if_splits bind_splits prod.splits
           intro!: ext_intros elim!: cb ext_elims)

lemma filterPushLoop_ext [ext_elims]:
  "filterPushLoop code members ms s = Some s' \<Longrightarrow> ext s0 s \<Longrightarrow> ext s0 s'"
proof (induction ms arbitrary: s members)
  case Nil then show ?case by simp
next
  case (Cons m ms)
  from Cons.prems show ?case
    by (auto split: if_splits option.splits intro!: ext_intros elim!: Cons.IH ext_elims)
qed

lemma processFilter_ext [ext_elims]:
  assumes "processFilter pf url flt members s = Some s'"
    and cb: "\<And>k s s'. pf k s = Some s' \<Longrightarrow> ext s0 s \<Longrightarrow> ext s0 s'"
    and "ext s0 s"
  shows "ext s0 s'"
  using assms(1,3)
  by (auto simp: processFilter_def split: option.splits if_splits bind_splits
           intro!: ext_intros elim!: cb ext_elims)

lemma filtersLoop_ext [ext_elims]:
  assumes "filtersLoop pf url flts members s = Some s'"
    and cb: "\<And>k s s'. pf k s = Some s' \<Longrightarrow> ext s0 s \<Longrightarrow> ext s0 s'"
    and "ext s0 s"
  shows "ext s0 s'"
  using assms(1,3)
proof (induction flts arbitrary: s)
  case Nil then show ?case by simp
next
  case (Cons f flts)
  from Cons.prems show ?case
    by (auto split: bind_splits intro!: ext_intros elim!: Cons.IH cb ext_elims)
qed

lemma processImport_ext [ext_elims]:
  assumes "processImport pf url s = Some (r, s')"
    and cb: "\<And>k s s'. pf k s = Some s' \<Longrightarrow> ext s0 s \<Longrightarrow> ext s0 s'"
    and "ext s0 s"
  shows "ext s0 s'"
  using assms(1,3)
  by (auto simp: processImport_def Let_def split: option.splits if_splits bind_splits prod.splits
           intro!: ext_intros elim!: cb ext_elims)

lemma importsLoop_ext [ext_elims]:
  assumes "importsLoop fuel pf arr urls s = Some s'"
    and cb: "\<And>k s s'. pf k s = Some s' \<Longrightarrow> ext s0 s \<Longrightarrow> ext s0 s'"
    and "ext s0 s"
  shows "ext s0 s'"
  using assms(1,3)
proof (induction urls arbitrary: s)
  case Nil then show ?case by simp
next
  case (Cons u urls)
  from Cons.prems show ?case
    by (auto split: bind_splits intro!: ext_intros elim!: Cons.IH cb ext_elims)
qed

lemma processInclude_ext [ext_elims]:
  assumes "processInclude fuel pf arr inc s = Some (r, s')"
    and cb: "\<And>k s s'. pf k s = Some s' \<Longrightarrow> ext s0 s \<Longrightarrow> ext s0 s'"
    and "ext s0 s"
  shows "ext s0 s'"
  using assms(1,3)
  by (auto simp: processInclude_def processValueSetComposeInclude_def Let_def
           split: option.splits if_splits bind_splits prod.splits
           intro!: ext_intros elim!: cb ext_elims)

lemma includesLoop_ext [ext_elims]:
  assumes "includesLoop fuel pf arr incs s = Some s'"
    and cb: "\<And>k s s'. pf k s = Some s' \<Longrightarrow> ext s0 s \<Longrightarrow> ext s0 s'"
    and "ext s0 s"
  shows "ext s0 s'"
  using assms(1,3)
proof (induction incs arbitrary: s)
  case Nil then show ?case by simp
next
  case (Cons i incs)
  from Cons.prems show ?case
    by (auto split: bind_splits intro!: ext_intros elim!: Cons.IH cb ext_elims)
qed

lemma processValueSet_ext [ext_elims]:
  assumes "processValueSet fuel pf k file v s = Some s'"
    and cb: "\<And>k s s'. pf k s = Some s' \<Longrightarrow> ext s0 s \<Longrightarrow> ext s0 s'"
    and "ext s0 s"
  shows "ext s0 s'"
  using assms(1,3)
  by (auto simp: processValueSet_def Let_def split: option.splits prod.splits
           intro!: ext_intros elim!: cb ext_elims)

lemma processPrimitive_ext [ext_elims]:
  "processPrimitive k d s = Some s' \<Longrightarrow> ext s0 s \<Longrightarrow> ext s0 s'"
  by (simp add: processPrimitive_def)

lemma getResourceNameFromProfile_ext [ext_elims]:
  "getResourceNameFromProfile p s = (r, s') \<Longrightarrow> ext s0 s \<Longrightarrow> ext s0 s'"
  by (auto simp: getResourceNameFromProfile_def Let_def split: if_splits intro!: ext_intros)

lemma getTypeByName_ext [ext_elims]:
  assumes "getTypeByName rf name s = Some (r, s')"
    and cb: "\<And>k s s'. rf k s = Some s' \<Longrightarrow> ext s0 s \<Longrightarrow> ext s0 s'"
    and "ext s0 s"
  shows "ext s0 s'"
  using assms(1,3)
  by (auto simp: getTypeByName_def split: option.splits if_splits bind_splits
           intro!: ext_intros elim!: cb ext_elims)

lemma hasBaseInterface_ext [ext_elims]:
  assumes "hasBaseInterface fuel rf bt name s = Some (r, s')"
    and cb: "\<And>k s s'. rf k s = Some s' \<Longrightarrow> ext s0 s \<Longrightarrow> ext s0 s'"
    and "ext s0 s"
  shows "ext s0 s'"
  using assms(1,3)
proof (induction fuel arbitrary: bt s)
  case 0 then show ?case by simp
next
  case (Suc fuel)
  from Suc.prems show ?case
    by (auto split: option.splits if_splits bind_splits TypeVal.splits
             intro!: ext_intros elim!: Suc.IH cb ext_elims)
qed

lemma getReferencedType_ext [ext_elims]:
  assumes "getReferencedType rf ct cat s = Some (r, s')"
    and cb: "\<And>k s s'. rf k s = Some s' \<Longrightarrow> ext s0 s \<Longrightarrow> ext s0 s'"
    and "ext s0 s"
  shows "ext s0 s'"
  using assms(1,3)
  by (auto simp: getReferencedType_def split: option.splits if_splits bind_splits TypeExpr.splits TypeVal.splits
           intro!: ext_intros elim!: cb ext_elims)

lemma getContainingTypeForPath_ext [ext_elims]:
  assumes "getContainingTypeForPath rf pt path s = Some (r, s')"
    and cb: "\<And>k s s'. rf k s = Some s' \<Longrightarrow> ext s0 s \<Longrightarrow> ext s0 s'"
    and "ext s0 s"
  shows "ext s0 s'"
  using assms(1,3)
proof (induction path arbitrary: pt s)
  case Nil
  then show ?case by (auto split: option.splits intro!: ext_intros)
next
  case outer: (Cons propertyName rest)
  show ?case
  proof (cases rest)
    case Nil
    with outer.prems show ?thesis by simp
  next
    case inner: (Cons next_part rest')
    from outer.prems show ?thesis unfolding inner
      by (auto split: option.splits if_splits bind_splits TypeVal.splits
               intro!: ext_intros elim!: outer.IH[unfolded inner] cb ext_elims)
  qed
qed

lemma getContainingTypeForElement_ext [ext_elims]:
  assumes "getContainingTypeForElement fuel rf ty el s = Some (r, s')"
    and cb: "\<And>k s s'. rf k s = Some s' \<Longrightarrow> ext s0 s \<Longrightarrow> ext s0 s'"
    and "ext s0 s"
  shows "ext s0 s'"
  using assms(1,3)
  by (auto simp: getContainingTypeForElement_def Let_def split: option.splits if_splits bind_splits
           intro!: ext_intros elim!: cb ext_elims)

lemma findType_ext:
  assumes cb: "\<And>k s s'. rf k s = Some s' \<Longrightarrow> ext s0 s \<Longrightarrow> ext s0 s'"
  shows "(findTypeOfFirstProperty fuel rf ty name checked s = Some (r, s') \<longrightarrow> ext s0 s \<longrightarrow> ext s0 s')
       \<and> (findTypeLoop fuel rf ty name i checked s = Some (r, s') \<longrightarrow> ext s0 s \<longrightarrow> ext s0 s')"
proof (induction fuel arbitrary: ty i checked s r s')
  case 0
  show ?case by simp
next
  case (Suc fuel)
  have ih1: "\<And>ty checked s r s'. findTypeOfFirstProperty fuel rf ty name checked s = Some (r, s') \<Longrightarrow> ext s0 s \<Longrightarrow> ext s0 s'"
    using Suc.IH by blast
  have ih2: "\<And>ty i checked s r s'. findTypeLoop fuel rf ty name i checked s = Some (r, s') \<Longrightarrow> ext s0 s \<Longrightarrow> ext s0 s'"
    using Suc.IH by blast
  have a: "findTypeOfFirstProperty (Suc fuel) rf ty name checked s = Some (r, s') \<longrightarrow> ext s0 s \<longrightarrow> ext s0 s'"
    by (auto split: option.splits if_splits elim!: ih2)
  have b: "findTypeLoop (Suc fuel) rf ty name i checked s = Some (r, s') \<longrightarrow> ext s0 s \<longrightarrow> ext s0 s'"
    by (auto simp: Let_def split: option.splits if_splits bind_splits TypeVal.splits
             intro!: ext_intros elim!: ih1 ih2 cb ext_elims)
  from a b show ?case by blast
qed

lemma findTypeOfFirstProperty_ext [ext_elims]:
  assumes "findTypeOfFirstProperty fuel rf ty name checked s = Some (r, s')"
    and cb: "\<And>k s s'. rf k s = Some s' \<Longrightarrow> ext s0 s \<Longrightarrow> ext s0 s'"
    and "ext s0 s"
  shows "ext s0 s'"
proof -
  have "(findTypeOfFirstProperty fuel rf ty name checked s = Some (r, s') \<longrightarrow> ext s0 s \<longrightarrow> ext s0 s')
       \<and> (findTypeLoop fuel rf ty name 0 checked s = Some (r, s') \<longrightarrow> ext s0 s \<longrightarrow> ext s0 s')"
    by (rule findType_ext) (erule (1) cb)
  with assms(1,3) show ?thesis by blast
qed

lemma createSubType_ext [ext_elims]:
  "createSubType el bt s = (r, s') \<Longrightarrow> ext s0 s \<Longrightarrow> ext s0 s'"
  by (auto simp: createSubType_def Let_def split: prod.splits intro!: ext_intros elim!: ext_elims)

lemma getFileForType_ext [ext_elims]:
  assumes "getFileForType rf name s = Some (r, s')"
    and cb: "\<And>k s s'. rf k s = Some s' \<Longrightarrow> ext s0 s \<Longrightarrow> ext s0 s'"
    and "ext s0 s"
  shows "ext s0 s'"
  using assms(1,3)
  by (auto simp: getFileForType_def split: option.splits bind_splits intro!: ext_intros elim!: cb ext_elims)

lemma profileBinding_ext [ext_elims]:
  assumes "profileBinding rf te s = Some (r, s')"
    and cb: "\<And>k s s'. rf k s = Some s' \<Longrightarrow> ext s0 s \<Longrightarrow> ext s0 s'"
    and "ext s0 s"
  shows "ext s0 s'"
  using assms(1,3)
  by (auto simp: profileBinding_def Let_def split: option.splits if_splits bind_splits prod.splits
           intro!: ext_intros elim!: cb ext_elims)

lemma typeReferencesLoop_ext [ext_elims]:
  assumes "typeReferencesLoop rf ts tes acc s = Some (r, s')"
    and cb: "\<And>k s s'. rf k s = Some s' \<Longrightarrow> ext s0 s \<Longrightarrow> ext s0 s'"
    and "ext s0 s"
  shows "ext s0 s'"
  using assms(1,3)
proof (induction ts arbitrary: tes acc s)
  case Nil then show ?case by simp
next
  case (Cons t ts)
  from Cons.prems show ?case
    by (auto simp: Let_def split: option.splits if_splits bind_splits
             intro!: ext_intros elim!: Cons.IH cb ext_elims)
qed

lemma getTypeReferences_ext [ext_elims]:
  assumes "getTypeReferences rf tys s = Some (r, s')"
    and cb: "\<And>k s s'. rf k s = Some s' \<Longrightarrow> ext s0 s \<Longrightarrow> ext s0 s'"
    and "ext s0 s"
  shows "ext s0 s'"
  using assms(1,3)
  by (auto simp: getTypeReferences_def split: option.splits elim!: cb ext_elims)

lemma getBindingReference_ext [ext_elims]:
  assumes "getBindingReference rf el b s = Some (r, s')"
    and cb: "\<And>k s s'. rf k s = Some s' \<Longrightarrow> ext s0 s \<Longrightarrow> ext s0 s'"
    and "ext s0 s"
  shows "ext s0 s'"
  using assms(1,3)
  by (auto simp: getBindingReference_def Let_def split: option.splits if_splits bind_splits prod.splits
           intro!: ext_intros elim!: cb ext_elims)

lemma contentReferenceType_ext [ext_elims]:
  assumes "contentReferenceType fuel rf ty cr s = Some (r, s')"
    and cb: "\<And>k s s'. rf k s = Some s' \<Longrightarrow> ext s0 s \<Longrightarrow> ext s0 s'"
    and "ext s0 s"
  shows "ext s0 s'"
  using assms(1,3)
  by (auto simp: contentReferenceType_def Let_def split: option.splits if_splits bind_splits prod.splits
           intro!: ext_intros elim!: cb ext_elims)

lemma declaredType_ext [ext_elims]:
  assumes "declaredType rf el s = Some (r, s')"
    and cb: "\<And>k s s'. rf k s = Some s' \<Longrightarrow> ext s0 s \<Longrightarrow> ext s0 s'"
    and "ext s0 s"
  shows "ext s0 s'"
  using assms(1,3)
  by (auto simp: declaredType_def Let_def split: option.splits if_splits bind_splits prod.splits list.splits
           intro!: ext_intros elim!: cb ext_elims)

lemma getPropertyTypeForElement_ext [ext_elims]:
  assumes "getPropertyTypeForElement fuel rf ty el s = Some (r, s')"
    and cb: "\<And>k s s'. rf k s = Some s' \<Longrightarrow> ext s0 s \<Longrightarrow> ext s0 s'"
    and "ext s0 s"
  shows "ext s0 s'"
  using assms(1,3)
  by (auto simp: getPropertyTypeForElement_def split: option.splits if_splits bind_splits
           elim!: cb ext_elims)

lemma addProperty_ext [ext_elims]:
  "addProperty name pt opt s = Some (i, s') \<Longrightarrow> ext s0 s \<Longrightarrow> ext s0 s'"
  by (simp add: addProperty_def)

lemma setPropertyType_ext [ext_intros]: "ext s0 s \<Longrightarrow> ext s0 (setPropertyType ct i f s)"
  by (auto simp: setPropertyType_def intro!: ext_intros)

lemma polymorphicLoop_ext [ext_elims]:
  "polymorphicLoop ct el pn trs lp ln s = Some s' \<Longrightarrow> ext s0 s \<Longrightarrow> ext s0 s'"
proof (induction trs arbitrary: lp ln s)
  case Nil then show ?case by simp
next
  case (Cons t trs)
  from Cons.prems show ?case
    by (auto split: option.splits if_splits bind_splits intro!: ext_intros elim!: Cons.IH ext_elims)
qed

lemma processElement_ext [ext_elims]:
  assumes "processElement fuel rf ty el s = Some (r, s')"
    and cb: "\<And>k s s'. rf k s = Some s' \<Longrightarrow> ext s0 s \<Longrightarrow> ext s0 s'"
    and "ext s0 s"
  shows "ext s0 s'"
  using assms(1,3)
  by (auto simp: processElement_def split: option.splits if_splits bind_splits
           intro!: ext_intros elim!: cb ext_elims)

lemma elementsLoop_ext [ext_elims]:
  assumes "elementsLoop fuel rf ty els s = Some (r, s')"
    and cb: "\<And>k s s'. rf k s = Some s' \<Longrightarrow> ext s0 s \<Longrightarrow> ext s0 s'"
    and "ext s0 s"
  shows "ext s0 s'"
  using assms(1,3)
proof (induction els arbitrary: s)
  case Nil then show ?case by simp
next
  case (Cons e els)
  from Cons.prems show ?case
    by (auto split: if_splits bind_splits elim!: Cons.IH cb ext_elims)
qed

lemma unshiftProperty_ext [ext_intros]: "ext s0 s \<Longrightarrow> ext s0 (unshiftProperty ty p s)"
  by (auto simp: unshiftProperty_def intro!: ext_intros)

lemma backfill_ext [ext_intros]: "ext s0 s \<Longrightarrow> ext s0 (backfill ty s)"
  by (auto simp: backfill_def Let_def split: option.splits intro!: ext_intros)

lemma processTypeDefinition_ext [ext_elims]:
  assumes "processTypeDefinition fuel rf k file d s = Some s'"
    and cb: "\<And>k s s'. rf k s = Some s' \<Longrightarrow> ext s0 s \<Longrightarrow> ext s0 s'"
    and "ext s0 s"
  shows "ext s0 s'"
  using assms(1,3)
  by (auto simp: processTypeDefinition_def Let_def split: option.splits if_splits bind_splits prod.splits
           intro!: ext_intros elim!: cb ext_elims)

lemma processStructureDefinition_ext [ext_elims]:
  assumes "processStructureDefinition fuel rf k file d s = Some s'"
    and cb: "\<And>k s s'. rf k s = Some s' \<Longrightarrow> ext s0 s \<Longrightarrow> ext s0 s'"
    and "ext s0 s"
  shows "ext s0 s'"
  using assms(1,3)
  by (auto simp: processStructureDefinition_def processResource_def processType_def
           split: if_splits intro!: ext_intros elim!: cb ext_elims)

lemma referenceFile_body_ext [ext_elims]:
  assumes "referenceFile_body pf k s = Some s'"
    and cb: "\<And>k s s'. pf k s = Some s' \<Longrightarrow> ext s0 s \<Longrightarrow> ext s0 s'"
    and "ext s0 s"
  shows "ext s0 s'"
  using assms(1,3)
  by (auto simp: referenceFile_body_def split: option.splits if_splits bind_splits
           intro!: ext_intros elim!: cb ext_elims)

lemma processFile_body_ext [ext_elims]:
  assumes "processFile_body fuel rf pf k s = Some s'"
    and cb: "\<And>k s s'. rf k s = Some s' \<Longrightarrow> ext s0 s \<Longrightarrow> ext s0 s'"
    and cb2: "\<And>k s s'. pf k s = Some s' \<Longrightarrow> ext s0 s \<Longrightarrow> ext s0 s'"
    and "ext s0 s"
  shows "ext s0 s'"
proof (cases "lookupFile s k")
  case None
  with assms(1) show ?thesis by (simp add: processFile_body_def)
next
  case (Some entry)
  show ?thesis
  proof (cases entry)
    case Inherited
    with Some assms(1,4) show ?thesis by (simp add: processFile_body_def)
  next
    case (Document doc)
    then have own: "map_of (files s) k = Some doc"
      using Some by (auto simp: lookupFile_def split: option.splits if_splits)
    show ?thesis
    proof (cases "processed doc \<or> queued doc \<or> content doc = None")
      case True
      with Some Document assms(1,4) show ?thesis by (auto simp: processFile_body_def)
    next
      case False
      let ?s1 = "(updFile k (\<lambda>f. f\<lparr>queued := True\<rparr>) s)\<lparr>entered := entered s @ [k]\<rparr>"
      have e1: "ext s0 ?s1"
        using assms(4) ext_enter[OF own] False by (blast intro: ext_trans)
      from assms(1) Some Document False e1 show ?thesis
        by (auto simp: processFile_body_def Let_def
                 split: option.splits bind_splits DomainResource.splits
                 intro!: ext_intros elim!: cb cb2 ext_elims)
    qed
  qed
qed

lemma visit_ext:
  "visit fuel r k s = Some s' \<Longrightarrow> ext s0 s \<Longrightarrow> ext s0 s'"
proof (induction fuel arbitrary: r k s s')
  case 0 then show ?case by simp
next
  case (Suc fuel)
  from Suc.prems show ?case
    by (auto split: if_splits elim!: Suc.IH referenceFile_body_ext processFile_body_ext)
qed

lemma seedLoop_ext:
  "seedLoop fuel ks s = Some s' \<Longrightarrow> ext s0 s \<Longrightarrow> ext s0 s'"
proof (induction ks arbitrary: s)
  case Nil then show ?case by simp
next
  case (Cons k ks)
  from Cons.prems show ?case
    by (auto simp: referenceFile_def split: option.splits if_splits bind_splits elim!: Cons.IH visit_ext)
qed

lemma ext_keys: "ext s s' \<Longrightarrow> map fst (files s') = map fst (files s)"
  by (simp add: ext_def)

lemma ext_file:
  "ext s s' \<Longrightarrow> map_of (files s) k = Some f \<Longrightarrow> \<exists>f'. map_of (files s') k = Some f' \<and> fileLe f f'"
  unfolding ext_def by blast

lemma ext_flagged: "ext s s' \<Longrightarrow> prefix (flagged s) (flagged s')"
  unfolding ext_def by blast

lemma ext_entered: "ext s s' \<Longrightarrow> prefix (entered s) (entered s')"
  unfolding ext_def by blast

lemma ext_entryOk: "ext s s' \<Longrightarrow> entryOk s \<Longrightarrow> entryOk s'"
  unfolding ext_def by blast

lemma ext_index: "ext s s' \<Longrightarrow> map_of (typesByName s) nm = Some a \<Longrightarrow> map_of (typesByName s') nm = Some a"
  unfolding ext_def by blast

lemma ext_distinct: "ext s s' \<Longrightarrow> distinct (map fst (typesByName s)) \<Longrightarrow> distinct (map fst (typesByName s'))"
  unfolding ext_def by blast

lemma ext_registryOk: "ext s s' \<Longrightarrow> registryOk s \<Longrightarrow> registryOk s'"
  unfolding ext_def by blast

lemma ext_errors: "ext s s' \<Longrightarrow> prefix (errors s) (errors s')"
  unfolding ext_def by blast

lemma ext_types: "ext s s' \<Longrightarrow> prefix (types s) (types s')"
  unfolding ext_def by blast

lemma ext_node:
  "ext s s' \<Longrightarrow> a < length (theap s)
   \<Longrightarrow> a < length (theap s') \<and> t_name (theap s' ! a) = t_name (theap s ! a)
       \<and> t_kind (theap s' ! a) = t_kind (theap s ! a)
       \<and> t_category (theap s' ! a) = t_category (theap s ! a)"
  unfolding ext_def by auto

lemma visit_ext_self: "visit fuel r k s = Some s' \<Longrightarrow> ext s s'"
  by (erule visit_ext) simp

section \<open>Mapped operator names\<close>

lemma formatName_mapped:
  "formatName ''Equals'' = ''Equals''"
  "formatName ''LessThan'' = ''LessThan''"
  "formatName ''LessThanOrEqual'' = ''LessThanOrEqual''"
  "formatName ''GreaterThan'' = ''GreaterThan''"
  "formatName ''GreaterThanOrEqual'' = ''GreaterThanOrEqual''"
  by code_simp+

text \<open>
  Claim C6. A concept whose code is one of the five comparison operators gets the mapped
  word as its member name, whatever its display, definition and extensions are, and no
  error is recorded; the member that \<^verbatim>\<open>processConcepts\<close> makes for a concept with code
  \<^verbatim>\<open><=\<close> is named \<^verbatim>\<open>LessThanOrEqual\<close>.
\<close>

theorem mapped_operator_names:
  "getEnumMemberName system (concept\<lparr>c_code := ''=''\<rparr>) s = (Some ''Equals'', s)
   \<and> getEnumMemberName system (concept\<lparr>c_code := ''<''\<rparr>) s = (Some ''LessThan'', s)
   \<and> getEnumMemberName system (concept\<lparr>c_code := ''<=''\<rparr>) s = (Some ''LessThanOrEqual'', s)
   \<and> getEnumMemberName system (concept\<lparr>c_code := ''>''\<rparr>) s = (Some ''GreaterThan'', s)
   \<and> getEnumMemberName system (concept\<lparr>c_code := ''>=''\<rparr>) s = (Some ''GreaterThanOrEqual'', s)
   \<and> map_option m_name
         (memberAt (processConceptsLoop [concept\<lparr>c_code := ''<=''\<rparr>] caseSensitive system members s)
            (length (mheap s)))
       = Some (Some ''LessThanOrEqual'')"
  by (simp add: getEnumMemberName_def getMappedName_def truthy_def fmt_def formatName_mapped
        newMember_def pushArray_def memberAt_def Let_def)

section \<open>The visit state of a document\<close>

lemma lookupFile_Document:
  "lookupFile s k = Some (Document f) \<longleftrightarrow> map_of (files s) k = Some f"
  by (auto simp: lookupFile_def split: option.splits)

lemma processFile_noop:
  "map_of (files s) k = Some f \<Longrightarrow> processed f \<or> queued f \<or> content f = None
   \<Longrightarrow> processFile (Suc fuel) k s = Some s"
  by (auto simp: processFile_def processFile_body_def lookupFile_def)

lemma processFile_inherited:
  "lookupFile s k = Some Inherited \<Longrightarrow> processFile (Suc fuel) k s = Some s"
  by (simp add: processFile_def processFile_body_def)

lemma ext_rank:
  "ext s s' \<Longrightarrow> map_of (files s) k = Some f
   \<Longrightarrow> \<exists>f'. map_of (files s') k = Some f' \<and> visitRank f \<le> visitRank f'"
  by (drule (1) ext_file) (auto simp: fileLe_def visitRank_def)

lemma ext_noop:
  assumes "ext s s'" "map_of (files s) k = Some f" "processed f \<or> queued f \<or> content f = None"
  shows "processFile (Suc fuel) k s' = Some s'"
proof -
  from ext_file[OF assms(1,2)] obtain f' where f': "map_of (files s') k = Some f'" "fileLe f f'"
    by blast
  with assms(3) have "processed f' \<or> queued f' \<or> content f' = None"
    by (auto simp: fileLe_def)
  with f'(1) show ?thesis by (rule processFile_noop)
qed

lemma processFile_body_run:
  assumes run: "processFile_body fuel (visit n True) (visit n False) k s = Some s1"
    and f: "map_of (files s) k = Some f"
    and ng: "\<not> (processed f \<or> queued f \<or> content f = None)"
  shows "\<exists>s3. s1 = (updFile k (\<lambda>f. f\<lparr>processed := True\<rparr>) s3)\<lparr>currentFile := currentFile s\<rparr>
            \<and> ext ((updFile k (\<lambda>f. f\<lparr>queued := True\<rparr>) s)
                      \<lparr>entered := entered s @ [k], currentFile := Some (filename f)\<rparr>) s3"
  using run f ng
  by (auto simp: processFile_body_def Let_def updFile_def lookupFile_def
           split: bind_splits option.splits DomainResource.splits
           intro!: ext_intros elim!: visit_ext ext_elims)

lemma processFile_entered:
  assumes run: "processFile fuel k s = Some s1"
    and f: "map_of (files s) k = Some f"
    and ng: "\<not> (processed f \<or> queued f \<or> content f = None)"
  shows "(\<exists>l. entered s1 = entered s @ k # l)
         \<and> (\<exists>f1. map_of (files s1) k = Some f1 \<and> processed f1 \<and> queued f1)"
proof (cases fuel)
  case 0
  with run show ?thesis by (simp add: processFile_def)
next
  case (Suc n)
  let ?s2 = "(updFile k (\<lambda>f. f\<lparr>queued := True\<rparr>) s)
               \<lparr>entered := entered s @ [k], currentFile := Some (filename f)\<rparr>"
  from run Suc have "processFile_body n (visit n True) (visit n False) k s = Some s1"
    by (simp add: processFile_def)
  from processFile_body_run[OF this f ng] obtain s3 where
    s1: "s1 = (updFile k (\<lambda>f. f\<lparr>processed := True\<rparr>) s3)\<lparr>currentFile := currentFile s\<rparr>"
    and e: "ext ?s2 s3" by blast
  from ext_entered[OF e] obtain l where "entered s3 = (entered s @ [k]) @ l"
    by (auto simp: prefix_def)
  then have a: "entered s1 = entered s @ k # l"
    unfolding s1 by (simp add: updFile_def)
  have "map_of (files ?s2) k = Some (f\<lparr>queued := True\<rparr>)"
    using f files_updFile[of k "\<lambda>f. f\<lparr>queued := True\<rparr>" s k] by (simp add: updFile_def)
  from ext_file[OF e this] obtain f3 where f3: "map_of (files s3) k = Some f3" "queued f3"
    by (auto simp: fileLe_def)
  then have "map_of (files s1) k = Some (f3\<lparr>processed := True\<rparr>)"
    unfolding s1 using files_updFile[of k "\<lambda>f. f\<lparr>processed := True\<rparr>" s3 k] by (simp add: updFile_def)
  with a f3(2) show ?thesis by simp
qed

lemma processFile_done:
  assumes "processFile fuel k s = Some s1" "map_of (files s) k = Some f"
  shows "\<exists>f1. map_of (files s1) k = Some f1 \<and> (processed f1 \<or> queued f1 \<or> content f1 = None)"
proof (cases "processed f \<or> queued f \<or> content f = None")
  case True
  with assms show ?thesis
    by (cases fuel) (auto simp: processFile_def processFile_body_def lookupFile_def)
next
  case False
  from processFile_entered[OF assms False] show ?thesis by blast
qed

lemma entryOk_initialStateIn [simp]: "entryOk (initialStateIn realm fs)"
  by (simp add: entryOk_def initialStateIn_def)

text \<open>
  Claim C2. A call of \<^verbatim>\<open>processFile\<close> on a document that is processed or queued, or that
  has no content, returns at once and leaves the state as it is. Whatever a call of
  \<^verbatim>\<open>referenceFile\<close> or \<^verbatim>\<open>processFile\<close> does (\<open>visit\<close> is both), nested calls included, every
  document of the map is still there afterwards and its visit state has not gone back
  (unvisited, queued, processed); the list of the documents for which the body of
  \<^verbatim>\<open>processFile\<close> was entered has only grown at its end, and if before the call no key was
  twice in it and each of its documents was queued, that is so after the call: the body has
  not been entered for a document for which it had been entered before. Once a document is
  queued or processed, a call of \<^verbatim>\<open>processFile\<close> on it in any later state changes nothing;
  and when \<^verbatim>\<open>processFile\<close> has returned for a document, every later call on it, at once or
  after any further visit, changes nothing. A call of \<^verbatim>\<open>processFile\<close> on an unvisited
  document with content that returns has entered the body for it, first of all, and leaves
  it queued and processed. In a whole run of \<^verbatim>\<open>processFiles\<close>, and in a call of
  \<^verbatim>\<open>processFile\<close> at its start, the body is entered at most once for each document.
\<close>

theorem processFile_visits_once:
  "(map_of (files s) k = Some f \<and> (processed f \<or> queued f \<or> content f = None)
      \<longrightarrow> processFile (Suc fuel) k s = Some s)
   \<and> (visit fuela r ka sa = Some sa'
      \<longrightarrow> (\<forall>k' f'. map_of (files sa) k' = Some f'
             \<longrightarrow> (\<exists>f''. map_of (files sa') k' = Some f'' \<and> visitRank f' \<le> visitRank f''))
          \<and> prefix (entered sa) (entered sa')
          \<and> (entryOk sa \<longrightarrow> entryOk sa'))
   \<and> (map_of (files sb) kb = Some fb \<and> (processed fb \<or> queued fb) \<and> visit fuelb rb kb' sb = Some sb'
      \<longrightarrow> processFile (Suc fuelb') kb sb' = Some sb')
   \<and> (map_of (files sc) kc = Some fc \<and> processFile fuelc kc sc = Some sc' \<and> visit fueld rd kd sc' = Some sd
      \<longrightarrow> processFile (Suc fuele) kc sc' = Some sc' \<and> processFile (Suc fuele) kc sd = Some sd)
   \<and> (map_of (files sg) kg = Some fg \<and> \<not> processed fg \<and> \<not> queued fg \<and> content fg \<noteq> None
        \<and> processFile fuelg kg sg = Some sg'
      \<longrightarrow> (\<exists>l. entered sg' = entered sg @ kg # l)
          \<and> (\<exists>fg'. map_of (files sg') kg = Some fg' \<and> processed fg' \<and> queued fg'))
   \<and> (processFilesIn realm fuelh fs = Some sh \<longrightarrow> distinct (entered sh))
   \<and> (processFile fueli ki (initialStateIn realm fs) = Some si \<longrightarrow> distinct (entered si))"
proof (intro conjI impI allI)
  assume "map_of (files s) k = Some f \<and> (processed f \<or> queued f \<or> content f = None)"
  then show "processFile (Suc fuel) k s = Some s" by (auto intro: processFile_noop)
next
  fix k' f'
  assume "visit fuela r ka sa = Some sa'" "map_of (files sa) k' = Some f'"
  then show "\<exists>f''. map_of (files sa') k' = Some f'' \<and> visitRank f' \<le> visitRank f''"
    by (auto dest!: visit_ext_self intro: ext_rank)
next
  assume "visit fuela r ka sa = Some sa'"
  then show "prefix (entered sa) (entered sa')"
    by (auto dest!: visit_ext_self intro: ext_entered)
next
  assume "visit fuela r ka sa = Some sa'" "entryOk sa"
  then show "entryOk sa'"
    by (auto dest!: visit_ext_self intro: ext_entryOk)
next
  assume "map_of (files sb) kb = Some fb \<and> (processed fb \<or> queued fb) \<and> visit fuelb rb kb' sb = Some sb'"
  then show "processFile (Suc fuelb') kb sb' = Some sb'"
    by (auto dest!: visit_ext_self intro: ext_noop)
next
  assume a: "map_of (files sc) kc = Some fc \<and> processFile fuelc kc sc = Some sc' \<and> visit fueld rd kd sc' = Some sd"
  from processFile_done[of fuelc kc sc sc' fc] a obtain f1 where
    f1: "map_of (files sc') kc = Some f1" "processed f1 \<or> queued f1 \<or> content f1 = None" by blast
  then show "processFile (Suc fuele) kc sc' = Some sc'" by (rule processFile_noop)
  from a have "ext sc' sd" by (auto dest: visit_ext_self)
  from ext_noop[OF this f1] show "processFile (Suc fuele) kc sd = Some sd" .
next
  assume a: "map_of (files sg) kg = Some fg \<and> \<not> processed fg \<and> \<not> queued fg \<and> content fg \<noteq> None
        \<and> processFile fuelg kg sg = Some sg'"
  then have r: "processFile fuelg kg sg = Some sg'" and f: "map_of (files sg) kg = Some fg"
    and ng: "\<not> (processed fg \<or> queued fg \<or> content fg = None)" by auto
  from processFile_entered[OF r f ng]
  show "\<exists>l. entered sg' = entered sg @ kg # l"
    and "\<exists>fg'. map_of (files sg') kg = Some fg' \<and> processed fg' \<and> queued fg'" by blast+
next
  assume "processFilesIn realm fuelh fs = Some sh"
  then have "ext (initialStateIn realm fs) sh"
    by (auto simp: processFilesIn_def split: if_splits intro: seedLoop_ext)
  from ext_entryOk[OF this entryOk_initialStateIn] show "distinct (entered sh)"
    by (simp add: entryOk_def)
next
  assume "processFile fueli ki (initialStateIn realm fs) = Some si"
  then have "ext (initialStateIn realm fs) si"
    by (auto simp: processFile_def dest: visit_ext_self)
  from ext_entryOk[OF this entryOk_initialStateIn] show "distinct (entered si)"
    by (simp add: entryOk_def)
qed

text \<open>
  The theorem at the two documents that are each other's base type: \<^verbatim>\<open>processFile\<close> on
  the first returns and leaves both processed, the body has been entered once for the
  first and then, inside it, once for the second, and no later call does anything.
\<close>

theorem processFile_visits_once_witness:
  "processFile 5 ''A'' (initialState cyclicDocs) = Some cyclicProcessed
   \<and> referenceFile 5 ''A'' cyclicProcessed = Some cyclicReferenced
   \<and> entered cyclicProcessed = [''A'', ''B'']
   \<and> entered cyclicReferenced = [''A'', ''B'']
   \<and> map_option visitRank (map_of (files (initialState cyclicDocs)) ''B'') = Some 0
   \<and> map_option visitRank (map_of (files cyclicProcessed) ''B'') = Some 2
   \<and> map_option visitRank (map_of (files cyclicProcessed) ''A'') = Some 2
   \<and> processFile (Suc 0) ''B'' cyclicProcessed = Some cyclicProcessed
   \<and> processFile (Suc 0) ''B'' cyclicReferenced = Some cyclicReferenced
   \<and> processFile (Suc 0) ''A'' cyclicProcessed = Some cyclicProcessed
   \<and> processFile (Suc 0) ''A'' cyclicReferenced = Some cyclicReferenced
   \<and> distinct (entered cyclicProcessed)
   \<and> entryOk cyclicReferenced"
proof -
  let ?b = "the (map_of (files cyclicProcessed) ''B'')"
  have h1: "processFile 5 ''A'' (initialStateIn [] cyclicDocs) = Some cyclicProcessed"
    unfolding cyclicProcessed_def initialState_def by code_simp
  have h2: "referenceFile 5 ''A'' cyclicProcessed = Some cyclicReferenced"
    unfolding cyclicReferenced_def cyclicProcessed_def by code_simp
  have h3: "map_of (files (initialStateIn [] cyclicDocs)) ''B'' = Some (snd (cyclicDocs ! 1))"
    by code_simp
  have h3a: "map_of (files (initialStateIn [] cyclicDocs)) ''A'' = Some (snd (cyclicDocs ! 0))"
    by code_simp
  have h3b: "\<not> processed (snd (cyclicDocs ! 0))" "\<not> queued (snd (cyclicDocs ! 0))"
            "content (snd (cyclicDocs ! 0)) \<noteq> None"
    by code_simp+
  have r0: "visitRank (snd (cyclicDocs ! 1)) = 0"
    by code_simp
  have h4: "map_of (files cyclicProcessed) ''B'' = Some ?b"
    unfolding cyclicProcessed_def by code_simp
  have h5: "processed ?b"
    unfolding cyclicProcessed_def by code_simp
  have r2: "map_option visitRank (map_of (files cyclicProcessed) ''B'') = Some 2"
           "map_option visitRank (map_of (files cyclicProcessed) ''A'') = Some 2"
    unfolding cyclicProcessed_def by code_simp+
  have e1: "entered cyclicProcessed = [''A'', ''B'']"
    unfolding cyclicProcessed_def by code_simp
  have e2: "entered cyclicReferenced = [''A'', ''B'']"
    unfolding cyclicReferenced_def cyclicProcessed_def by code_simp
  have e0: "entered (initialStateIn [] cyclicDocs) = []" "entryOk (initialStateIn [] cyclicDocs)"
    by simp_all (simp add: initialStateIn_def)
  note t = processFile_visits_once
             [where s = cyclicProcessed and k = "''B''" and f = ?b
                and fuel = 0
                and fuela = 5 and r = False and ka = "''A''" and sa = "initialStateIn [] cyclicDocs"
                and sa' = cyclicProcessed
                and sb = cyclicProcessed and kb = "''B''" and fb = ?b
                and fuelb = 5 and rb = True and kb' = "''A''" and sb' = cyclicReferenced and fuelb' = 0
                and fuelc = 5 and kc = "''A''" and sc = "initialStateIn [] cyclicDocs"
                and fc = "snd (cyclicDocs ! 0)" and sc' = cyclicProcessed
                and fueld = 5 and rd = True and kd = "''A''" and sd = cyclicReferenced and fuele = 0
                and sg = "initialStateIn [] cyclicDocs" and kg = "''A''" and fg = "snd (cyclicDocs ! 0)"
                and fuelg = 5 and sg' = cyclicProcessed
                and realm = "[]" and fs = cyclicDocs and fueli = 5 and ki = "''A''" and si = cyclicProcessed]
  note u = processFile_visits_once
             [where fuela = 5 and r = True and ka = "''A''" and sa = cyclicProcessed and sa' = cyclicReferenced]
  have c1: "processFile (Suc 0) ''B'' cyclicProcessed = Some cyclicProcessed"
    using t h4 h5 by blast
  have c3: "processFile (Suc 0) ''B'' cyclicReferenced = Some cyclicReferenced"
    using t h2 h4 h5 unfolding referenceFile_def by blast
  have c4: "processFile (Suc 0) ''A'' cyclicProcessed = Some cyclicProcessed
            \<and> processFile (Suc 0) ''A'' cyclicReferenced = Some cyclicReferenced"
    using t h1 h2 h3a unfolding referenceFile_def by blast
  have c5: "distinct (entered cyclicProcessed)"
    using t h1 by blast
  have c6: "entryOk cyclicProcessed"
    using t h1 e0(2) unfolding processFile_def by blast
  have c7: "entryOk cyclicReferenced"
    using u[THEN conjunct2, THEN conjunct1] h2 c6 unfolding referenceFile_def by simp
  from h1 h2 h3 r0 r2 e1 e2 c1 c3 c4 c5 c7 show ?thesis by (simp add: initialState_def)
qed

section \<open>The type registry\<close>

lemma currentFile_setReferenced [simp]: "currentFile (setReferenced k s) = currentFile s"
  by (simp add: setReferenced_def updFile_def split: option.splits)

lemma processFile_currentFile:
  "processFile fuel k s = Some s' \<Longrightarrow> currentFile s' = currentFile s"
  by (cases fuel)
     (auto simp: processFile_def processFile_body_def updFile_def Let_def
           split: option.splits if_splits bind_splits Entry.splits)

lemma addTypeToResults_currentFile [simp]: "currentFile (addTypeToResults a s) = currentFile s"
  by (auto simp: addTypeToResults_def addError_def Let_def split: option.splits)

lemma referenceFile_currentFile:
  "referenceFile fuel k s = Some s' \<Longrightarrow> currentFile s' = currentFile s"
  by (cases fuel)
     (auto simp: referenceFile_def referenceFile_body_def Let_def
           split: option.splits if_splits bind_splits
           dest!: processFile_currentFile[unfolded processFile_def])

lemma seedLoop_currentFile:
  "seedLoop fuel ks s = Some s' \<Longrightarrow> currentFile s' = currentFile s"
  by (induction ks arbitrary: s)
     (auto split: option.splits if_splits bind_splits dest: referenceFile_currentFile)

lemma addTypeToResults_duplicate:
  assumes "typeAt s a = Some t" "t_name t = Some nm" "nm \<noteq> []" "map_of (typesByName s) nm = Some other"
  shows "addTypeToResults a s
         = (addError (''Duplicate type name '' @ [CHR 0x27] @ nm @ [CHR 0x27] @ ''.'') s)
             \<lparr>types := types s @ [a]\<rparr>"
  using assms by (simp add: addTypeToResults_def Let_def addError_def lookupType_def)

text \<open>
  Claim C5. When the node passed to \<^verbatim>\<open>addTypeToResults\<close> has a name that the index
  already holds, one error is appended (with the prefix of the current document, if
  there is one), the node is appended to the output list, and neither the index nor
  any node changes: nothing is renamed. Over a whole visit, a name of the index keeps
  naming the same node and no node of the store changes its name; at the end of
  \<^verbatim>\<open>processFiles\<close> the index holds every name once, and the node a name leads to has this
  name.
\<close>

theorem duplicate_type_names:
  "(typeAt s a = Some t \<and> t_name t = Some nm \<and> nm \<noteq> [] \<and> map_of (typesByName s) nm = Some other
      \<longrightarrow> errors (addTypeToResults a s)
            = errors s @ [(case currentFile s of None \<Rightarrow> [] | Some fname \<Rightarrow> fname @ '': '')
                          @ ''Duplicate type name '' @ [CHR 0x27] @ nm @ [CHR 0x27] @ ''.'']
          \<and> types (addTypeToResults a s) = types s @ [a]
          \<and> typesByName (addTypeToResults a s) = typesByName s
          \<and> theap (addTypeToResults a s) = theap s)
   \<and> (visit fuel r k s = Some s'
      \<longrightarrow> (\<forall>nm' b. map_of (typesByName s) nm' = Some b \<longrightarrow> map_of (typesByName s') nm' = Some b)
          \<and> (\<forall>b < length (theap s). t_name (theap s' ! b) = t_name (theap s ! b)))
   \<and> (processFiles fuel fs = Some sf
      \<longrightarrow> distinct (map fst (typesByName sf))
          \<and> (\<forall>nm' b. map_of (typesByName sf) nm' = Some b \<longrightarrow> Option.bind (typeAt sf b) t_name = Some nm'))"
proof (intro conjI impI allI)
  assume a: "typeAt s a = Some t \<and> t_name t = Some nm \<and> nm \<noteq> [] \<and> map_of (typesByName s) nm = Some other"
  then have eq: "addTypeToResults a s
         = (addError (''Duplicate type name '' @ [CHR 0x27] @ nm @ [CHR 0x27] @ ''.'') s)
             \<lparr>types := types s @ [a]\<rparr>"
    using addTypeToResults_duplicate[of s a t nm other] by blast
  show "errors (addTypeToResults a s)
            = errors s @ [(case currentFile s of None \<Rightarrow> [] | Some fname \<Rightarrow> fname @ '': '')
                          @ ''Duplicate type name '' @ [CHR 0x27] @ nm @ [CHR 0x27] @ ''.'']"
    unfolding eq by (simp add: addError_def split: option.splits)
  show "types (addTypeToResults a s) = types s @ [a]" unfolding eq by (simp add: addError_def)
  show "typesByName (addTypeToResults a s) = typesByName s" unfolding eq by (simp add: addError_def)
  show "theap (addTypeToResults a s) = theap s" unfolding eq by (simp add: addError_def)
next
  fix nm' b
  assume "visit fuel r k s = Some s'" "map_of (typesByName s) nm' = Some b"
  then show "map_of (typesByName s') nm' = Some b"
    by (auto dest!: visit_ext_self intro: ext_index)
next
  fix b
  assume "visit fuel r k s = Some s'" "b < length (theap s)"
  then show "t_name (theap s' ! b) = t_name (theap s ! b)"
    by (auto dest!: visit_ext_self dest: ext_node)
next
  assume "processFiles fuel fs = Some sf"
  then have e: "ext (initialState fs) sf"
    by (auto simp: processFiles_def processFilesIn_def initialState_def split: if_splits intro: seedLoop_ext)
  from ext_distinct[OF e] show "distinct (map fst (typesByName sf))"
    by (simp add: initialState_def initialStateIn_def)
  have "registryOk (initialState fs)" by (simp add: registryOk_def initialState_def initialStateIn_def)
  from ext_registryOk[OF e this]
  show "\<And>nm' b. map_of (typesByName sf) nm' = Some b \<Longrightarrow> Option.bind (typeAt sf b) t_name = Some nm'"
    by (auto simp: registryOk_def typeAt_def)
qed

text \<open>
  The theorem at two resources that are filed under two keys and have the same identifier
  \<^verbatim>\<open>Patient\<close>: the node of the second is registered after the node of the first.
\<close>

theorem duplicate_type_names_witness:
  "typeAt sameIdProcessed 1 = Some (createInterfaceType ''Patient'' CatResource)
   \<and> map_of (typesByName sameIdProcessed) ''Patient'' = Some 0
   \<and> currentFile sameIdProcessed = None
   \<and> errors (addTypeToResults 1 sameIdProcessed)
       = errors sameIdProcessed @ [''Duplicate type name '' @ [CHR 0x27] @ ''Patient'' @ [CHR 0x27] @ ''.'']
   \<and> types (addTypeToResults 1 sameIdProcessed) = types sameIdProcessed @ [1]
   \<and> typesByName (addTypeToResults 1 sameIdProcessed) = typesByName sameIdProcessed
   \<and> theap (addTypeToResults 1 sameIdProcessed) = theap sameIdProcessed
   \<and> referenceFile 5 ''Patient2'' sameIdBefore = Some sameIdRun
   \<and> map_of (typesByName sameIdBefore) ''Patient'' = Some 0
   \<and> map_of (typesByName sameIdRun) ''Patient'' = Some 0
   \<and> processFiles 5 sameIdDocs = Some sameIdRun
   \<and> types sameIdRun = [0, 1]
   \<and> distinct (map fst (typesByName sameIdRun))"
proof -
  have h1: "typeAt sameIdProcessed 1 = Some (createInterfaceType ''Patient'' CatResource)"
    unfolding sameIdProcessed_def sameIdBefore_def by code_simp
  have h2: "t_name (createInterfaceType ''Patient'' CatResource) = Some ''Patient''"
    by code_simp
  have h3: "map_of (typesByName sameIdProcessed) ''Patient'' = Some 0"
    unfolding sameIdProcessed_def sameIdBefore_def by code_simp
  have h4: "currentFile sameIdProcessed = None"
    unfolding sameIdProcessed_def sameIdBefore_def by code_simp
  have h5: "visit 5 True ''Patient2'' sameIdBefore = Some sameIdRun"
    unfolding sameIdRun_def sameIdBefore_def by code_simp
  have h6: "map_of (typesByName sameIdBefore) ''Patient'' = Some 0"
    unfolding sameIdBefore_def by code_simp
  have h7: "processFiles 5 sameIdDocs = Some sameIdRun"
    unfolding sameIdRun_def by code_simp
  have h8: "types sameIdRun = [0, 1]"
    unfolding sameIdRun_def by code_simp
  note t = duplicate_type_names
             [where s = sameIdProcessed and a = 1 and t = "createInterfaceType ''Patient'' CatResource"
                and nm = "''Patient''" and other = 0]
  have c1: "errors (addTypeToResults 1 sameIdProcessed)
              = errors sameIdProcessed @ [''Duplicate type name '' @ [CHR 0x27] @ ''Patient'' @ [CHR 0x27] @ ''.'']
            \<and> types (addTypeToResults 1 sameIdProcessed) = types sameIdProcessed @ [1]
            \<and> typesByName (addTypeToResults 1 sameIdProcessed) = typesByName sameIdProcessed
            \<and> theap (addTypeToResults 1 sameIdProcessed) = theap sameIdProcessed"
    using t h1 h2 h3 h4 by simp
  have c2: "map_of (typesByName sameIdRun) ''Patient'' = Some 0"
    using duplicate_type_names
            [where fuel = 5 and r = True and k = "''Patient2''" and s = sameIdBefore and s' = sameIdRun]
          h5 h6 by blast
  have c3: "distinct (map fst (typesByName sameIdRun))"
    using duplicate_type_names[where fuel = 5 and fs = sameIdDocs and sf = sameIdRun] h7 by blast
  from h1 h3 h4 h5 h6 h7 h8 c1 c2 c3 show ?thesis by (simp add: referenceFile_def)
qed

text \<open>
  Claim C10. An error recorded while no document is current has no filename prefix.
  \<^verbatim>\<open>processFile\<close> leaves the current document as it found it, and \<^verbatim>\<open>processFiles\<close> ends
  with none. So when \<^verbatim>\<open>referenceFile\<close> is called with no current document on a document
  that is not yet referenced, as the seed sweep does, \<^verbatim>\<open>processFile\<close> returns with no
  current document, and if the name of the resulting node is in the index already, the
  error list grows by the bare message \<^verbatim>\<open>Duplicate type name '...'.\<close>
\<close>

theorem seed_duplicate_error_unprefixed:
  "(currentFile s = None \<longrightarrow> errors (addError msg s) = errors s @ [msg])
   \<and> (processFile fuel k s = Some s1 \<longrightarrow> currentFile s1 = currentFile s)
   \<and> (processFiles fuel fs = Some sf \<longrightarrow> currentFile sf = None)
   \<and> (currentFile s = None \<and> map_of (files s) k = Some doc \<and> \<not> isReferenced s k
        \<and> referenceFile (Suc fuel) k s = Some s'
      \<longrightarrow> (\<exists>s2. processFile fuel k (updFile k (\<lambda>f. f\<lparr>referenced := Some True\<rparr>) s) = Some s2
               \<and> currentFile s2 = None
               \<and> (\<forall>ty t nm other.
                     fileType s2 k = Some ty \<and> typeAt s2 ty = Some t \<and> t_name t = Some nm \<and> nm \<noteq> []
                       \<and> map_of (typesByName s2) nm = Some other
                     \<longrightarrow> errors s' = errors s2 @ [''Duplicate type name '' @ [CHR 0x27] @ nm @ [CHR 0x27] @ ''.''])))"
proof (intro conjI impI)
  assume "currentFile s = None"
  then show "errors (addError msg s) = errors s @ [msg]" by (simp add: addError_def)
next
  assume "processFile fuel k s = Some s1"
  then show "currentFile s1 = currentFile s" by (rule processFile_currentFile)
next
  assume "processFiles fuel fs = Some sf"
  then show "currentFile sf = None"
    by (auto simp: processFiles_def processFilesIn_def initialStateIn_def split: if_splits
             dest: seedLoop_currentFile)
next
  assume a: "currentFile s = None \<and> map_of (files s) k = Some doc \<and> \<not> isReferenced s k
             \<and> referenceFile (Suc fuel) k s = Some s'"
  let ?s0 = "updFile k (\<lambda>f. f\<lparr>referenced := Some True\<rparr>) s"
  from a have sr: "setReferenced k s = ?s0" by (simp add: setReferenced_def)
  from a obtain s2 where s2: "processFile fuel k ?s0 = Some s2"
    and s': "s' = (case fileType s2 k of None \<Rightarrow> s2 | Some ty \<Rightarrow> addTypeToResults ty s2)"
    unfolding sr[symmetric]
    by (auto simp: referenceFile_def referenceFile_body_def processFile_def lookupFile_def
             split: bind_splits option.splits)
  from processFile_currentFile[OF s2] a have c: "currentFile s2 = None"
    by (simp add: updFile_def)
  have "\<forall>ty t nm other.
          fileType s2 k = Some ty \<and> typeAt s2 ty = Some t \<and> t_name t = Some nm \<and> nm \<noteq> []
            \<and> map_of (typesByName s2) nm = Some other
          \<longrightarrow> errors s' = errors s2 @ [''Duplicate type name '' @ [CHR 0x27] @ nm @ [CHR 0x27] @ ''.'']"
    using c by (auto simp: s' addTypeToResults_duplicate addError_def)
  with s2 c show "\<exists>s2. processFile fuel k ?s0 = Some s2 \<and> currentFile s2 = None
               \<and> (\<forall>ty t nm other.
                     fileType s2 k = Some ty \<and> typeAt s2 ty = Some t \<and> t_name t = Some nm \<and> nm \<noteq> []
                       \<and> map_of (typesByName s2) nm = Some other
                     \<longrightarrow> errors s' = errors s2 @ [''Duplicate type name '' @ [CHR 0x27] @ nm @ [CHR 0x27] @ ''.''])"
    by blast
qed

text \<open>
  The theorem at the second of two seed documents that have the same identifier: the only
  error of the run is the message without a prefix.
\<close>

theorem seed_duplicate_error_unprefixed_witness:
  "currentFile sameIdBefore = None
   \<and> isReferenced sameIdBefore ''Patient2'' = False
   \<and> referenceFile 5 ''Patient2'' sameIdBefore = Some sameIdRun
   \<and> processFiles 5 sameIdDocs = Some sameIdRun
   \<and> currentFile sameIdRun = None
   \<and> errors sameIdRun = [''Duplicate type name '' @ [CHR 0x27] @ ''Patient'' @ [CHR 0x27] @ ''.'']"
proof -
  let ?doc = "the (map_of (files sameIdBefore) ''Patient2'')"
  have h1: "currentFile sameIdBefore = None"
    unfolding sameIdBefore_def by code_simp
  have h2: "map_of (files sameIdBefore) ''Patient2'' = Some ?doc"
    unfolding sameIdBefore_def by code_simp
  have h3: "\<not> isReferenced sameIdBefore ''Patient2''"
    unfolding sameIdBefore_def by code_simp
  have h4: "referenceFile (Suc 4) ''Patient2'' sameIdBefore = Some sameIdRun"
    unfolding sameIdRun_def sameIdBefore_def by code_simp
  have h5: "processFile 4 ''Patient2'' (updFile ''Patient2'' (\<lambda>f. f\<lparr>referenced := Some True\<rparr>) sameIdBefore)
            = Some sameIdProcessed"
    unfolding sameIdProcessed_def sameIdBefore_def by code_simp
  have h6: "fileType sameIdProcessed ''Patient2'' = Some 1"
    unfolding sameIdProcessed_def sameIdBefore_def by code_simp
  have h7: "typeAt sameIdProcessed 1 = Some (createInterfaceType ''Patient'' CatResource)"
    unfolding sameIdProcessed_def sameIdBefore_def by code_simp
  have h8: "t_name (createInterfaceType ''Patient'' CatResource) = Some ''Patient''"
    by code_simp
  have h9: "map_of (typesByName sameIdProcessed) ''Patient'' = Some 0"
    unfolding sameIdProcessed_def sameIdBefore_def by code_simp
  have h10: "errors sameIdProcessed = []"
    unfolding sameIdProcessed_def sameIdBefore_def by code_simp
  have h11: "processFiles 5 sameIdDocs = Some sameIdRun"
    unfolding sameIdRun_def by code_simp
  note t = seed_duplicate_error_unprefixed
             [where s = sameIdBefore and k = "''Patient2''" and doc = ?doc
                and fuel = 4 and s' = sameIdRun]
  from t h1 h2 h3 h4 obtain s2 where
    s2: "processFile 4 ''Patient2'' (updFile ''Patient2'' (\<lambda>f. f\<lparr>referenced := Some True\<rparr>) sameIdBefore) = Some s2"
    and e: "\<forall>ty t nm other.
              fileType s2 ''Patient2'' = Some ty \<and> typeAt s2 ty = Some t \<and> t_name t = Some nm \<and> nm \<noteq> []
                \<and> map_of (typesByName s2) nm = Some other
              \<longrightarrow> errors sameIdRun = errors s2 @ [''Duplicate type name '' @ [CHR 0x27] @ nm @ [CHR 0x27] @ ''.'']"
    by blast
  from s2 h5 have eq: "s2 = sameIdProcessed" by simp
  have c1: "errors sameIdRun = [''Duplicate type name '' @ [CHR 0x27] @ ''Patient'' @ [CHR 0x27] @ ''.'']"
    using e[unfolded eq, rule_format, of 1 "createInterfaceType ''Patient'' CatResource" "''Patient''" 0]
          h6 h7 h8 h9 h10 by simp
  have c2: "currentFile sameIdRun = None"
    using seed_duplicate_error_unprefixed[where fuel = 5 and fs = sameIdDocs and sf = sameIdRun] h11
    by blast
  from h1 h3 h4 h11 c1 c2 show ?thesis by simp
qed

section \<open>Running twice\<close>

lemma files_addTypeToResults [simp]: "files (addTypeToResults a s) = files s"
  by (auto simp: addTypeToResults_def addError_def Let_def split: option.splits)

lemma flagged_addTypeToResults [simp]: "flagged (addTypeToResults a s) = flagged s"
  by (auto simp: addTypeToResults_def addError_def Let_def split: option.splits)

lemma isReferenced_addTypeToResults [simp]: "isReferenced (addTypeToResults a s) k = isReferenced s k"
  by (auto simp: isReferenced_def polluted_def split: option.splits)

lemma ext_isReferenced:
  assumes "ext s s'" "isReferenced s k"
  shows "isReferenced s' k"
proof -
  have p: "polluted s \<Longrightarrow> polluted s'"
    using ext_flagged[OF assms(1)] by (auto simp: polluted_def prefix_def)
  have fl: "k \<in> set (flagged s) \<Longrightarrow> k \<in> set (flagged s')"
    using ext_flagged[OF assms(1)] by (auto simp: prefix_def)
  have keys: "map_of (files s') k = None \<longleftrightarrow> map_of (files s) k = None"
    using ext_keys[OF assms(1)] by (metis map_of_eq_None_iff set_map)
  show ?thesis
  proof (cases "map_of (files s) k")
    case None
    with assms(2) keys p fl show ?thesis by (auto simp: isReferenced_def)
  next
    case (Some f)
    from ext_file[OF assms(1) Some] obtain f' where f': "map_of (files s') k = Some f'" "fileLe f f'"
      by blast
    with assms(2) Some p show ?thesis
      by (auto simp: isReferenced_def fileLe_def split: option.splits)
  qed
qed

lemma isReferenced_setReferenced:
  "lookupFile s k \<noteq> None \<Longrightarrow> isReferenced (setReferenced k s) k"
  by (auto simp: isReferenced_def setReferenced_def files_updFile lookupFile_def split: option.splits)

lemma referenceFile_referenced:
  assumes "referenceFile fuel k s = Some s'"
  shows "isReferenced s' k"
proof (cases fuel)
  case 0
  with assms show ?thesis by (simp add: referenceFile_def)
next
  case (Suc n)
  from assms Suc have run: "referenceFile_body (visit n False) k s = Some s'"
    by (simp add: referenceFile_def)
  then have f: "lookupFile s k \<noteq> None"
    by (auto simp: referenceFile_body_def split: option.splits)
  show ?thesis
  proof (cases "isReferenced s k")
    case True
    with run f show ?thesis by (auto simp: referenceFile_body_def)
  next
    case False
    from run f False obtain s1 where s1: "visit n False k (setReferenced k s) = Some s1"
      and s': "isReferenced s' k = isReferenced s1 k"
      by (auto simp: referenceFile_body_def split: option.splits bind_splits)
    from ext_isReferenced[OF visit_ext_self[OF s1] isReferenced_setReferenced[OF f]] show ?thesis
      unfolding s' .
  qed
qed

lemma fileLe_seed:
  "fileLe f f' \<Longrightarrow> isResourceDefinition f' = isResourceDefinition f \<and> isConstrainedType f' = isConstrainedType f"
  by (simp add: fileLe_def isResourceDefinition_def isConstrainedType_def)

lemma seedsDone_ext: "ext s s' \<Longrightarrow> seedsDone ks s \<Longrightarrow> seedsDone ks s'"
  unfolding seedsDone_def list_all_iff
proof
  fix k assume e: "ext s s'" and a: "\<forall>k\<in>set ks. case map_of (files s) k of None \<Rightarrow> False
         | Some f \<Rightarrow> isResourceDefinition f \<and> \<not> isConstrainedType f \<longrightarrow> isReferenced s k" and k: "k \<in> set ks"
  from a k obtain f where f: "map_of (files s) k = Some f"
    and r: "isResourceDefinition f \<and> \<not> isConstrainedType f \<longrightarrow> isReferenced s k"
    by (auto split: option.splits)
  from ext_file[OF e f] obtain f' where f': "map_of (files s') k = Some f'" "fileLe f f'" by blast
  show "case map_of (files s') k of None \<Rightarrow> False
         | Some f \<Rightarrow> isResourceDefinition f \<and> \<not> isConstrainedType f \<longrightarrow> isReferenced s' k"
    using f' r fileLe_seed[OF f'(2)] ext_isReferenced[OF e] by auto
qed

lemma seedLoop_seedsDone:
  "seedLoop fuel ks s = Some s' \<Longrightarrow> seedsDone ks s'"
proof (induction ks arbitrary: s)
  case Nil
  then show ?case by (simp add: seedsDone_def)
next
  case (Cons k ks)
  from Cons.prems obtain f where f: "map_of (files s) k = Some f"
    by (auto split: option.splits)
  show ?case
  proof (cases "isResourceDefinition f \<and> \<not> isConstrainedType f")
    case True
    with Cons.prems f obtain s1 where s1: "referenceFile fuel k s = Some s1" and rest: "seedLoop fuel ks s1 = Some s'"
      by (auto split: bind_splits)
    have e1: "ext s s1" using s1 by (auto simp: referenceFile_def dest: visit_ext_self)
    have e2: "ext s1 s'" by (rule seedLoop_ext[OF rest ext_refl])
    from ext_file[OF ext_trans[OF e1 e2] f] obtain f' where f': "map_of (files s') k = Some f'"
      by blast
    from ext_isReferenced[OF e2 referenceFile_referenced[OF s1]] have "isReferenced s' k" .
    with f' Cons.IH[OF rest] show ?thesis by (simp add: seedsDone_def)
  next
    case False
    with Cons.prems f have rest: "seedLoop fuel ks s = Some s'" by (auto split: if_splits)
    from ext_file[OF seedLoop_ext[OF rest ext_refl] f] obtain f' where f': "map_of (files s') k = Some f'" "fileLe f f'"
      by blast
    with False fileLe_seed[OF f'(2)] Cons.IH[OF rest] show ?thesis by (auto simp: seedsDone_def)
  qed
qed

lemma isReferenced_again:
  "isReferenced (initialStateIn (flagged s) (files s)) k = isReferenced s k"
  by (auto simp: isReferenced_def polluted_def initialStateIn_def split: option.splits)

lemma seedsDone_again:
  "seedsDone ks (initialStateIn (flagged s) (files s)) = seedsDone ks s"
  unfolding seedsDone_def isReferenced_again by (simp add: initialStateIn_def)

lemma seedLoop_again:
  "seedsDone ks s \<Longrightarrow> seedLoop (Suc fuel) ks s = Some s"
  by (induction ks)
     (auto simp: seedsDone_def referenceFile_def referenceFile_body_def lookupFile_def split: option.splits)

text \<open>
  Claim C8, as amended. \<^verbatim>\<open>processFiles\<close> writes the visit flags into the documents of the
  map it is given (and the flag \<^verbatim>\<open>referenced\<close> on the inherited values that it finds in the
  map). A second run on that map therefore finds every seed document referenced already:
  it returns at once, with no type and no error, and leaves the map as it found it.
\<close>

theorem second_run_empty:
  assumes "processFilesIn realm fuel fs = Some s"
  shows "processFilesIn (flagged s) (Suc fuel') (files s) = Some (initialStateIn (flagged s) (files s))"
proof -
  from assms have run: "seedLoop fuel (map fst fs) (initialStateIn realm fs) = Some s"
    and own: "map_of fs ''hasOwnProperty'' = None"
    by (auto simp: processFilesIn_def split: if_splits)
  have keys: "map fst (files s) = map fst fs"
    using ext_keys[OF seedLoop_ext[OF run ext_refl]] by (simp add: initialStateIn_def)
  have own': "map_of (files s) ''hasOwnProperty'' = None"
    using own keys by (metis map_of_eq_None_iff set_map)
  have "seedsDone (map fst fs) s" by (rule seedLoop_seedsDone[OF run])
  then have "seedsDone (map fst (files s)) (initialStateIn (flagged s) (files s))"
    unfolding keys seedsDone_again .
  from seedLoop_again[OF this] own' show ?thesis by (simp add: processFilesIn_def)
qed

theorem second_run_empty_witness:
  "processFiles 5 missingBaseDocs = Some missingBaseRun
   \<and> types missingBaseRun = [0, 1]
   \<and> length (errors missingBaseRun) = 1
   \<and> flagged missingBaseRun = []
   \<and> processFiles (Suc 0) (files missingBaseRun) = Some (initialState (files missingBaseRun))"
proof -
  have h: "processFilesIn [] 5 missingBaseDocs = Some missingBaseRun"
    unfolding missingBaseRun_def processFiles_def by code_simp
  have t: "types missingBaseRun = [0, 1]"
    unfolding missingBaseRun_def by code_simp
  have e: "length (errors missingBaseRun) = 1"
    unfolding missingBaseRun_def by code_simp
  have f: "flagged missingBaseRun = []"
    unfolding missingBaseRun_def by code_simp
  from second_run_empty[OF h, of 0] h t e f show ?thesis
    by (simp add: processFiles_def initialState_def)
qed

text \<open>
  Claim C8, as stated, fails: the first run on the example map yields two nodes and one
  error, the second run on the same map yields neither.
\<close>

theorem second_run_differs:
  "map_option results (processFiles 5 missingBaseDocs) \<noteq> map_option results (secondRun 5 missingBaseDocs)"
  by code_simp

section \<open>The wildcard type option\<close>

text \<open>
  The loop of \<^verbatim>\<open>getTypeReferences\<close> runs over the array that the variable \<^verbatim>\<open>typeElements\<close>
  held when the loop began; what is assigned to the variable inside the loop is never read.
\<close>

lemma typeReferencesLoop_variable_fun:
  "typeReferencesLoop rf ts typeElements = typeReferencesLoop rf ts []"
proof (induction ts arbitrary: typeElements)
  case Nil
  show ?case by (intro ext) simp
next
  case (Cons t ts)
  show ?case
  proof (intro ext)
    fix result s
    show "typeReferencesLoop rf (t # ts) typeElements result s = typeReferencesLoop rf (t # ts) [] result s"
    proof (cases "et_code t = ''*''")
      case True
      then show ?thesis
        using Cons.IH[of "typeElements @ openTypeElement"] Cons.IH[of "openTypeElement"]
        by simp
    next
      case False
      then show ?thesis
        by (simp add: Let_def Cons.IH[of typeElements] cong: option.case_cong)
    qed
  qed
qed

lemma typeReferencesLoop_variable:
  "typeReferencesLoop rf ts typeElements result s = typeReferencesLoop rf ts [] result s"
  using typeReferencesLoop_variable_fun[of rf ts typeElements] by simp

text \<open>
  Claim C7, as the code has it. A wildcard option contributes no type reference: the loop
  goes on with the options after it as if it had not been there, so a type list that holds
  only the wildcard resolves to the empty list of references, not to the twenty-five open
  types. On the example map, \<^verbatim>\<open>Observation.value[x]\<close> with the single option \<^verbatim>\<open>*\<close> gives the
  resource no property at all, and no error.
\<close>

theorem wildcard_not_expanded:
  "getTypeReferences rf (Some [\<lparr>et_code = ''*'', et_profile = p\<rparr>]) s = Some (Some [], s)
   \<and> typeReferencesLoop rf (\<lparr>et_code = ''*'', et_profile = p\<rparr> # rest) typeElements result s
       = typeReferencesLoop rf rest [] result s
   \<and> map_option results (processFiles 5 (polymorphicDocs ''Observation.value[x]'' [typeOption ''*'']))
       = Some ([Some ((createInterfaceType ''Observation'' CatResource)\<lparr>t_properties := Some []\<rparr>)], [])"
proof -
  have a: "getTypeReferences rf (Some [\<lparr>et_code = ''*'', et_profile = p\<rparr>]) s = Some (Some [], s)"
    by (simp add: getTypeReferences_def)
  have b: "typeReferencesLoop rf (\<lparr>et_code = ''*'', et_profile = p\<rparr> # rest) typeElements result s
       = typeReferencesLoop rf rest [] result s"
    using typeReferencesLoop_variable[of rf rest "typeElements @ openTypeElement" result s] by simp
  have c: "map_option results (processFiles 5 (polymorphicDocs ''Observation.value[x]'' [typeOption ''*'']))
       = Some ([Some ((createInterfaceType ''Observation'' CatResource)\<lparr>t_properties := Some []\<rparr>)], [])"
    by code_simp
  from a b c show ?thesis by blast
qed

section \<open>Looking up a value set by its address\<close>

lemma str_split_nonempty: "str_split sep xs \<noteq> []"
  by (induction xs) (auto split: list.splits)

lemma str_split_no_sep: "sep \<notin> set seg \<Longrightarrow> str_split sep seg = [seg]"
  by (induction seg) auto

lemma str_split_append:
  "sep \<notin> set seg \<Longrightarrow> str_split sep (pre @ sep # seg) = str_split sep pre @ [seg]"
proof (induction pre)
  case Nil
  then show ?case by (simp add: str_split_no_sep)
next
  case (Cons c pre)
  then show ?case
    using str_split_nonempty[of sep pre]
    by (cases "str_split sep pre") auto
qed

lemma str_join_Cons: "ws \<noteq> [] \<Longrightarrow> str_join sep (w # ws) = w @ sep @ str_join sep ws"
  by (cases ws) auto

lemma str_join_split: "str_join [sep] (str_split sep xs) = xs"
proof (induction xs)
  case Nil
  show ?case by simp
next
  case (Cons c xs)
  show ?case
  proof (cases "c = sep")
    case True
    then show ?thesis
      using Cons.IH str_split_nonempty[of sep xs] by (simp add: str_join_Cons)
  next
    case False
    obtain w ws where sp: "str_split sep xs = w # ws"
      using str_split_nonempty[of sep xs] by (cases "str_split sep xs") auto
    show ?thesis
      using False Cons.IH sp by (cases ws) auto
  qed
qed

lemma str_join_append:
  "ws \<noteq> [] \<Longrightarrow> str_join sep (ws @ [a, b]) = str_join sep ws @ sep @ a @ sep @ b"
proof (induction ws)
  case Nil
  then show ?case by simp
next
  case (Cons w ws)
  show ?case
  proof (cases ws)
    case Nil
    then show ?thesis by simp
  next
    case (Cons v vs)
    then show ?thesis
      using Cons.IH by simp
  qed
qed

lemma vs_key:
  assumes "CHR ''/'' \<notin> set seg"
  shows "str_join ''/'' (take (length (str_split CHR ''/'' (pre @ ''/'' @ seg)) - 1)
                               (str_split CHR ''/'' (pre @ ''/'' @ seg))
                         @ [''vs'']
                         @ drop (length (str_split CHR ''/'' (pre @ ''/'' @ seg)) - 1)
                                (str_split CHR ''/'' (pre @ ''/'' @ seg)))
         = pre @ ''/vs/'' @ seg"
  using str_split_append[OF assms, of pre] str_split_nonempty[of "CHR ''/''" pre]
        str_join_append[of "str_split CHR ''/'' pre" "''/''" "''vs''" seg]
        str_join_split[of "CHR ''/''" pre]
  by simp

text \<open>
  Claim C9. The one bad address is looked up as its replacement. Every other address that
  ends in a segment \<open>seg\<close> after a last \<^verbatim>\<open>/\<close> is looked up as it is; when the document map
  has no such key, the address with the segment \<^verbatim>\<open>vs\<close> put before \<open>seg\<close> is looked up, once, and
  the outcome of that second lookup, found or not, is the result. An address without any
  \<^verbatim>\<open>/\<close> is its own last segment, and the second lookup is for \<^verbatim>\<open>vs/\<close> followed by it.
\<close>

theorem value_set_lookup:
  assumes "CHR ''/'' \<notin> set seg"
    and "pre @ ''/'' @ seg \<noteq> ''http://build.fhir.org/valueset-request-intent.html''"
  shows "getValueSetFile s ''http://build.fhir.org/valueset-request-intent.html''
           = getValueSetFile s ''http://hl7.org/fhir/ValueSet/request-intent''
         \<and> getValueSetFile s (pre @ ''/'' @ seg)
           = (if lookupFile s (pre @ ''/'' @ seg) \<noteq> None then Some (pre @ ''/'' @ seg)
              else if lookupFile s (pre @ ''/vs/'' @ seg) \<noteq> None then Some (pre @ ''/vs/'' @ seg)
              else None)
         \<and> getValueSetFile s seg
           = (if lookupFile s seg \<noteq> None then Some seg
              else if lookupFile s (''vs/'' @ seg) \<noteq> None then Some (''vs/'' @ seg)
              else None)"
proof -
  have a: "getValueSetFile s ''http://build.fhir.org/valueset-request-intent.html''
           = getValueSetFile s ''http://hl7.org/fhir/ValueSet/request-intent''"
    by (simp add: getValueSetFile_def)
  have b: "getValueSetFile s (pre @ ''/'' @ seg)
           = (if lookupFile s (pre @ ''/'' @ seg) \<noteq> None then Some (pre @ ''/'' @ seg)
              else if lookupFile s (pre @ ''/vs/'' @ seg) \<noteq> None then Some (pre @ ''/vs/'' @ seg)
              else None)"
    using assms(2) vs_key[OF assms(1), of pre]
    by (auto simp: getValueSetFile_def Let_def split: option.splits)
  have "CHR ''/'' \<in> set ''http://build.fhir.org/valueset-request-intent.html''"
    by simp
  then have n: "seg \<noteq> ''http://build.fhir.org/valueset-request-intent.html''"
    using assms(1) by metis
  have c: "getValueSetFile s seg
           = (if lookupFile s seg \<noteq> None then Some seg
              else if lookupFile s (''vs/'' @ seg) \<noteq> None then Some (''vs/'' @ seg)
              else None)"
    using n str_split_no_sep[OF assms(1)]
    by (auto simp: getValueSetFile_def Let_def split: option.splits)
  from a b c show ?thesis by blast
qed

text \<open>
  The theorem at a map whose only value set is filed under the address with \<^verbatim>\<open>vs\<close>: the
  lookup of the address without it finds that document, and a lookup of another name finds
  none.
\<close>

theorem value_set_lookup_witness:
  "CHR ''/'' \<notin> set ''status''
   \<and> lookupFile (initialState filedUnderVs)
        ''http://hl7.org/fhir/ValueSet/status'' = None
   \<and> getValueSetFile (initialState filedUnderVs)
        ''http://hl7.org/fhir/ValueSet/status'' = Some ''http://hl7.org/fhir/ValueSet/vs/status''
   \<and> getValueSetFile (initialState filedUnderVs)
        ''status'' = None"
proof -
  let ?s = "initialState filedUnderVs"
  have h1: "CHR ''/'' \<notin> set ''status''" by simp
  have h2: "''http://hl7.org/fhir/ValueSet'' @ ''/'' @ ''status''
            \<noteq> ''http://build.fhir.org/valueset-request-intent.html''" by simp
  have l1: "lookupFile ?s (''http://hl7.org/fhir/ValueSet'' @ ''/'' @ ''status'') = None" by code_simp
  have l2: "lookupFile ?s (''http://hl7.org/fhir/ValueSet'' @ ''/vs/'' @ ''status'') \<noteq> None" by code_simp
  have l3: "lookupFile ?s ''status'' = None" by code_simp
  have l4: "lookupFile ?s (''vs/'' @ ''status'') = None" by code_simp
  note t = value_set_lookup[OF h1 h2, of ?s]
  have t1: "getValueSetFile ?s (''http://hl7.org/fhir/ValueSet'' @ ''/'' @ ''status'')
            = Some (''http://hl7.org/fhir/ValueSet'' @ ''/vs/'' @ ''status'')"
    using t l1 l2 by presburger
  have t2: "getValueSetFile ?s ''status'' = None"
    using t l3 l4 by presburger
  from h1 l1 t1 t2 show ?thesis by simp
qed

section \<open>A base type without a document\<close>

lemma lookupFile_cong:
  "files s' = files s \<Longrightarrow> flagged s' = flagged s \<Longrightarrow> lookupFile s' k = lookupFile s k"
  unfolding lookupFile_def inheritedNames_def polluted_def by metis

lemma lookupFile_simps [simp]:
  "lookupFile (s\<lparr>currentFile := c\<rparr>) k = lookupFile s k"
  "lookupFile (s\<lparr>errors := e\<rparr>) k = lookupFile s k"
  "lookupFile (s\<lparr>theap := h\<rparr>) k = lookupFile s k"
  "lookupFile (s\<lparr>types := ts\<rparr>) k = lookupFile s k"
  "lookupFile (s\<lparr>typesByName := ix\<rparr>) k = lookupFile s k"
  "lookupFile (s\<lparr>entered := en\<rparr>) k = lookupFile s k"
  by (rule lookupFile_cong; simp)+

lemma lookupFile_updType [simp]: "lookupFile (updType a g s) k = lookupFile s k"
  by (simp add: updType_def)

lemma updFile_fields [simp]:
  "flagged (updFile k g s) = flagged s"
  "entered (updFile k g s) = entered s"
  "currentFile (updFile k g s) = currentFile s"
  "theap (updFile k g s) = theap s"
  "mheap (updFile k g s) = mheap s"
  "aheap (updFile k g s) = aheap s"
  "errors (updFile k g s) = errors s"
  "types (updFile k g s) = types s"
  "typesByName (updFile k g s) = typesByName s"
  by (simp_all add: updFile_def)

lemma lookupFile_updFile_None:
  "lookupFile s k' = None \<Longrightarrow> lookupFile (updFile k g s) k' = None"
  by (auto simp: lookupFile_def files_updFile inheritedNames_def polluted_def split: option.splits if_splits)

lemma base_length: "length ''http://hl7.org/fhir/StructureDefinition/'' = 40"
  by simp

lemma getResourceNameFromProfile_found:
  "str_indexOf b ''http://hl7.org/fhir/StructureDefinition/'' = Some j
   \<Longrightarrow> getResourceNameFromProfile b s = (Some (drop 40 b), s)"
  unfolding getResourceNameFromProfile_def Let_def base_length by simp

lemma processTypeDefinition_missing_base:
  assumes "sd_id d = Some i" "i \<noteq> []"
    and "sd_baseDefinition d = Some b"
    and "str_indexOf b ''http://hl7.org/fhir/StructureDefinition/'' = Some j"
    and "drop 40 b = nm" "nm \<noteq> []"
    and "lookupFile s nm = None"
  shows "processTypeDefinition fuel rf k doc d s
         = Some (addError (''Unknown base type '' @ [CHR 0x27] @ nm @ [CHR 0x27] @ ''.'')
                   (updType (length (theap s)) (\<lambda>t. t\<lparr>t_baseType := Some nm\<rparr>)
                      (updFile k (\<lambda>f. f\<lparr>ftype := Some (length (theap s))\<rparr>)
                         (snd (newType (createInterfaceType i
                                         (if isResourceDefinition doc then CatResource else CatDataType)) s)))))"
  using assms
  by (simp add: processTypeDefinition_def truthy_def fmt_def Let_def newType_def
        getResourceNameFromProfile_found lookupFile_updFile_None del: append.simps)

lemma processStructureDefinition_missing_base:
  assumes "sd_kind d = Some ''resource''
           \<or> (sd_kind d \<in> set (map Some [''constraint'', ''datatype'', ''type'', ''complex-type'', ''primitive-type''])
               \<and> \<not> isPrimitive d)"
    and "sd_id d = Some i" "i \<noteq> []"
    and "sd_baseDefinition d = Some b"
    and "str_indexOf b ''http://hl7.org/fhir/StructureDefinition/'' = Some j"
    and "drop 40 b = nm" "nm \<noteq> []"
    and "lookupFile s nm = None"
  shows "processStructureDefinition fuel rf k doc d s
         = Some (addError (''Unknown base type '' @ [CHR 0x27] @ nm @ [CHR 0x27] @ ''.'')
                   (updType (length (theap s)) (\<lambda>t. t\<lparr>t_baseType := Some nm\<rparr>)
                      (updFile k (\<lambda>f. f\<lparr>ftype := Some (length (theap s))\<rparr>)
                         (snd (newType (createInterfaceType i
                                         (if isResourceDefinition doc then CatResource else CatDataType)) s)))))"
  using assms(1) processTypeDefinition_missing_base[OF assms(2-8), of fuel rf k doc]
  by (auto simp: processStructureDefinition_def processResource_def processType_def)

text \<open>
  Claim C1, as the code has it. A structure definition (a resource, or a type that is not a
  primitive) that has not been visited, has an id \<open>i\<close> for which the index finds nothing, and
  whose \<^verbatim>\<open>baseDefinition\<close> resolves to a non-empty name \<open>nm\<close> for which the document map finds
  nothing, neither a document nor a value that every object inherits: \<^verbatim>\<open>referenceFile\<close>
  returns, appends exactly one error, which is prefixed with the filename and contains \<open>nm\<close>,
  and the node created for the document before the base type was looked up is kept: it is
  appended to the output list and entered in the index, with \<open>nm\<close> as its base type and no
  properties. Only the document itself changes (its flags and its type); every other
  document, the inherited values, the current-document cursor and the enum members are as
  before, and the sweep over the seeds goes on with the next seed from that state.
\<close>

theorem missing_base_type:
  assumes "map_of (files s) k = Some doc"
    and "\<not> isReferenced s k" "\<not> queued doc" "\<not> processed doc"
    and "content doc = Some (StructureDefinitionR d)"
    and "sd_kind d = Some ''resource''
         \<or> (sd_kind d \<in> set (map Some [''constraint'', ''datatype'', ''type'', ''complex-type'', ''primitive-type''])
             \<and> \<not> isPrimitive d)"
    and "sd_id d = Some i" "i \<noteq> []"
    and "sd_baseDefinition d = Some b"
    and "str_indexOf b ''http://hl7.org/fhir/StructureDefinition/'' = Some j"
    and "drop 40 b = nm" "nm \<noteq> []"
    and "lookupFile s nm = None"
    and "lookupType s i = None"
  shows "\<exists>s'. referenceFile (Suc (Suc fuel)) k s = Some s'
           \<and> errors s' = errors s @ [filename doc @ '': '' @ ''Unknown base type '' @ [CHR 0x27] @ nm @ [CHR 0x27] @ ''.'']
           \<and> types s' = types s @ [length (theap s)]
           \<and> theap s' = theap s @ [(createInterfaceType i (if isResourceDefinition doc then CatResource else CatDataType))
                                      \<lparr>t_baseType := Some nm\<rparr>]
           \<and> typesByName s' = typesByName s @ [(i, length (theap s))]
           \<and> map_of (files s') k = Some (doc\<lparr>referenced := Some True, queued := True, processed := True,
                                              ftype := Some (length (theap s))\<rparr>)
           \<and> (\<forall>k'. k' \<noteq> k \<longrightarrow> map_of (files s') k' = map_of (files s) k')
           \<and> map fst (files s') = map fst (files s)
           \<and> flagged s' = flagged s \<and> entered s' = entered s @ [k]
           \<and> currentFile s' = currentFile s \<and> mheap s' = mheap s \<and> aheap s' = aheap s
           \<and> (isResourceDefinition doc \<and> \<not> isConstrainedType doc
                \<longrightarrow> seedLoop (Suc (Suc fuel)) (k # rest) s = seedLoop (Suc (Suc fuel)) rest s')"
proof -
  let ?s0 = "updFile k (\<lambda>f. f\<lparr>referenced := Some True\<rparr>) s"
  let ?doc0 = "doc\<lparr>referenced := Some True\<rparr>"
  let ?s2 = "((updFile k (\<lambda>f. f\<lparr>queued := True\<rparr>) ?s0)\<lparr>entered := entered s @ [k]\<rparr>)\<lparr>currentFile := Some (filename doc)\<rparr>"
  let ?n = "length (theap s)"
  let ?t = "(createInterfaceType i (if isResourceDefinition doc then CatResource else CatDataType))\<lparr>t_baseType := Some nm\<rparr>"
  let ?msg = "''Unknown base type '' @ [CHR 0x27] @ nm @ [CHR 0x27] @ ''.''"
  let ?s3 = "addError ?msg
               (updType ?n (\<lambda>t. t\<lparr>t_baseType := Some nm\<rparr>)
                  (updFile k (\<lambda>f. f\<lparr>ftype := Some ?n\<rparr>)
                     (snd (newType (createInterfaceType i
                             (if isResourceDefinition ?doc0 then CatResource else CatDataType)) ?s2))))"
  define s4 where "s4 = (updFile k (\<lambda>f. f\<lparr>processed := True\<rparr>) ?s3)\<lparr>currentFile := currentFile s\<rparr>"
  define s5 where "s5 = addTypeToResults ?n s4"
  have sr: "setReferenced k s = ?s0"
    using assms(1) by (simp add: setReferenced_def)
  have lk: "lookupFile s k = Some (Document doc)"
    using assms(1) by (simp add: lookupFile_def)
  have l0: "lookupFile ?s0 k = Some (Document ?doc0)"
    using assms(1) by (simp add: lookupFile_def files_updFile)
  have ab: "lookupFile ?s2 nm = None"
    using assms(13) by (simp add: lookupFile_updFile_None)
  note p = processStructureDefinition_missing_base[OF assms(6-12) ab, of fuel "visit fuel True" k ?doc0]
  have pf: "processFile (Suc fuel) k ?s0 = Some s4"
    unfolding s4_def using l0 assms(3-5) p
    by (simp add: processFile_def processFile_body_def Let_def)
  have ft: "fileType s4 k = Some ?n"
    unfolding s4_def using assms(1)
    by (simp add: fileType_def files_updFile addError_def updType_def newType_def Let_def)
  have rf: "referenceFile (Suc (Suc fuel)) k s = Some s5"
    unfolding s5_def using lk assms(2) pf ft
    by (simp add: referenceFile_def referenceFile_body_def processFile_def sr)
  have rd: "isResourceDefinition ?doc0 = isResourceDefinition doc"
    by (simp add: isResourceDefinition_def)
  have hp: "theap s4 = theap s @ [?t]"
    unfolding s4_def
    by (simp add: addError_def updType_def newType_def updFile_def Let_def rd createInterfaceType_def)
  have ix: "typesByName s4 = typesByName s" "flagged s4 = flagged s" "types s4 = types s"
    "errors s4 = errors s @ [filename doc @ '': '' @ ?msg]" "currentFile s4 = currentFile s"
    "mheap s4 = mheap s" "aheap s4 = aheap s" "entered s4 = entered s @ [k]"
    unfolding s4_def
    by (simp_all add: addError_def updType_def newType_def updFile_def Let_def)
  have fl: "map_of (files s4) k' = (if k' = k then Some (doc\<lparr>referenced := Some True, queued := True, processed := True,
                                              ftype := Some ?n\<rparr>) else map_of (files s) k')" for k'
    unfolding s4_def using assms(1)
    by (simp add: files_updFile addError_def updType_def newType_def Let_def)
  have ks: "map fst (files s4) = map fst (files s)"
    unfolding s4_def
    by (simp add: addError_def updType_def newType_def updFile_def Let_def)
  have lt: "lookupType s4 i = None"
    using assms(14) unfolding lookupType_def inheritedNames_def polluted_def ix by simp
  have nm: "Option.bind (typeAt s4 ?n) t_name = Some i"
    by (simp add: typeAt_def hp createInterfaceType_def)
  have s5: "s5 = s4\<lparr>typesByName := typesByName s @ [(i, ?n)], types := types s @ [?n]\<rparr>"
    unfolding s5_def using assms(8) by (simp add: addTypeToResults_def nm lt ix Let_def)
  have seed: "isResourceDefinition doc \<and> \<not> isConstrainedType doc
                \<longrightarrow> seedLoop (Suc (Suc fuel)) (k # rest) s = seedLoop (Suc (Suc fuel)) rest s5"
    using assms(1) rf by simp
  have c1: "errors s5 = errors s @ [filename doc @ '': '' @ ?msg]"
    unfolding s5 by (simp add: ix)
  have c2: "types s5 = types s @ [?n]" "typesByName s5 = typesByName s @ [(i, ?n)]"
    unfolding s5 by simp_all
  have c3: "theap s5 = theap s @ [?t]"
    unfolding s5 by (simp add: hp)
  have c4: "map_of (files s5) k = Some (doc\<lparr>referenced := Some True, queued := True, processed := True,
                                              ftype := Some ?n\<rparr>)"
    "\<forall>k'. k' \<noteq> k \<longrightarrow> map_of (files s5) k' = map_of (files s) k'"
    "map fst (files s5) = map fst (files s)"
    unfolding s5 by (simp_all add: fl ks)
  have c5: "flagged s5 = flagged s" "entered s5 = entered s @ [k]" "currentFile s5 = currentFile s"
    "mheap s5 = mheap s" "aheap s5 = aheap s"
    unfolding s5 by (simp_all add: ix)
  show ?thesis
    using rf c1 c2 c3 c4 c5 seed by (intro exI[of _ s5]) blast
qed

text \<open>
  The theorem at the first document of the example map: resource \<open>A\<close> with base type \<open>B\<close>, which
  has no document; document \<open>C\<close> is untouched by the visit of \<open>A\<close>, and it is the next seed.
\<close>

theorem missing_base_type_witness:
  "map_of (files (initialState missingBaseDocs)) ''A'' = Some (snd (missingBaseDocs ! 0))
   \<and> lookupFile (initialState missingBaseDocs) ''B'' = None
   \<and> (\<exists>s'. referenceFile 2 ''A'' (initialState missingBaseDocs) = Some s'
         \<and> errors s' = [''a.profile.json: Unknown base type '' @ [CHR 0x27] @ ''B'' @ [CHR 0x27] @ ''.'']
         \<and> types s' = [0]
         \<and> theap s' = [(createInterfaceType ''A'' CatResource)\<lparr>t_baseType := Some ''B''\<rparr>]
         \<and> typesByName s' = [(''A'', 0)]
         \<and> map_of (files s') ''C'' = map_of (files (initialState missingBaseDocs)) ''C''
         \<and> entered s' = [''A'']
         \<and> seedLoop 2 [''A'', ''C''] (initialState missingBaseDocs) = seedLoop 2 [''C''] s')"
proof -
  let ?s = "initialState missingBaseDocs"
  let ?doc = "snd (missingBaseDocs ! 0)"
  let ?d = "\<lparr>sd_id = Some ''A'', sd_name = None, sd_kind = Some ''resource'', sd_derivation = None,
             sd_copyright = None, sd_baseDefinition = Some ''http://hl7.org/fhir/StructureDefinition/B'',
             sd_differential = Some []\<rparr>"
  have h1: "map_of (files ?s) ''A'' = Some ?doc" by code_simp
  have h2: "\<not> isReferenced ?s ''A''" "\<not> queued ?doc" "\<not> processed ?doc" by code_simp+
  have h3: "content ?doc = Some (StructureDefinitionR ?d)" by code_simp
  have h4: "sd_kind ?d = Some ''resource''
         \<or> (sd_kind ?d \<in> set (map Some [''constraint'', ''datatype'', ''type'', ''complex-type'', ''primitive-type''])
             \<and> \<not> isPrimitive ?d)" by simp
  have h5: "sd_id ?d = Some ''A''" "''A'' \<noteq> []" by simp_all
  have h6: "sd_baseDefinition ?d = Some ''http://hl7.org/fhir/StructureDefinition/B''" by simp
  have h7: "str_indexOf ''http://hl7.org/fhir/StructureDefinition/B'' ''http://hl7.org/fhir/StructureDefinition/'' = Some 0"
    by code_simp
  have h8: "drop 40 ''http://hl7.org/fhir/StructureDefinition/B'' = ''B''" "''B'' \<noteq> []" by simp_all
  have h9: "lookupFile ?s ''B'' = None" by code_simp
  have h10: "lookupType ?s ''A'' = None" by code_simp
  have e1: "errors ?s = []" "types ?s = []" "theap ?s = []" "typesByName ?s = []" "entered ?s = []" by code_simp+
  have e2: "filename ?doc = ''a.profile.json''" "isResourceDefinition ?doc" "\<not> isConstrainedType ?doc" by code_simp+
  note t = missing_base_type[OF h1 h2 h3 h4 h5 h6 h7 h8 h9 h10, of 0 "[''C'']"]
  have t': "\<exists>s'. referenceFile 2 ''A'' ?s = Some s'
         \<and> errors s' = [''a.profile.json: Unknown base type '' @ [CHR 0x27] @ ''B'' @ [CHR 0x27] @ ''.'']
         \<and> types s' = [0]
         \<and> theap s' = [(createInterfaceType ''A'' CatResource)\<lparr>t_baseType := Some ''B''\<rparr>]
         \<and> typesByName s' = [(''A'', 0)]
         \<and> map_of (files s') ''C'' = map_of (files ?s) ''C''
         \<and> entered s' = [''A'']
         \<and> seedLoop 2 [''A'', ''C''] ?s = seedLoop 2 [''C''] s'"
    using t e2(2,3) by (auto simp: e1 e2(1) numeral_2_eq_2)
  from h1 h9 t' show ?thesis by blast
qed

text \<open>
  The whole run on the example map: the output list has the node of \<open>A\<close>, next to the node of
  the unrelated resource \<open>C\<close>, and the only error is the one for the base type of \<open>A\<close>.
\<close>

theorem missing_base_node:
  "map_option results (processFiles 5 missingBaseDocs)
   = Some ([Some ((createInterfaceType ''A'' CatResource)\<lparr>t_baseType := Some ''B''\<rparr>),
            Some (createInterfaceType ''C'' CatResource)],
           [''a.profile.json: Unknown base type '' @ [CHR 0x27] @ ''B'' @ [CHR 0x27] @ ''.''])"
  by code_simp

text \<open>
  A base-type name that is no key of the map and still found in it: every object inherits a
  property \<^verbatim>\<open>constructor\<close>, so the lookup of this name does not fail, and the run records no
  error for it.
\<close>

lemma inherited_base_name:
  "lookupFile (initialState inheritedBaseDocs) ''constructor'' = Some Inherited
   \<and> map_of inheritedBaseDocs ''constructor'' = None
   \<and> map_option errors (processFiles 5 inheritedBaseDocs) = Some []
   \<and> map_option flagged (processFiles 5 inheritedBaseDocs) = Some [''constructor'']"
  by code_simp

section \<open>Names of enum members\<close>

lemma digitsOf_nonempty: "digitsOf n \<noteq> []"
  by (subst digitsOf.simps) simp

lemma digit_inj: "n < 10 \<Longrightarrow> m < 10 \<Longrightarrow> digitChars ! n = digitChars ! m \<Longrightarrow> n = m"
proof -
  have "distinct digitChars" by (simp add: digitChars_def)
  moreover have "length digitChars = 10" by (simp add: digitChars_def)
  ultimately show "n < 10 \<Longrightarrow> m < 10 \<Longrightarrow> digitChars ! n = digitChars ! m \<Longrightarrow> n = m"
    by (simp add: nth_eq_iff_index_eq)
qed

lemma digitsOf_inj: "digitsOf n = digitsOf m \<Longrightarrow> n = m"
proof (induction n arbitrary: m rule: digitsOf.induct)
  case (1 n)
  show ?case
  proof (cases "n < 10")
    case True
    note n = this
    show ?thesis
    proof (cases "m < 10")
      case True
      with n "1.prems" show ?thesis
        by (simp add: digitsOf.simps[of n] digitsOf.simps[of m] digit_inj)
    next
      case False
      with n "1.prems" digitsOf_nonempty[of "m div 10"] show ?thesis
        by (simp add: digitsOf.simps[of n] digitsOf.simps[of m])
    qed
  next
    case False
    note n = this
    show ?thesis
    proof (cases "m < 10")
      case True
      with n "1.prems" digitsOf_nonempty[of "n div 10"] show ?thesis
        by (simp add: digitsOf.simps[of n] digitsOf.simps[of m])
    next
      case False
      with n "1.prems" have e: "digitsOf (n div 10) = digitsOf (m div 10)"
        and l: "digitChars ! (n mod 10) = digitChars ! (m mod 10)"
        by (simp_all add: digitsOf.simps[of n] digitsOf.simps[of m])
      have d: "n div 10 = m div 10" using "1.IH"[OF n e] .
      have r: "n mod 10 = m mod 10" using l by (simp add: digit_inj)
      show ?thesis using d r by (metis div_mult_mod_eq)
    qed
  qed
qed

lemma suffixed_inj: "suffixed orig j = suffixed orig k \<Longrightarrow> j = k"
  by (simp add: suffixed_def digitsOf_inj)

lemma setName_twice: "setName a n (setName a n' s) = setName a n s"
  by (simp add: setName_def updMember_def)

lemma arrayAt_setName [simp]: "arrayAt (setName a n s) members = arrayAt s members"
  by (simp add: setName_def updMember_def arrayAt_def)

lemma length_mheap_setName [simp]: "length (mheap (setName a n s)) = length (mheap s)"
  by (simp add: setName_def updMember_def)

lemma memberName_setName_other: "x \<noteq> a \<Longrightarrow> memberName (setName a n s) x = memberName s x"
  by (simp add: setName_def updMember_def memberName_def memberAt_def)

lemma memberName_setName_self: "a < length (mheap s) \<Longrightarrow> memberName (setName a n s) a = n"
  by (simp add: setName_def updMember_def memberName_def memberAt_def)

lemma listNames_setName: "a \<notin> set (arrayAt s members) \<Longrightarrow> listNames (setName a n s) members = listNames s members"
  by (auto simp: listNames_def intro!: memberName_setName_other)

lemma getDuplicate_names:
  "getDuplicate s a members = None \<longleftrightarrow> memberName s a \<notin> set (listNames s members)"
proof -
  have "getDuplicate s a members = None
        \<longleftrightarrow> (\<forall>x\<in>set (arrayAt s members). memberName s x \<noteq> memberName s a)"
    by (auto simp: getDuplicate_def find_None_iff)
  also have "\<dots> \<longleftrightarrow> memberName s a \<notin> memberName s ` set (arrayAt s members)"
    by (auto simp: image_iff eq_commute[of "memberName s a"])
  finally show ?thesis by (simp add: listNames_def)
qed

lemma getDuplicate_setName:
  assumes "a < length (mheap s)" "a \<notin> set (arrayAt s members)"
  shows "getDuplicate (setName a n s) a members = None \<longleftrightarrow> n \<notin> set (listNames s members)"
  using assms by (simp add: getDuplicate_names listNames_setName memberName_setName_self)

lemma suffixLoop_Suc:
  "suffixLoop (Suc fuel) orig num a members s
   = (if getDuplicate (setName a (Some (suffixed orig num)) s) a members = None
      then Some (True, setName a (Some (suffixed orig num)) s)
      else suffixLoop fuel orig (Suc num) a members (setName a (Some (suffixed orig num)) s))"
  by (simp add: setName_def suffixed_def Let_def)

lemma suffixLoop_first:
  assumes "a < length (mheap s)" "a \<notin> set (arrayAt s members)"
    and "\<forall>j. num \<le> j \<and> j < k \<longrightarrow> Some (suffixed orig j) \<in> set (listNames s members)"
    and "Some (suffixed orig k) \<notin> set (listNames s members)"
    and "num \<le> k" "k < num + fuel"
  shows "suffixLoop fuel orig num a members s = Some (True, setName a (Some (suffixed orig k)) s)"
  using assms
proof (induction fuel arbitrary: num s)
  case 0
  then show ?case by simp
next
  case (Suc fuel)
  let ?s1 = "setName a (Some (suffixed orig num)) s"
  show ?case
  proof (cases "num = k")
    case True
    then show ?thesis
      using Suc.prems getDuplicate_setName[OF Suc.prems(1,2), of "Some (suffixed orig k)"]
      by (simp add: suffixLoop_Suc del: suffixLoop.simps)
  next
    case False
    then have t: "Some (suffixed orig num) \<in> set (listNames s members)"
      using Suc.prems by auto
    have r: "suffixLoop fuel orig (Suc num) a members ?s1 = Some (True, setName a (Some (suffixed orig k)) ?s1)"
      using Suc.prems False
      by (intro Suc.IH) (auto simp: listNames_setName)
    have nd: "getDuplicate ?s1 a members \<noteq> None"
      using t getDuplicate_setName[OF Suc.prems(1,2), of "Some (suffixed orig num)"] by simp
    show ?thesis
      using r nd by (auto simp: suffixLoop_Suc setName_twice simp del: suffixLoop.simps)
  qed
qed

lemma free_suffix_exists:
  "\<exists>k\<in>{1 ..< length names + 2}. Some (suffixed orig k) \<notin> set names"
proof (rule ccontr)
  assume "\<not> ?thesis"
  then have sub: "(\<lambda>k. Some (suffixed orig k)) ` {1 ..< length names + 2} \<subseteq> set names"
    by auto
  have "inj_on (\<lambda>k. Some (suffixed orig k)) {1 ..< length names + 2}"
    by (auto simp: inj_on_def dest: suffixed_inj)
  then have "card ((\<lambda>k. Some (suffixed orig k)) ` {1 ..< length names + 2}) = length names + 1"
    by (simp add: card_image)
  moreover have "card ((\<lambda>k. Some (suffixed orig k)) ` {1 ..< length names + 2}) \<le> card (set names)"
    using sub by (simp add: card_mono)
  moreover have "card (set names) \<le> length names"
    by (rule card_length)
  ultimately show False by simp
qed

lemma firstFree_props:
  "1 \<le> firstFree names orig \<and> firstFree names orig \<le> length names + 1
   \<and> Some (suffixed orig (firstFree names orig)) \<notin> set names
   \<and> (\<forall>j. 1 \<le> j \<and> j < firstFree names orig \<longrightarrow> Some (suffixed orig j) \<in> set names)"
proof -
  obtain k where f: "find (\<lambda>k. Some (suffixed orig k) \<notin> set names) [1 ..< length names + 2] = Some k"
    using free_suffix_exists[of names orig]
    by (cases "find (\<lambda>k. Some (suffixed orig k) \<notin> set names) [1 ..< length names + 2]")
       (auto simp: find_None_iff simp del: upt_Suc)
  then obtain i where i: "i < length [1 ..< length names + 2]"
      "Some (suffixed orig ([1 ..< length names + 2] ! i)) \<notin> set names"
      "k = [1 ..< length names + 2] ! i"
      "\<forall>j<i. Some (suffixed orig ([1 ..< length names + 2] ! j)) \<in> set names"
    by (auto simp: find_Some_iff)
  have k: "k = 1 + i" using i(1,3) by (simp del: upt_Suc)
  have "\<forall>j. 1 \<le> j \<and> j < k \<longrightarrow> Some (suffixed orig j) \<in> set names"
  proof (intro allI impI)
    fix j assume j: "1 \<le> j \<and> j < k"
    then have "j - 1 < i" using k by auto
    with i(4) have "Some (suffixed orig ([1 ..< length names + 2] ! (j - 1))) \<in> set names" by blast
    moreover have "[1 ..< length names + 2] ! (j - 1) = j" using j k i(1) by (simp del: upt_Suc)
    ultimately show "Some (suffixed orig j) \<in> set names" by simp
  qed
  then show ?thesis
    using f i(1,2) k by (simp add: firstFree_def del: upt_Suc)
qed

lemma suffixLoop_firstFree:
  assumes "a < length (mheap s)" "a \<notin> set (arrayAt s members)" "length (arrayAt s members) < fuel"
  shows "suffixLoop fuel orig 1 a members s
         = Some (True, setName a (Some (suffixed orig (firstFree (listNames s members) orig))) s)"
    and "getDuplicate (setName a (Some (suffixed orig (firstFree (listNames s members) orig))) s) a members = None"
proof -
  note p = firstFree_props[of "listNames s members" orig]
  have l: "length (listNames s members) = length (arrayAt s members)"
    by (simp add: listNames_def)
  show "suffixLoop fuel orig 1 a members s
         = Some (True, setName a (Some (suffixed orig (firstFree (listNames s members) orig))) s)"
    using p assms(3) l by (intro suffixLoop_first[OF assms(1,2)]) auto
  show "getDuplicate (setName a (Some (suffixed orig (firstFree (listNames s members) orig))) s) a members = None"
    using p by (simp add: getDuplicate_setName[OF assms(1,2)])
qed


lemma memberAt_setName_other: "x \<noteq> a \<Longrightarrow> memberAt (setName a n s) x = memberAt s x"
  by (simp add: setName_def updMember_def memberAt_def)

text \<open>
  Claim C3, as the code has it. For a new member that is not itself in the list, a list whose
  members all exist, and fuel above the length of the list, \<^verbatim>\<open>adjustMemberName\<close> returns, and
  whenever it accepts the member no member of the list has its name. In order: with no
  member of its name in the list the member is accepted as it is; when the first member of
  its name is equal to it on all six fields it is refused and nothing changes; otherwise it
  is accepted under a name found as follows. If it has an alternate name, it takes that
  name, and that settles it if the name is free; if not and the first member of the original
  name has an alternate name, that member takes its alternate name, which it then keeps, and
  that settles it if the new member's name is free now. In every other case the new member
  is named by its original name, \<^verbatim>\<open>_\<close> and the first of the numbers 1, 2, ... for which the
  name is free. The alternate name is the formatted code when the code is not empty and does
  not start with a digit, otherwise the formatted description when that is not empty and
  shorter than 56 characters, otherwise there is none.
\<close>

theorem member_name_collisions:
  assumes "memberAt s a = Some am"
    and "a \<notin> set (arrayAt s members)"
    and "\<forall>x\<in>set (arrayAt s members). x < length (mheap s)"
    and "length (arrayAt s members) < fuel"
  shows "getAlternateName am
           = (if m_value am \<noteq> [] \<and> \<not> startsWithNumber (m_value am) then Some (formatName (m_value am))
              else case m_description am of
                     None \<Rightarrow> None
                   | Some description \<Rightarrow>
                       if description \<noteq> [] \<and> length description < 56 then Some (formatName description)
                       else None)
         \<and> (\<exists>ok s'. adjustMemberName fuel a members s = Some (ok, s')
           \<and> (ok \<longrightarrow> getDuplicate s' a members = None)
           \<and> (case getDuplicate s a members of
                 None \<Rightarrow> ok \<and> s' = s
               | Some d \<Rightarrow>
                   if areEnumMembersEqual (mheap s ! d) am then \<not> ok \<and> s' = s
                   else
                     (let originalName = (case m_name am of None \<Rightarrow> ''null'' | Some nm \<Rightarrow> nm);
                          alternate = getAlternateName am;
                          s1 = setName a alternate s;
                          alternate2 = getAlternateName (mheap s ! d);
                          s2 = setName d alternate2 s1;
                          numbered = (\<lambda>sb. setName a (Some (suffixed originalName
                                              (firstFree (listNames sb members) originalName))) sb)
                      in ok \<and> s' = (if \<not> truthy alternate then numbered s
                                     else if getDuplicate s1 a members = None then s1
                                     else if \<not> truthy alternate2 then numbered s1
                                     else if getDuplicate s2 a members = None then s2
                                     else numbered s2))))"
proof -
  have alt: "getAlternateName am
           = (if m_value am \<noteq> [] \<and> \<not> startsWithNumber (m_value am) then Some (formatName (m_value am))
              else case m_description am of
                     None \<Rightarrow> None
                   | Some description \<Rightarrow>
                       if description \<noteq> [] \<and> length description < 56 then Some (formatName description)
                       else None)"
    by (simp add: getAlternateName_def maxNameLength_def Let_def split: option.splits)
  have run: "\<exists>ok s'. adjustMemberName fuel a members s = Some (ok, s')
           \<and> (ok \<longrightarrow> getDuplicate s' a members = None)
           \<and> (case getDuplicate s a members of
                 None \<Rightarrow> ok \<and> s' = s
               | Some d \<Rightarrow>
                   if areEnumMembersEqual (mheap s ! d) am then \<not> ok \<and> s' = s
                   else
                     (let originalName = (case m_name am of None \<Rightarrow> ''null'' | Some nm \<Rightarrow> nm);
                          alternate = getAlternateName am;
                          s1 = setName a alternate s;
                          alternate2 = getAlternateName (mheap s ! d);
                          s2 = setName d alternate2 s1;
                          numbered = (\<lambda>sb. setName a (Some (suffixed originalName
                                              (firstFree (listNames sb members) originalName))) sb)
                      in ok \<and> s' = (if \<not> truthy alternate then numbered s
                                     else if getDuplicate s1 a members = None then s1
                                     else if \<not> truthy alternate2 then numbered s1
                                     else if getDuplicate s2 a members = None then s2
                                     else numbered s2)))"
  proof (cases "getDuplicate s a members")
  case None
  then show ?thesis by (auto simp: adjustMemberName_def)
next
  case (Some d)
  then have dm: "d \<in> set (arrayAt s members)"
    by (auto simp: getDuplicate_def find_Some_iff)
  then have dl: "d < length (mheap s)" and da: "d \<noteq> a"
    using assms(2,3) by auto
  have al: "a < length (mheap s)" and am: "am = mheap s ! a"
    using assms(1) by (auto simp: memberAt_def split: if_splits)
  have md: "memberAt s d = Some (mheap s ! d)"
    using dl by (simp add: memberAt_def)
  define originalName where "originalName = (case m_name am of None \<Rightarrow> ''null'' | Some nm \<Rightarrow> nm)"
  define numbered where "numbered = (\<lambda>sb. setName a (Some (suffixed originalName
                                              (firstFree (listNames sb members) originalName))) sb)"
  define alternate where "alternate = getAlternateName am"
  define s1 where "s1 = setName a alternate s"
  define alternate2 where "alternate2 = getAlternateName (mheap s ! d)"
  define s2 where "s2 = setName d alternate2 s1"
  define t where "t = (if \<not> truthy alternate then numbered s
                       else if getDuplicate s1 a members = None then s1
                       else if \<not> truthy alternate2 then numbered s1
                       else if getDuplicate s2 a members = None then s2
                       else numbered s2)"
  have suf: "suffixLoop fuel originalName 1 a members sb = Some (True, numbered sb)
             \<and> getDuplicate (numbered sb) a members = None"
    if "length (mheap sb) = length (mheap s)" "arrayAt sb members = arrayAt s members" for sb
    using suffixLoop_firstFree[of a sb members fuel originalName] that al assms(2,4)
    by (simp add: numbered_def)
  have suf0: "suffixLoop fuel originalName 1 a members s = Some (True, numbered s)"
             "getDuplicate (numbered s) a members = None"
    using suf[of s] by simp_all
  have suf1: "suffixLoop fuel originalName 1 a members s1 = Some (True, numbered s1)"
             "getDuplicate (numbered s1) a members = None"
    using suf[of s1] by (simp_all add: s1_def)
  have suf2: "suffixLoop fuel originalName 1 a members s2 = Some (True, numbered s2)"
             "getDuplicate (numbered s2) a members = None"
    using suf[of s2] by (simp_all add: s2_def s1_def)
  have md1: "memberAt s1 d = Some (mheap s ! d)"
    using md da by (simp add: s1_def memberAt_setName_other)
  have eq: "adjustMemberName fuel a members s
            = (if areEnumMembersEqual (mheap s ! d) am then Some (False, s)
               else if \<not> truthy alternate then suffixLoop fuel originalName 1 a members s
               else if getDuplicate s1 a members = None then Some (True, s1)
               else if \<not> truthy alternate2 then suffixLoop fuel originalName 1 a members s1
               else if getDuplicate s2 a members = None then Some (True, s2)
               else suffixLoop fuel originalName 1 a members s2)"
    unfolding adjustMemberName_def Some option.case assms(1) md prod.case Let_def
      setName_def[symmetric] alternate_def[symmetric] s1_def[symmetric] md1
      originalName_def[symmetric]
    by (simp add: alternate2_def s2_def)
  have g: "getDuplicate t a members = None"
    using suf0(2) suf1(2) suf2(2) by (simp add: t_def)
  show ?thesis
  proof (cases "areEnumMembersEqual (mheap s ! d) am")
    case True
    then show ?thesis
      by (intro exI[of _ False] exI[of _ s]) (simp add: eq Some)
  next
    case False
    then have r: "adjustMemberName fuel a members s = Some (True, t)"
      using suf0(1) suf1(1) suf2(1) by (simp add: eq t_def)
    show ?thesis
      using False r g
      by (intro exI[of _ True] exI[of _ t])
         (simp add: Some Let_def t_def numbered_def originalName_def alternate_def s1_def
            alternate2_def s2_def)
  qed
qed
  from alt run show ?thesis by blast
qed

text \<open>
  The theorem at a list that holds one member named \<open>Active\<close> of system A, and a new member
  of the same name and code of system B: neither alternate name helps, and the new member is
  accepted as \<open>Active_1\<close>.
\<close>

theorem member_name_collisions_witness:
  "memberAt collisionState 1 = Some (enumMember ''Active'' ''active'' ''http://example.org/B'')
   \<and> arrayAt collisionState 0 = [0]
   \<and> getDuplicate collisionState 1 0 = Some 0
   \<and> adjustMemberName 2 1 0 collisionState = Some (True, setName 1 (Some ''Active_1'') collisionState)
   \<and> getDuplicate (setName 1 (Some ''Active_1'') collisionState) 1 0 = None"
proof -
  have h1: "memberAt collisionState 1 = Some (enumMember ''Active'' ''active'' ''http://example.org/B'')"
    by code_simp
  have h2: "1 \<notin> set (arrayAt collisionState 0)" by code_simp
  have h3: "\<forall>x\<in>set (arrayAt collisionState 0). x < length (mheap collisionState)" by code_simp
  have h4: "length (arrayAt collisionState 0) < 2" by code_simp
  have e1: "arrayAt collisionState 0 = [0]" by code_simp
  have e2: "getDuplicate collisionState 1 0 = Some 0" by code_simp
  have e3: "adjustMemberName 2 1 0 collisionState = Some (True, setName 1 (Some ''Active_1'') collisionState)"
    by code_simp
  note t = member_name_collisions[OF h1 h2 h3 h4]
  have "getDuplicate (setName 1 (Some ''Active_1'') collisionState) 1 0 = None"
    using t unfolding e3 by blast
  with h1 e1 e2 e3 show ?thesis by blast
qed


text \<open>
  The example of claim C3 fails: the names come from the displays, and \<^verbatim>\<open>Active (Other)\<close> is
  formatted to \<open>ActiveOther\<close>, which does not collide with \<open>Active\<close>.
\<close>

theorem display_names_differ:
  "map_option (\<lambda>s. memberNames s ''http://example.org/ValueSet/status'')
     (processFile 5 ''http://example.org/ValueSet/status''
        (initialState (statusValueSet ''Active'' ''Active (Other)'')))
   = Some [Some ''Active'', Some ''ActiveOther'']"
  by code_simp

text \<open>With the display \<open>Active\<close> in both includes the second member is numbered.\<close>

lemma equal_display_names_numbered:
  "map_option (\<lambda>s. memberNames s ''http://example.org/ValueSet/status'')
     (processFile 5 ''http://example.org/ValueSet/status''
        (initialState (statusValueSet ''Active'' ''Active'')))
   = Some [Some ''Active'', Some ''Active_1'']"
  by code_simp

section \<open>The options of a choice element\<close>

lemma polymorphicLoop_first:
  "lastName \<noteq> refName r \<Longrightarrow> polymorphicLoop ct el pn (r # rest) lp lastName s = None"
  by (simp add: addProperty_def)

text \<open>
  What \<^verbatim>\<open>getTypeReferences\<close> returns: one reference, with a name that is not empty, for each
  option that is not the wildcard.
\<close>

lemma typeReferencesLoop_result:
  "typeReferencesLoop rf ts te result s = Some (Some trs, s')
   \<Longrightarrow> \<exists>more. trs = result @ more
          \<and> length more = length (filter (\<lambda>t. et_code t \<noteq> ''*'') ts)
          \<and> (\<forall>r\<in>set more. \<exists>tn b. r = TypeReference (Some tn) b \<and> tn \<noteq> [])"
proof (induction ts arbitrary: te result s)
  case Nil
  then show ?case by simp
next
  case (Cons t ts)
  show ?case
  proof (cases "et_code t = ''*''")
    case True
    with Cons.prems have "typeReferencesLoop rf ts (te @ openTypeElement) result s = Some (Some trs, s')"
      by simp
    from Cons.IH[OF this] True show ?thesis by simp
  next
    case False
    with Cons.prems have ne: "et_code t \<noteq> []"
      by (auto simp: Let_def split: if_splits)
    from Cons.prems False ne obtain tn b s2 where
      tn: "tn \<noteq> []" and run: "typeReferencesLoop rf ts te (result @ [TypeReference (Some tn) b]) s2 = Some (Some trs, s')"
      by (auto simp: Let_def split: if_splits bind_splits option.splits)
    from Cons.IH[OF run] obtain more where m: "trs = (result @ [TypeReference (Some tn) b]) @ more"
      "length more = length (filter (\<lambda>t. et_code t \<noteq> ''*'') ts)"
      "\<forall>r\<in>set more. \<exists>tn b. r = TypeReference (Some tn) b \<and> tn \<noteq> []"
      by blast
    show ?thesis
      using m tn False by (intro exI[of _ "TypeReference (Some tn) b # more"]) auto
  qed
qed

lemma getTypeReferences_empty:
  assumes "getTypeReferences rf tys s = Some (Some [], s')"
  shows "\<exists>ts. tys = Some ts \<and> list_all (\<lambda>t. et_code t = ''*'') ts"
proof -
  from assms obtain ts where ts: "tys = Some ts" "typeReferencesLoop rf ts ts [] s = Some (Some [], s')"
    by (auto simp: getTypeReferences_def split: option.splits)
  from typeReferencesLoop_result[OF ts(2)] have "filter (\<lambda>t. et_code t \<noteq> ''*'') ts = []"
    by simp
  then have "list_all (\<lambda>t. et_code t = ''*'') ts"
    by (simp add: filter_empty_conv list_all_iff)
  with ts(1) show ?thesis by simp
qed

lemma getTypeReferences_names:
  assumes "getTypeReferences rf tys s = Some (Some trs, s')" "r \<in> set trs"
  shows "refName r \<noteq> Some []"
proof -
  from assms obtain ts where ts: "typeReferencesLoop rf ts ts [] s = Some (Some trs, s')"
    by (auto simp: getTypeReferences_def split: option.splits)
  from typeReferencesLoop_result[OF ts] assms(2) show ?thesis by auto
qed

lemma processElement_choice:
  assumes "str_indexOf (e_path el) ''.'' \<noteq> None"
    and "getPropertyName (e_path el) = Some pn"
    and "3 < length pn"
    and "str_indexOf pn ''[x]'' = Some (length pn - 3)"
    and "processElement fuel rf ty el s = Some (c, s')"
  shows "\<not> c \<or> (\<exists>ts. e_type el = Some ts \<and> list_all (\<lambda>t. et_code t = ''*'') ts)"
proof (cases c)
  case False
  then show ?thesis by simp
next
  case True
  from assms(3) have pn: "pn \<noteq> []" by auto
  from assms(1) obtain y where dot: "str_indexOf (e_path el) ''.'' = Some y" by auto
  have eq: "processElement fuel rf ty el s =
        do {
          (containing, s1) \<leftarrow> getContainingTypeForElement fuel rf ty el s;
          (case containing of
             None \<Rightarrow> Some (False, addError (''Error getting containing type for property '' @ [CHR 0x27]
                                             @ pn @ [CHR 0x27] @ '': '') s1)
           | Some containingType \<Rightarrow>
               do {
                 (typeReferences, s2) \<leftarrow> getTypeReferences rf (e_type el) s1;
                 (case typeReferences of
                    None \<Rightarrow> Some (False, addError (''No types specified for '' @ [CHR 0x27] @ pn
                                                      @ [CHR 0x27] @ ''.'') s2)
                  | Some trs \<Rightarrow>
                      do {
                        s3 \<leftarrow> polymorphicLoop containingType el pn trs None (Some []) s2;
                        Some (True, s3)
                      })
               })
        }"
    unfolding processElement_def using dot assms(2,3,4) pn
    by (simp cong: option.case_cong)
  from assms(5) True obtain ct s1 trs s2 s3 where
    g: "getTypeReferences rf (e_type el) s1 = Some (Some trs, s2)"
    and l: "polymorphicLoop ct el pn trs None (Some []) s2 = Some s3"
    unfolding eq by (auto split: bind_splits option.splits)
  have "trs = []"
  proof (cases trs)
    case Nil
    then show ?thesis .
  next
    case (Cons r rest)
    with getTypeReferences_names[OF g, of r] have "Some [] \<noteq> refName r" by auto
    from polymorphicLoop_first[OF this] l Cons show ?thesis by simp
  qed
  with g getTypeReferences_empty show ?thesis by blast
qed

text \<open>
  The two maps of the claim. A run with less fuel than the walk needs is cut off; a run
  with more meets the error.
\<close>

lemma quantity_twice:
  "processFiles fuel (polymorphicDocs ''Observation.value[x]'' [typeOption ''Quantity'', typeOption ''Quantity'']) = None"
proof -
  let ?docs = "polymorphicDocs ''Observation.value[x]'' [typeOption ''Quantity'', typeOption ''Quantity'']"
  have "fuel = 0 \<or> fuel = 1 \<or> fuel = 2 \<or> fuel = 3 \<or> fuel = 4 \<or> fuel = 5
        \<or> (\<exists>n. fuel = Suc (Suc (Suc (Suc (Suc (Suc n))))))"
    by presburger
  moreover have "processFiles 0 ?docs = None" by code_simp
  moreover have "processFiles 1 ?docs = None" by code_simp
  moreover have "processFiles 2 ?docs = None" by code_simp
  moreover have "processFiles 3 ?docs = None" by code_simp
  moreover have "processFiles 4 ?docs = None" by code_simp
  moreover have "processFiles 5 ?docs = None" by code_simp
  moreover have "processFiles (Suc (Suc (Suc (Suc (Suc (Suc n)))))) ?docs = None" for n by code_simp
  ultimately show ?thesis by (elim disjE exE; simp only:)
qed

lemma quantity_string:
  "processFiles fuel (polymorphicDocs ''Observation.value[x]'' [typeOption ''Quantity'', typeOption ''string'']) = None"
proof -
  let ?docs = "polymorphicDocs ''Observation.value[x]'' [typeOption ''Quantity'', typeOption ''string'']"
  have "fuel = 0 \<or> fuel = 1 \<or> fuel = 2 \<or> fuel = 3 \<or> fuel = 4 \<or> fuel = 5
        \<or> (\<exists>n. fuel = Suc (Suc (Suc (Suc (Suc (Suc n))))))"
    by presburger
  moreover have "processFiles 0 ?docs = None" by code_simp
  moreover have "processFiles 1 ?docs = None" by code_simp
  moreover have "processFiles 2 ?docs = None" by code_simp
  moreover have "processFiles 3 ?docs = None" by code_simp
  moreover have "processFiles 4 ?docs = None" by code_simp
  moreover have "processFiles 5 ?docs = None" by code_simp
  moreover have "processFiles (Suc (Suc (Suc (Suc (Suc (Suc n)))))) ?docs = None" for n by code_simp
  ultimately show ?thesis by (elim disjE exE; simp only:)
qed

text \<open>
  Claim C4, as the code has it. \<^verbatim>\<open>addProperty\<close> has no run that returns. So the loop over the
  type options of an element whose name ends in \<^verbatim>\<open>[x]\<close> does not return when the name of an
  option differs from the name of the option before it, which is so at the first option,
  the variable starting as the empty name: no property is created, neither one for each
  option nor one with a union type for adjacent repeats. When the round of
  \<^verbatim>\<open>processElement\<close> for such an element returns and lets the loop over the elements go on,
  every option of the element is the wildcard, which resolves to no reference. On the maps
  of the claim, with the options \<^verbatim>\<open>Quantity\<close> twice and with \<^verbatim>\<open>Quantity\<close> then \<^verbatim>\<open>string\<close>,
  \<^verbatim>\<open>processFiles\<close> returns with no amount of fuel; with \<^verbatim>\<open>string\<close> the run ends before it
  comes to the properties, when the document of this primitive type is processed.
\<close>

theorem choice_of_types_throws:
  "addProperty name pt opt s = None
   \<and> (lastName \<noteq> refName r \<longrightarrow> polymorphicLoop ct el pn (r # rest) lp lastName sa = None)
   \<and> (str_indexOf (e_path elb) ''.'' \<noteq> None \<and> getPropertyName (e_path elb) = Some pnb \<and> 3 < length pnb
        \<and> str_indexOf pnb ''[x]'' = Some (length pnb - 3)
        \<and> processElement fuel rf ty elb sb = Some (c, sb')
      \<longrightarrow> \<not> c \<or> (\<exists>ts. e_type elb = Some ts \<and> list_all (\<lambda>t. et_code t = ''*'') ts))
   \<and> (\<forall>fuel. processFiles fuel (polymorphicDocs ''Observation.value[x]''
                                   [typeOption ''Quantity'', typeOption ''Quantity'']) = None)
   \<and> (\<forall>fuel. processFiles fuel (polymorphicDocs ''Observation.value[x]''
                                   [typeOption ''Quantity'', typeOption ''string'']) = None)"
proof -
  have a: "addProperty name pt opt s = None"
    by (simp add: addProperty_def)
  have b: "lastName \<noteq> refName r \<longrightarrow> polymorphicLoop ct el pn (r # rest) lp lastName sa = None"
    using polymorphicLoop_first by blast
  have c: "str_indexOf (e_path elb) ''.'' \<noteq> None \<and> getPropertyName (e_path elb) = Some pnb \<and> 3 < length pnb
        \<and> str_indexOf pnb ''[x]'' = Some (length pnb - 3)
        \<and> processElement fuel rf ty elb sb = Some (c, sb')
      \<longrightarrow> \<not> c \<or> (\<exists>ts. e_type elb = Some ts \<and> list_all (\<lambda>t. et_code t = ''*'') ts)"
    using processElement_choice by blast
  from a b c quantity_twice quantity_string show ?thesis by blast
qed

text \<open>
  The theorem at the element \<^verbatim>\<open>Observation.value[x]\<close>: with the option \<^verbatim>\<open>Quantity\<close> twice the
  two references are resolved and the loop over them does not return; with the wildcard
  alone the round returns.
\<close>

theorem choice_of_types_throws_witness:
  "Some [] \<noteq> refName (TypeReference (Some ''Quantity'') None)
   \<and> map_option fst (getTypeReferences (visit 5 True) (Some [typeOption ''Quantity'', typeOption ''Quantity''])
                       observationState)
       = Some (Some [TypeReference (Some ''Quantity'') None, TypeReference (Some ''Quantity'') None])
   \<and> combinePropertyNameWithType ''value[x]'' (Some ''Quantity'') = ''valueQuantity''
   \<and> polymorphicLoop 0 (element ''Observation.value[x]'' (Some [typeOption ''Quantity'', typeOption ''Quantity'']) (Some ''1''))
        ''value[x]'' [TypeReference (Some ''Quantity'') None, TypeReference (Some ''Quantity'') None]
        None (Some []) observationState = None
   \<and> map_option fst (processElement 5 (visit 5 True) 0
                       (element ''Observation.value[x]'' (Some [typeOption ''*'']) (Some ''1'')) observationState)
       = Some True
   \<and> list_all (\<lambda>t. et_code t = ''*'') [typeOption ''*'']"
proof -
  let ?el = "element ''Observation.value[x]'' (Some [typeOption ''*'']) (Some ''1'')"
  let ?r = "TypeReference (Some ''Quantity'') None"
  have h1: "Some [] \<noteq> refName ?r" by simp
  have h2: "map_option fst (getTypeReferences (visit 5 True) (Some [typeOption ''Quantity'', typeOption ''Quantity''])
                       observationState) = Some (Some [?r, ?r])"
    by code_simp
  have h3: "combinePropertyNameWithType ''value[x]'' (Some ''Quantity'') = ''valueQuantity''"
    by code_simp
  have h4: "str_indexOf (e_path ?el) ''.'' \<noteq> None" by code_simp
  have h5: "getPropertyName (e_path ?el) = Some ''value[x]''" by code_simp
  have h6: "3 < length ''value[x]''" by simp
  have h7: "str_indexOf ''value[x]'' ''[x]'' = Some (length ''value[x]'' - 3)" by code_simp
  have h8: "map_option fst (processElement 5 (visit 5 True) 0 ?el observationState) = Some True"
    by code_simp
  then obtain s' where h9: "processElement 5 (visit 5 True) 0 ?el observationState = Some (True, s')"
    by (cases "processElement 5 (visit 5 True) 0 ?el observationState") auto
  have h10: "e_type ?el = Some [typeOption ''*'']" by (simp add: element_def)
  note t = choice_of_types_throws[where lastName = "Some []" and r = ?r and elb = ?el and pnb = "''value[x]''"
             and fuel = 5 and rf = "visit 5 True" and ty = 0 and sb = observationState and c = True and sb' = s']
  have t1: "polymorphicLoop 0 (element ''Observation.value[x]'' (Some [typeOption ''Quantity'', typeOption ''Quantity'']) (Some ''1''))
        ''value[x]'' [?r, ?r] None (Some []) observationState = None"
    using t[THEN conjunct2, THEN conjunct1] h1 by blast
  have t2: "list_all (\<lambda>t. et_code t = ''*'') [typeOption ''*'']"
    using t[THEN conjunct2, THEN conjunct2, THEN conjunct1] h4 h5 h6 h7 h9 h10 by auto
  from h1 h2 h3 t1 h8 t2 show ?thesis by blast
qed
end
